theory Spec2Isabelle
  imports Complex_Main "HOL-Library.Char_ord" "HOL-Library.List_Lexorder" "HOL-Library.Log_Nat"
begin

section \<open>Python exceptions\<close>

text \<open>
  Every \<^verbatim>\<open>raise\<close>, failed \<^verbatim>\<open>assert\<close> and failing built-in operation of the
  Python sources is a value of this type, and so is an error that an
  operator of NumPy or MXNet raises; a function that can raise returns
  \<open>py_error + 'a\<close>, with \<open>Inl\<close> for the exception.
\<close>

datatype py_error =
    AssertionError
  | TypeError
  | IndexError
  | KeyError
  | ValueError
  | NotImplementedError
  | NotImplementedForSymbol
  | MXNetError

section \<open>datasets/youtubebb.py: the helper \<^verbatim>\<open>iou\<close>\<close>

text \<open>
  \<^verbatim>\<open>generate_motion_ious\<close> passes rows of NumPy label arrays, so the entries
  of a box are NumPy scalars: \<^verbatim>\<open>int64\<close> (an integer, with arithmetic that wraps
  around at 64 bits) or \<^verbatim>\<open>float64\<close> (modelled as a real number).
\<close>

datatype np_scalar = Int64 int | Float64 real

definition wrap64 :: "int \<Rightarrow> int" where
  "wrap64 i = (i + 2 ^ 63) mod 2 ^ 64 - 2 ^ 63"

fun to_real :: "np_scalar \<Rightarrow> real" where
  "to_real (Int64 i) = real_of_int i"
| "to_real (Float64 r) = r"

text \<open>
  \<^verbatim>\<open>np.min((x, y))\<close> and \<^verbatim>\<open>np.max((x, y))\<close>: the pair becomes an array, of
  \<^verbatim>\<open>int64\<close> when both entries are integers and of \<^verbatim>\<open>float64\<close> otherwise.
\<close>

fun np_min2 :: "np_scalar \<Rightarrow> np_scalar \<Rightarrow> np_scalar" where
  "np_min2 (Int64 x) (Int64 y) = Int64 (min x y)"
| "np_min2 x y = Float64 (min (to_real x) (to_real y))"

fun np_max2 :: "np_scalar \<Rightarrow> np_scalar \<Rightarrow> np_scalar" where
  "np_max2 (Int64 x) (Int64 y) = Int64 (max x y)"
| "np_max2 x y = Float64 (max (to_real x) (to_real y))"

text \<open>
  \<^verbatim>\<open>x - y\<close> and \<^verbatim>\<open>x * y\<close> on NumPy scalars, \<^verbatim>\<open>x + 1\<close> with the Python integer
  1 (an \<^verbatim>\<open>int64\<close> stays one) and \<^verbatim>\<open>x + 1.\<close> with the Python float (always a
  \<^verbatim>\<open>float64\<close>).
\<close>

fun np_sub :: "np_scalar \<Rightarrow> np_scalar \<Rightarrow> np_scalar" where
  "np_sub (Int64 x) (Int64 y) = Int64 (wrap64 (x - y))"
| "np_sub x y = Float64 (to_real x - to_real y)"

fun np_mul :: "np_scalar \<Rightarrow> np_scalar \<Rightarrow> np_scalar" where
  "np_mul (Int64 x) (Int64 y) = Int64 (wrap64 (x * y))"
| "np_mul x y = Float64 (to_real x * to_real y)"

fun np_add_1 :: "np_scalar \<Rightarrow> np_scalar" where
  "np_add_1 (Int64 x) = Int64 (wrap64 (x + 1))"
| "np_add_1 (Float64 r) = Float64 (r + 1)"

definition np_add_1f :: "np_scalar \<Rightarrow> real" where
  "np_add_1f x = to_real x + 1"

text \<open>
  The value that \<^verbatim>\<open>iou\<close> returns: a number, or the \<^verbatim>\<open>inf\<close> or \<^verbatim>\<open>nan\<close> that
  NumPy's division gives for a divisor 0 (with a warning, not an exception).
\<close>

datatype np_float = Finite real | NonFinite

text \<open>
  \<^verbatim>\<open>iou(bb, bbgt)\<close> reads the entries 0..3 of both boxes (rows of a label array,
  which carry further columns). A box with fewer than four entries makes the
  indexing raise \<^verbatim>\<open>IndexError\<close>. \<^verbatim>\<open>iw\<close>, \<^verbatim>\<open>ih\<close> and \<^verbatim>\<open>intersect\<close> are \<^verbatim>\<open>int64\<close>
  for integer boxes; the sides in \<^verbatim>\<open>ua\<close> are floats because of \<^verbatim>\<open>+ 1.\<close>, and
  so are \<^verbatim>\<open>ua\<close> and \<^verbatim>\<open>ov\<close>.
\<close>

definition iou :: "np_scalar list \<Rightarrow> np_scalar list \<Rightarrow> py_error + np_float" where
  "iou bb bbgt =
     (if length bb < 4 \<or> length bbgt < 4 then Inl IndexError
      else
        let iw = np_add_1 (np_sub (np_min2 (bb ! 2) (bbgt ! 2)) (np_max2 (bb ! 0) (bbgt ! 0)));
            ih = np_add_1 (np_sub (np_min2 (bb ! 3) (bbgt ! 3)) (np_max2 (bb ! 1) (bbgt ! 1)))
        in if to_real iw > 0 \<and> to_real ih > 0 then
             let intersect = np_mul iw ih;
                 ua = np_add_1f (np_sub (bb ! 2) (bb ! 0)) * np_add_1f (np_sub (bb ! 3) (bb ! 1))
                      + np_add_1f (np_sub (bbgt ! 2) (bbgt ! 0))
                        * np_add_1f (np_sub (bbgt ! 3) (bbgt ! 1))
                      - to_real intersect
             in if ua = 0 then Inr NonFinite else Inr (Finite (to_real intersect / ua))
           else Inr (Finite 0))"

section \<open>datasets/youtubebb.py: label validation and loading\<close>

text \<open>
  \<^verbatim>\<open>YouTubeBBDetection._validate_label(xmin, ymin, xmax, ymax, sample_id)\<close>.
  The last argument only feeds the log messages and is left out. A chained
  comparison \<^verbatim>\<open>0 <= xmin < 1\<close> is the conjunction of its two halves. The four
  \<^verbatim>\<open>assert\<close> statements run in order on the (possibly clamped) values.
\<close>

definition validate_label ::
  "real \<Rightarrow> real \<Rightarrow> real \<Rightarrow> real \<Rightarrow> py_error + (real \<times> real \<times> real \<times> real)" where
  "validate_label xmin ymin xmax ymax =
     (let (xmin, ymin, xmax, ymax) =
        (if \<not> (0 \<le> xmin \<and> xmin < 1) \<or> \<not> (0 \<le> ymin \<and> ymin < 1)
            \<or> \<not> (xmin < xmax \<and> xmax \<le> 1) \<or> \<not> (ymin < ymax \<and> ymax \<le> 1)
         then
           let xmin = min (max 0 xmin) 1;
               ymin = min (max 0 ymin) 1;
               xmax = min (max (xmin + 1) xmax) 1;
               ymax = min (max (ymin + 1) ymax) 1
           in (xmin, ymin, xmax, ymax)
         else (xmin, ymin, xmax, ymax))
      in if \<not> (0 \<le> xmin \<and> xmin < 1) then Inl AssertionError
         else if \<not> (0 \<le> ymin \<and> ymin < 1) then Inl AssertionError
         else if \<not> (xmin < xmax \<and> xmax \<le> 1) then Inl AssertionError
         else if \<not> (ymin < ymax \<and> ymax \<le> 1) then Inl AssertionError
         else Inr (xmin, ymin, xmax, ymax))"

text \<open>
  One cached annotation \<^verbatim>\<open>obj\<close> of a sample: the columns 2 onward of a row of
  the annotation file, with the fields that \<^verbatim>\<open>_load_label\<close> converts by
  \<^verbatim>\<open>int(...)\<close> and \<^verbatim>\<open>float(...)\<close> already converted.
\<close>

record annotation =
  obj_class :: int          \<comment> \<open>\<^verbatim>\<open>int(obj[0])\<close>\<close>
  obj_name :: string        \<comment> \<open>\<^verbatim>\<open>obj[1]\<close>, unused\<close>
  obj_track :: int          \<comment> \<open>\<^verbatim>\<open>int(obj[2])\<close>\<close>
  obj_presence :: string    \<comment> \<open>\<^verbatim>\<open>obj[3]\<close>\<close>
  obj_xmin :: real          \<comment> \<open>\<^verbatim>\<open>float(obj[4])\<close>\<close>
  obj_xmax :: real          \<comment> \<open>\<^verbatim>\<open>float(obj[5])\<close>\<close>
  obj_ymin :: real          \<comment> \<open>\<^verbatim>\<open>float(obj[6])\<close>\<close>
  obj_ymax :: real          \<comment> \<open>\<^verbatim>\<open>float(obj[7])\<close>\<close>

text \<open>
  The loop of \<^verbatim>\<open>_load_label\<close> over the objects of a sample, with the list
  \<^verbatim>\<open>label\<close> built so far. \<^verbatim>\<open>continue\<close> is the recursive call with the list
  unchanged. A class id of \<^verbatim>\<open>class_ids\<close> missing from \<^verbatim>\<open>index_map\<close> raises
  \<^verbatim>\<open>KeyError\<close>; the \<^verbatim>\<open>try\<close> block catches \<^verbatim>\<open>AssertionError\<close> only.
\<close>

fun load_label_loop ::
  "int list \<Rightarrow> (int \<rightharpoonup> int) \<Rightarrow> annotation list \<Rightarrow> real list list
     \<Rightarrow> py_error + real list list" where
  "load_label_loop class_ids index_map [] label = Inr label"
| "load_label_loop class_ids index_map (obj # objs) label =
     (if obj_class obj \<notin> set class_ids then load_label_loop class_ids index_map objs label
      else case index_map (obj_class obj) of
        None \<Rightarrow> Inl KeyError
      | Some cls_id \<Rightarrow>
          if obj_presence obj = ''absent'' \<or> obj_xmin obj < 0 \<or> obj_xmax obj < 0
             \<or> obj_ymin obj < 0 \<or> obj_ymax obj < 0
          then load_label_loop class_ids index_map objs label
          else case validate_label (obj_xmin obj) (obj_ymin obj) (obj_xmax obj) (obj_ymax obj) of
            Inl AssertionError \<Rightarrow> load_label_loop class_ids index_map objs label
          | Inl e \<Rightarrow> Inl e
          | Inr (xmin, ymin, xmax, ymax) \<Rightarrow>
              load_label_loop class_ids index_map objs
                (label @ [[xmin, ymin, xmax, ymax, of_int cls_id, of_int (obj_track obj)]]))"

text \<open>
  \<^verbatim>\<open>_load_label\<close> on the cached objects \<^verbatim>\<open>sample\<close> of the sample (in video
  mode, of the frame): the loop from the empty list, then the row of \<open>-1\<close>
  when empty labels are allowed and no object was kept.
\<close>

definition load_label ::
  "bool \<Rightarrow> int list \<Rightarrow> (int \<rightharpoonup> int) \<Rightarrow> annotation list \<Rightarrow> py_error + real list list" where
  "load_label allow_empty class_ids index_map sample =
     (case load_label_loop class_ids index_map sample [] of
        Inl e \<Rightarrow> Inl e
      | Inr label \<Rightarrow>
          Inr (if allow_empty \<and> length label < 1
               then label @ [[-1, -1, -1, -1, -1, -1]] else label))"

section \<open>the training driver: the first statements of \<^verbatim>\<open>main\<close>\<close>

text \<open>
  The flags that the first statements of \<^verbatim>\<open>main\<close> read and write.
  \<^verbatim>\<open>FLAGS.window\<close> is taken after \<^verbatim>\<open>[int(s) for s in FLAGS.window]\<close>;
  \<^verbatim>\<open>FLAGS.dataset\<close> is a list flag, so \<^verbatim>\<open>'vid' in FLAGS.dataset\<close> is list
  membership.
\<close>

record train_flags =
  FLAGS_window :: "int list"
  FLAGS_dataset :: "string list"
  FLAGS_k_join_type :: "string option"
  FLAGS_k_join_pos :: "string option"

text \<open>
  \<^verbatim>\<open>main\<close> from the test of \<^verbatim>\<open>FLAGS.window[0]\<close> up to the point where the
  datasets and the network are built: the flags that the rest of \<^verbatim>\<open>main\<close>
  sees, or the exception that ends it.
\<close>

definition main_window_flags :: "train_flags \<Rightarrow> py_error + train_flags" where
  "main_window_flags FLAGS =
     (case FLAGS_window FLAGS of
        [] \<Rightarrow> Inl IndexError
      | w # _ \<Rightarrow>
          if w > 1 then
            (if ''vid'' \<in> set (FLAGS_dataset FLAGS) then Inr FLAGS else Inl AssertionError)
          else Inr (FLAGS\<lparr>FLAGS_k_join_type := None, FLAGS_k_join_pos := None\<rparr>))"

section \<open>models/definitions/yolo/yolo3.py: the checks of \<^verbatim>\<open>YOLOV3T.__init__\<close>\<close>

text \<open>
  The constructor arguments that the checks read. Every one of them defaults
  to \<^verbatim>\<open>None\<close> but \<^verbatim>\<open>block_conv_type\<close> (default \<^verbatim>\<open>'2'\<close>) and
  \<^verbatim>\<open>pos_iou_thresh\<close> (default 1.0).
\<close>

record yolov3t_args =
  k :: "int option"
  k_join_type :: "string option"
  k_join_pos :: "string option"
  block_conv_type :: string
  rnn_pos :: "string option"
  corr_pos :: "string option"
  pos_iou_thresh :: real

text \<open>
  The \<^verbatim>\<open>if block_conv_type in ['3', '21']\<close> block. In Python 3 the comparison
  \<^verbatim>\<open>k > 1\<close> with \<^verbatim>\<open>k\<close> left at \<^verbatim>\<open>None\<close> raises \<^verbatim>\<open>TypeError\<close>.
\<close>

definition conv_type_checks :: "yolov3t_args \<Rightarrow> py_error + unit" where
  "conv_type_checks a =
     (if block_conv_type a \<in> set [''3'', ''21''] then
        (case k a of
           None \<Rightarrow> Inl TypeError
         | Some kv \<Rightarrow>
             if \<not> kv > 1 then Inl AssertionError
             else if \<not> k_join_pos a = Some ''late'' then Inl AssertionError
             else if \<not> k_join_type a \<noteq> None then Inl AssertionError
             else Inr ())
      else Inr ())"

text \<open>
  \<^verbatim>\<open>YOLOV3T.__init__\<close> from its first \<^verbatim>\<open>assert\<close> to the test of
  \<^verbatim>\<open>pos_iou_thresh\<close>, in the order of the source (\<^verbatim>\<open>YOLOV3TB.__init__\<close> has
  the same statements). \<open>Inr ()\<close> means that the constructor goes on to
  build the network.
\<close>

definition YOLOV3T_init :: "yolov3t_args \<Rightarrow> py_error + unit" where
  "YOLOV3T_init a =
     (if \<not> rnn_pos a \<in> set [None, Some ''late'', Some ''out''] then Inl AssertionError
      else case conv_type_checks a of
        Inl e \<Rightarrow> Inl e
      | Inr _ \<Rightarrow>
          if \<not> k_join_type a \<in> set [None, Some ''max'', Some ''mean'', Some ''cat'']
            then Inl AssertionError
          else if \<not> k_join_pos a \<in> set [None, Some ''early'', Some ''late'']
            then Inl AssertionError
          else if \<not> corr_pos a \<in> set [None, Some ''early'', Some ''late'']
            then Inl AssertionError
          else if rnn_pos a = Some ''late'' \<and> \<not> k_join_pos a = Some ''late''
            then Inl AssertionError
          else if rnn_pos a = Some ''late''
                  \<and> \<not> k_join_type a \<in> set [None, Some ''max'', Some ''mean'', Some ''cat'']
            then Inl AssertionError
          else if pos_iou_thresh a \<ge> 1 then Inr ()
          else Inl NotImplementedError)"

text \<open>
  The conditions that the claim on the constructor lists: the four membership
  tests, and for 3D or 2+1D convolutions the three requirements on \<^verbatim>\<open>k\<close>,
  \<^verbatim>\<open>k_join_pos\<close> and \<^verbatim>\<open>k_join_type\<close>.
\<close>

definition listed_checks_hold :: "yolov3t_args \<Rightarrow> bool" where
  "listed_checks_hold a =
     (rnn_pos a \<in> set [None, Some ''late'', Some ''out'']
      \<and> (if block_conv_type a \<in> set [''3'', ''21'']
         then (case k a of None \<Rightarrow> False | Some kv \<Rightarrow> kv > 1)
              \<and> k_join_pos a = Some ''late'' \<and> k_join_type a \<noteq> None
         else True)
      \<and> k_join_type a \<in> set [None, Some ''max'', Some ''mean'', Some ''cat'']
      \<and> k_join_pos a \<in> set [None, Some ''early'', Some ''late'']
      \<and> corr_pos a \<in> set [None, Some ''early'', Some ''late''])"

section \<open>Python built-ins: \<^verbatim>\<open>range\<close> and list indexing\<close>

text \<open>
  \<^verbatim>\<open>range(start, stop, step)\<close> as the list of its values: a zero step raises
  \<^verbatim>\<open>ValueError\<close>, a positive step counts up while below \<^verbatim>\<open>stop\<close>, a negative
  step counts down while above it.
\<close>

definition py_range :: "int \<Rightarrow> int \<Rightarrow> int \<Rightarrow> py_error + int list" where
  "py_range start stop step =
     (if step = 0 then Inl ValueError
      else if step > 0 then
        Inr (map (\<lambda>n. start + int n * step) [0..<nat ((stop - start + step - 1) div step)])
      else
        Inr (map (\<lambda>n. start + int n * step) [0..<nat ((start - stop - step - 1) div (- step))]))"

text \<open>
  \<^verbatim>\<open>xs[j]\<close>: an index from \<open>- len(xs)\<close> up to \<open>-1\<close> counts from the end, and
  an index outside \<open>- len(xs) \<le> j < len(xs)\<close> raises \<^verbatim>\<open>IndexError\<close>.
\<close>

definition py_index :: "'a list \<Rightarrow> int \<Rightarrow> py_error + 'a" where
  "py_index xs j =
     (if 0 \<le> j \<and> j < int (length xs) then Inr (xs ! nat j)
      else if - int (length xs) \<le> j \<and> j < 0 then Inr (xs ! nat (int (length xs) + j))
      else Inl IndexError)"

section \<open>datasets/youtubebb.py: the temporal windows of \<^verbatim>\<open>_load_items\<close>\<close>





text \<open>
  \<^verbatim>\<open>[vid_id+','+frame_id for frame_id in sorted(videos[vid_id].keys())]\<close>. The
  dict \<^verbatim>\<open>videos[vid_id]\<close> is an association list in insertion order; its keys
  are strings, which \<^verbatim>\<open>sorted\<close> orders lexicographically by character code.
\<close>

definition frame_ids_of :: "string \<Rightarrow> (string \<times> 'a) list \<Rightarrow> string list" where
  "frame_ids_of vid_id frames = map (\<lambda>frame_id. vid_id @ '','' @ frame_id) (sort (map fst frames))"





section \<open>NumPy \<^verbatim>\<open>float64\<close> arithmetic\<close>

text \<open>
  The arrays of \<^verbatim>\<open>_pad_to_dense\<close> hold \<^verbatim>\<open>float64\<close> values, and each addition
  on them returns the exact sum rounded to the nearest \<^verbatim>\<open>float64\<close>, ties to
  the even significand. A finite value is a real number here; a value \<open>x\<close>
  with \<open>2^e \<le> |x| < 2^(e+1)\<close> is rounded to a multiple of \<open>2^(e - 52)\<close> (53
  significant bits). Overflow to infinity, subnormal values and NaN are not
  modelled.
\<close>

definition round_half_even :: "real \<Rightarrow> int" where
  "round_half_even x =
     (if x - of_int \<lfloor>x\<rfloor> < 1 / 2 then \<lfloor>x\<rfloor>
      else if x - of_int \<lfloor>x\<rfloor> > 1 / 2 then \<lfloor>x\<rfloor> + 1
      else if even \<lfloor>x\<rfloor> then \<lfloor>x\<rfloor> else \<lfloor>x\<rfloor> + 1)"

definition float64_round :: "real \<Rightarrow> real" where
  "float64_round x =
     (if x = 0 then 0
      else let e = \<lfloor>log 2 \<bar>x\<bar>\<rfloor>
           in of_int (round_half_even (x * 2 powi (52 - e))) * 2 powi (e - 52))"

definition float64_add :: "real \<Rightarrow> real \<Rightarrow> real" where
  "float64_add a b = float64_round (a + b)"

section \<open>datasets/youtubebb.py: \<^verbatim>\<open>_pad_to_dense\<close>\<close>

text \<open>
  \<^verbatim>\<open>x[enu, :] += row + 1\<close> on one row \<^verbatim>\<open>xrow\<close> of \<^verbatim>\<open>x\<close>: the scalar is added to
  every entry of \<^verbatim>\<open>row\<close>, the result is added to the row of \<^verbatim>\<open>x\<close> entry by
  entry. A \<^verbatim>\<open>row\<close> of one entry is broadcast over the row of \<^verbatim>\<open>x\<close>; any other
  width than that of \<^verbatim>\<open>x\<close> raises \<^verbatim>\<open>ValueError\<close>.
\<close>

definition add_row :: "real list \<Rightarrow> real list \<Rightarrow> py_error + real list" where
  "add_row xrow row =
     (if length row = length xrow
        then Inr (map2 (\<lambda>a v. float64_add a (float64_add v 1)) xrow row)
      else if length row = 1
        then Inr (map (\<lambda>a. float64_add a (float64_add (hd row) 1)) xrow)
      else Inl ValueError)"

text \<open>
  \<^verbatim>\<open>for enu, row in enumerate(labels)\<close> from the index \<^verbatim>\<open>enu\<close> on; a row index
  past the last row of \<^verbatim>\<open>x\<close> raises \<^verbatim>\<open>IndexError\<close>.
\<close>

fun pad_loop :: "nat \<Rightarrow> real list list \<Rightarrow> real list list \<Rightarrow> py_error + real list list" where
  "pad_loop enu [] x = Inr x"
| "pad_loop enu (row # labels) x =
     (if length x \<le> enu then Inl IndexError
      else case add_row (x ! enu) row of
        Inl e \<Rightarrow> Inl e
      | Inr r \<Rightarrow> pad_loop (Suc enu) labels (x[enu := r]))"

text \<open>\<^verbatim>\<open>_pad_to_dense(labels, maxlen)\<close>, starting from \<^verbatim>\<open>-np.ones((maxlen, 6))\<close>.\<close>

definition pad_to_dense :: "real list list \<Rightarrow> nat \<Rightarrow> py_error + real list list" where
  "pad_to_dense labels maxlen = pad_loop 0 labels (replicate maxlen (replicate 6 (- 1)))"

section \<open>the detection driver: \<^verbatim>\<open>detect\<close>\<close>

text \<open>
  An entry of a recorded detection \<^verbatim>\<open>[id_, score_] + list(box_)\<close>: the class id
  is an integer (\<^verbatim>\<open>astype(int)\<close>), the score and the coordinates are floats,
  modelled as real numbers.
\<close>

datatype pynum = PyInt int | PyFloat real

text \<open>
  What the loop over the samples of a batch sees of one sample: the arrays
  \<^verbatim>\<open>ids\<close>, \<^verbatim>\<open>scores\<close> and \<^verbatim>\<open>bboxes\<close> that the network returned for it (the
  first two flattened, as \<^verbatim>\<open>id.flat\<close> and \<^verbatim>\<open>score.flat\<close> read them; the boxes
  before \<^verbatim>\<open>clip\<close>) and its index \<^verbatim>\<open>sidx\<close> in the dataset.
\<close>

record net_output =
  det_ids :: "real list"
  det_scores :: "real list"
  det_bboxes :: "real list list"
  sidx :: int

text \<open>
  A batch of the loader: \<^verbatim>\<open>batch[0].shape[0]\<close> (the number of samples counted
  into \<^verbatim>\<open>c\<close>), \<^verbatim>\<open>batch[0].shape[2]\<close> (the input data shape that clips and
  normalises the boxes) and the network's output for each sample.
\<close>

record batch =
  shape0 :: int
  shape2 :: real
  outputs :: "net_output list"

text \<open>\<^verbatim>\<open>bboxes.clip(0, hi)\<close> on one coordinate.\<close>

definition clip :: "real \<Rightarrow> real \<Rightarrow> real \<Rightarrow> real" where
  "clip lo hi v = min (max v lo) hi"

text \<open>\<^verbatim>\<open>astype(int)\<close> on a float: truncation towards zero.\<close>

definition astype_int :: "real \<Rightarrow> int" where
  "astype_int v = (if 0 \<le> v then \<lfloor>v\<rfloor> else \<lceil>v\<rceil>)"

text \<open>\<^verbatim>\<open>np.where(id.flat >= 0)[0]\<close>: the indices of the boxes with a class.\<close>

definition valid_pred :: "real list \<Rightarrow> nat list" where
  "valid_pred ids = filter (\<lambda>j. ids ! j \<ge> 0) [0..<length ids]"

text \<open>
  \<^verbatim>\<open>for id_, box_, score_ in zip(id, box, score)\<close> (the loop variables are
  \<open>id_i\<close>, \<open>box_i\<close> and \<open>score_i\<close> here), with the dict \<^verbatim>\<open>boxes\<close> as a map
  from file paths to lists of detections.
\<close>

fun record_loop ::
  "real \<Rightarrow> string \<Rightarrow> (int \<times> real list \<times> real) list \<Rightarrow> (string \<rightharpoonup> pynum list list)
     \<Rightarrow> (string \<rightharpoonup> pynum list list)" where
  "record_loop detection_threshold file [] boxes = boxes"
| "record_loop detection_threshold file ((id_i, box_i, score_i) # rest) boxes =
     (if score_i > detection_threshold then
        (case boxes file of
           Some ds \<Rightarrow>
             record_loop detection_threshold file rest
               (boxes(file \<mapsto> ds @ [[PyInt id_i, PyFloat score_i] @ map PyFloat box_i]))
         | None \<Rightarrow>
             record_loop detection_threshold file rest
               (boxes(file \<mapsto> [[PyInt id_i, PyFloat score_i] @ map PyFloat box_i])))
      else record_loop detection_threshold file rest boxes)"

text \<open>
  The body of the loop over the samples of a batch. Indexing \<^verbatim>\<open>box\<close> or
  \<^verbatim>\<open>score.flat\<close> with a valid index past their end raises \<^verbatim>\<open>IndexError\<close>.
\<close>

definition detect_sample ::
  "real \<Rightarrow> (int \<Rightarrow> string) \<Rightarrow> real \<Rightarrow> net_output \<Rightarrow> (string \<rightharpoonup> pynum list list)
     \<Rightarrow> py_error + (string \<rightharpoonup> pynum list list)" where
  "detect_sample detection_threshold sample_path shape out boxes =
     (let file = sample_path (sidx out);
          vp = valid_pred (det_ids out)
      in if \<exists>j \<in> set vp. length (det_bboxes out) \<le> j \<or> length (det_scores out) \<le> j
         then Inl IndexError
         else
           let box' = map (\<lambda>j. map (\<lambda>v. clip 0 shape v / shape) (det_bboxes out ! j)) vp;
               id' = map (\<lambda>j. astype_int (det_ids out ! j)) vp;
               score' = map (\<lambda>j. det_scores out ! j) vp
           in Inr (record_loop detection_threshold file (zip id' (zip box' score')) boxes))"

fun samples_loop ::
  "real \<Rightarrow> (int \<Rightarrow> string) \<Rightarrow> real \<Rightarrow> net_output list \<Rightarrow> (string \<rightharpoonup> pynum list list)
     \<Rightarrow> py_error + (string \<rightharpoonup> pynum list list)" where
  "samples_loop detection_threshold sample_path shape [] boxes = Inr boxes"
| "samples_loop detection_threshold sample_path shape (out # outs) boxes =
     (case detect_sample detection_threshold sample_path shape out boxes of
        Inl e \<Rightarrow> Inl e
      | Inr boxes' \<Rightarrow> samples_loop detection_threshold sample_path shape outs boxes')"

text \<open>
  \<^verbatim>\<open>for ib, batch in enumerate(loader)\<close> with the counter \<^verbatim>\<open>c\<close> and the
  \<^verbatim>\<open>break\<close> once \<^verbatim>\<open>c > max_do\<close>.
\<close>

fun batches_loop ::
  "real \<Rightarrow> (int \<Rightarrow> string) \<Rightarrow> int \<Rightarrow> batch list \<Rightarrow> int \<Rightarrow> (string \<rightharpoonup> pynum list list)
     \<Rightarrow> py_error + (string \<rightharpoonup> pynum list list)" where
  "batches_loop detection_threshold sample_path max_do [] c boxes = Inr boxes"
| "batches_loop detection_threshold sample_path max_do (b # loader) c boxes =
     (case samples_loop detection_threshold sample_path (shape2 b) (outputs b) boxes of
        Inl e \<Rightarrow> Inl e
      | Inr boxes' \<Rightarrow>
          if c + shape0 b > max_do then Inr boxes'
          else batches_loop detection_threshold sample_path max_do loader (c + shape0 b) boxes')"

text \<open>
  \<^verbatim>\<open>detect(net, dataset, loader, ctx, detection_threshold, max_do)\<close>: the dataset
  enters through \<^verbatim>\<open>dataset.sample_path\<close> and \<^verbatim>\<open>len(dataset)\<close>, the network and
  the loader through the batches with the network's outputs.
\<close>

definition detect ::
  "(int \<Rightarrow> string) \<Rightarrow> int \<Rightarrow> batch list \<Rightarrow> real \<Rightarrow> int
     \<Rightarrow> py_error + (string \<rightharpoonup> pynum list list)" where
  "detect sample_path len_dataset loader detection_threshold max_do =
     (let max_do = (if max_do < 0 then len_dataset else max_do)
      in batches_loop detection_threshold sample_path max_do loader 0 Map.empty)"

text \<open>
  A detection \<^verbatim>\<open>d\<close> recorded for \<^verbatim>\<open>file\<close> stems from the network's output: some
  box \<open>j\<close> of a sample with that file path in a batch of the loader, with a
  class id that is not negative and a score above the threshold, and \<^verbatim>\<open>d\<close>
  holds its class id as an integer, its score, and its coordinates clipped to
  the data shape and divided by it.
\<close>

definition stems_from :: "(int \<Rightarrow> string) \<Rightarrow> batch list \<Rightarrow> real \<Rightarrow> string \<Rightarrow> pynum list \<Rightarrow> bool" where
  "stems_from sample_path loader detection_threshold file d =
     (\<exists>b \<in> set loader. \<exists>out \<in> set (outputs b). \<exists>j < length (det_ids out).
        sample_path (sidx out) = file
        \<and> j < length (det_bboxes out)
        \<and> det_ids out ! j \<ge> 0
        \<and> det_scores out ! j > detection_threshold
        \<and> d = [PyInt (astype_int (det_ids out ! j)), PyFloat (det_scores out ! j)]
               @ map (\<lambda>v. PyFloat (clip 0 (shape2 b) v / shape2 b)) (det_bboxes out ! j))"

text \<open>
  The invariant of the loops of \<^verbatim>\<open>detect\<close>: no key of \<^verbatim>\<open>boxes\<close> holds an empty
  list, and every detection recorded for a file satisfies \<open>P\<close>.
\<close>

definition boxes_inv ::
  "(string \<Rightarrow> pynum list \<Rightarrow> bool) \<Rightarrow> (string \<rightharpoonup> pynum list list) \<Rightarrow> bool" where
  "boxes_inv P boxes =
     (\<forall>file ds. boxes file = Some ds \<longrightarrow> ds \<noteq> [] \<and> (\<forall>d \<in> set ds. P file d))"

section \<open>models/definitions/yolo/yolo3.py: \<^verbatim>\<open>YOLOOutputV3.hybrid_forward\<close>\<close>

text \<open>
  The argument \<^verbatim>\<open>F\<close> of \<^verbatim>\<open>hybrid_forward\<close>: \<^verbatim>\<open>mxnet.nd\<close>, or \<^verbatim>\<open>mxnet.sym\<close> when the
  layer is hybridized. With \<^verbatim>\<open>mxnet.sym\<close> the arrays are symbols of the same
  computations.
\<close>

datatype mx_api = Nd | Sym

text \<open>
  \<^verbatim>\<open>thresh = 0.3\<close>, with scores as real numbers. The float \<^verbatim>\<open>0.3\<close> is the
  largest \<^verbatim>\<open>float64\<close> below \<open>3/10\<close>, so a \<^verbatim>\<open>float64\<close> exceeds the one exactly when it
  exceeds the other.
\<close>

definition thresh :: real where
  "thresh = 3 / 10"

text \<open>
  \<^verbatim>\<open>np.max\<close> and \<^verbatim>\<open>np.argmax\<close> on an array that is not empty; \<^verbatim>\<open>np.argmax\<close>
  returns the first index of the maximum.
\<close>

definition np_max :: "real list \<Rightarrow> real" where
  "np_max xs = fold max (tl xs) (hd xs)"

definition np_argmax :: "real list \<Rightarrow> nat" where
  "np_argmax xs = length (takeWhile (\<lambda>x. x \<noteq> np_max xs) xs)"

text \<open>
  An operation of NumPy on two arrays of one dimension, entry by entry: an
  array of one entry is broadcast over the other array, any other two
  different lengths raise \<^verbatim>\<open>ValueError\<close>.
\<close>

definition np_broadcast :: "('a \<Rightarrow> 'b \<Rightarrow> 'c) \<Rightarrow> 'a list \<Rightarrow> 'b list \<Rightarrow> py_error + 'c list" where
  "np_broadcast f xs ys =
     (if length xs = length ys then Inr (map2 f xs ys)
      else if length xs = 1 then Inr (map (f (hd xs)) ys)
      else if length ys = 1 then Inr (map (\<lambda>x. f x (hd ys)) xs)
      else Inl ValueError)"

text \<open>
  The body of the loop over the levels, up to \<^verbatim>\<open>masked_scores\<close>: the leaves
  above the level and the nodes of the level keep their score.
\<close>

definition masked_scores :: "int list \<Rightarrow> int list \<Rightarrow> real list \<Rightarrow> int \<Rightarrow> py_error + real list" where
  "masked_scores levels leafs box_scores level =
     (case np_broadcast (\<lambda>w f. w * f) (map (\<lambda>l. if l < level then 1 else 0) levels) leafs of
        Inl e \<Rightarrow> Inl e
      | Inr leaf_mask \<Rightarrow>
          (case np_broadcast max leaf_mask (map (\<lambda>l. if l = level then 1 else 0) levels) of
             Inl e \<Rightarrow> Inl e
           | Inr msk \<Rightarrow> np_broadcast (\<lambda>m s. of_int m * s) msk box_scores))"

text \<open>
  \<^verbatim>\<open>for level in range(int(max(levels)), 0, -1)\<close> over the levels still to
  come: the index \<^verbatim>\<open>ind\<close> that is set in \<^verbatim>\<open>mx_mask\<close> before the \<^verbatim>\<open>break\<close>, if
  any. \<^verbatim>\<open>np.max\<close> of an empty array raises \<^verbatim>\<open>ValueError\<close>; an index \<^verbatim>\<open>ind\<close>
  past the row of \<^verbatim>\<open>mx_mask\<close> raises \<^verbatim>\<open>IndexError\<close>.
\<close>

fun level_loop :: "int list \<Rightarrow> int list \<Rightarrow> real list \<Rightarrow> int list \<Rightarrow> py_error + nat option" where
  "level_loop levels leafs box_scores [] = Inr None"
| "level_loop levels leafs box_scores (level # rest) =
     (case masked_scores levels leafs box_scores level of
        Inl e \<Rightarrow> Inl e
      | Inr ms \<Rightarrow>
          if ms = [] then Inl ValueError
          else if np_max ms > thresh then
            (if np_argmax ms < length box_scores then Inr (Some (np_argmax ms))
             else Inl IndexError)
          else level_loop levels leafs box_scores rest)"

text \<open>
  The body of \<^verbatim>\<open>for b in range(scores_flt.shape[0])\<close> for one box: the new row
  \<^verbatim>\<open>mx_mask[b, :] * scores_flt[b, :]\<close>. \<^verbatim>\<open>max\<close> of an empty \<^verbatim>\<open>levels\<close> raises
  \<^verbatim>\<open>ValueError\<close>.
\<close>

definition hier_mask_box :: "int list \<Rightarrow> int list \<Rightarrow> real list \<Rightarrow> py_error + real list" where
  "hier_mask_box levels leafs box_scores =
     (if levels = [] then Inl ValueError
      else case py_range (fold max (tl levels) (hd levels)) 0 (- 1) of
        Inl e \<Rightarrow> Inl e
      | Inr ls \<Rightarrow>
          (case level_loop levels leafs box_scores ls of
             Inl e \<Rightarrow> Inl e
           | Inr found \<Rightarrow>
               let mx_mask =
                     (case found of
                        None \<Rightarrow> replicate (length box_scores) 0
                      | Some ind \<Rightarrow> (replicate (length box_scores) 0)[ind := 1])
               in Inr (map2 (\<lambda>m s. m * s) mx_mask box_scores)))"

text \<open>The loop over all boxes of all images of the batch.\<close>

fun hier_mask_boxes ::
  "int list \<Rightarrow> int list \<Rightarrow> real list list \<Rightarrow> py_error + real list list" where
  "hier_mask_boxes levels leafs [] = Inr []"
| "hier_mask_boxes levels leafs (box_scores # rest) =
     (case hier_mask_box levels leafs box_scores of
        Inl e \<Rightarrow> Inl e
      | Inr row \<Rightarrow>
          (case hier_mask_boxes levels leafs rest of
             Inl e \<Rightarrow> Inl e
           | Inr rows \<Rightarrow> Inr (row # rows)))"

fun hier_mask_images ::
  "int list \<Rightarrow> int list \<Rightarrow> real list list list \<Rightarrow> py_error + real list list list" where
  "hier_mask_images levels leafs [] = Inr []"
| "hier_mask_images levels leafs (img # imgs) =
     (case hier_mask_boxes levels leafs img of
        Inl e \<Rightarrow> Inl e
      | Inr rows \<Rightarrow>
          (case hier_mask_images levels leafs imgs of
             Inl e \<Rightarrow> Inl e
           | Inr rest \<Rightarrow> Inr (rows # rest)))"

text \<open>
  The detections of one image for class scores \<^verbatim>\<open>class_score\<close> (one row of
  \<^verbatim>\<open>self._classes\<close> scores for each box) and boxes \<^verbatim>\<open>bbox\<close>: for each class in
  turn, a row \<^verbatim>\<open>[id, score, xmin, ymin, xmax, ymax]\<close> for each box (the layout
  after the transposition and the reshape to \<^verbatim>\<open>(B, xx, 6)\<close>).
\<close>

definition image_detections :: "nat \<Rightarrow> real list list \<Rightarrow> real list list \<Rightarrow> real list list" where
  "image_detections classes class_score bbox =
     concat (map (\<lambda>c. map2 (\<lambda>s box. [real c, s ! c] @ box) class_score bbox) [0..<classes])"

definition make_detections ::
  "nat \<Rightarrow> real list list list \<Rightarrow> real list list list \<Rightarrow> real list list list" where
  "make_detections classes class_score bbox =
     map2 (image_detections classes) class_score bbox"

text \<open>
  The class-agnostic detections of one image: class id 0, the objectness as
  score, and the box.
\<close>

definition agnostic_detections :: "real list list \<Rightarrow> real list list list \<Rightarrow> real list list list" where
  "agnostic_detections confidence bbox =
     map2 (\<lambda>conf boxes. map2 (\<lambda>c box. [0, c] @ box) conf boxes) confidence bbox"

text \<open>
  What \<^verbatim>\<open>YOLOOutputV3.hybrid_forward\<close> returns: the tuple of raw predictions
  during training (of a type \<open>'t\<close> left open), one array of detections, or
  the pair \<^verbatim>\<open>(detections, detections_masked)\<close>.
\<close>

datatype 't output_result =
    TrainingOutput 't
  | Detections "real list list list"
  | DetectionsPair "real list list list" "real list list list"

text \<open>
  \<^verbatim>\<open>YOLOOutputV3.hybrid_forward\<close> from \<^verbatim>\<open>if autograd.is_training()\<close> on. The
  arrays computed before that point are arguments: the tuple \<^verbatim>\<open>raw\<close> returned
  in training, and for each image of the batch the rows \<^verbatim>\<open>class_score\<close>,
  \<^verbatim>\<open>confidence\<close> and \<^verbatim>\<open>bbox\<close> of its boxes. In the branch for \<^verbatim>\<open>hier_info\<close>,
  \<^verbatim>\<open>scores_flt.asnumpy()\<close> on a symbol raises \<^verbatim>\<open>NotImplementedForSymbol\<close>.
\<close>

definition YOLOOutputV3_forward ::
  "mx_api \<Rightarrow> bool \<Rightarrow> bool \<Rightarrow> (int list \<times> int list) option \<Rightarrow> nat \<Rightarrow> 't
     \<Rightarrow> real list list list \<Rightarrow> real list list \<Rightarrow> real list list list
     \<Rightarrow> py_error + 't output_result" where
  "YOLOOutputV3_forward F is_training agnostic hier_info classes raw class_score confidence bbox =
     (if is_training then Inr (TrainingOutput raw)
      else if agnostic then Inr (Detections (agnostic_detections confidence bbox))
      else
        let detections = make_detections classes class_score bbox
        in case hier_info of
             Some (levels, leafs) \<Rightarrow>
               (case F of
                  Sym \<Rightarrow> Inl NotImplementedForSymbol
                | Nd \<Rightarrow>
                    (case hier_mask_images levels leafs class_score of
                       Inl e \<Rightarrow> Inl e
                     | Inr class_score_masked \<Rightarrow>
                         Inr (DetectionsPair detections
                                (make_detections classes class_score_masked bbox))))
           | None \<Rightarrow> Inr (Detections detections))"

text \<open>
  The masking of one box as the claim on the hierarchy describes it: \<^verbatim>\<open>masked\<close>
  is the score vector times a mask of zeros and ones with at most one 1; the
  deepest level (from \<^verbatim>\<open>max(levels)\<close> down to 1) whose masked maximum exceeds
  the threshold puts the 1 at the index of that maximum; without such a level
  all masked scores are zero.
\<close>

definition hier_masked :: "int list \<Rightarrow> int list \<Rightarrow> real list \<Rightarrow> real list \<Rightarrow> bool" where
  "hier_masked levels leafs box_scores masked =
     ((\<exists>mask. length mask = length box_scores
          \<and> (\<forall>i < length box_scores. mask ! i = 0 \<or> mask ! i = 1)
          \<and> (\<forall>i j. i < length box_scores \<and> j < length box_scores
                 \<and> mask ! i = 1 \<and> mask ! j = 1 \<longrightarrow> i = j)
          \<and> masked = map2 (\<lambda>m s. m * s) mask box_scores)
      \<and> (\<forall>L ms. 1 \<le> L \<and> L \<le> Max (set levels)
            \<and> masked_scores levels leafs box_scores L = Inr ms \<and> np_max ms > thresh
            \<and> (\<forall>L' ms'. L < L' \<and> L' \<le> Max (set levels)
                  \<and> masked_scores levels leafs box_scores L' = Inr ms' \<longrightarrow>
                  \<not> np_max ms' > thresh) \<longrightarrow>
            masked = map2 (\<lambda>m s. m * s)
              ((replicate (length box_scores) 0)[np_argmax ms := 1]) box_scores)
      \<and> ((\<forall>L ms. 1 \<le> L \<and> L \<le> Max (set levels)
              \<and> masked_scores levels leafs box_scores L = Inr ms \<longrightarrow>
              \<not> np_max ms > thresh) \<longrightarrow>
          masked = replicate (length box_scores) 0))"

section \<open>models/definitions/yolo/yolo3.py: \<^verbatim>\<open>YOLOV3.hybrid_forward\<close>\<close>

text \<open>
  Arrays of three dimensions (batch, rows, columns) and of four dimensions as
  nested lists; the first index is the image of the batch.
\<close>

type_synonym array3 = "real list list list"

type_synonym array4 = "real list list list list"

text \<open>
  An output layer of the network, as \<^verbatim>\<open>YOLOV3.__init__\<close> builds it
  (\<^verbatim>\<open>YOLOOutputV3\<close> without \<^verbatim>\<open>hier_info\<close>): in training mode it returns the tuple
  \<^verbatim>\<open>(dets, box_centers, box_scales, objness, class_pred, anchors, offsets)\<close>,
  otherwise the array of detections. Feature maps (type \<open>'x\<close>) and the
  anchor and offset arrays (type \<open>'p\<close>) are left open.
\<close>

record ('x, 'p) output_layer =
  train_output :: "'x \<Rightarrow> array3 \<times> array4 \<times> array4 \<times> array4 \<times> array4 \<times> 'p \<times> 'p"
  infer_output :: "'x \<Rightarrow> array3"

text \<open>
  The attributes of a \<^verbatim>\<open>YOLOV3\<close> network that \<^verbatim>\<open>hybrid_forward\<close> reads. The
  target generator (\<^verbatim>\<open>YOLOV3TargetMerger\<close>) takes the box predictions and the
  extra arguments \<^verbatim>\<open>*args\<close> (type \<open>'g\<close>) and returns a list of arrays; the loss
  (\<^verbatim>\<open>gluoncv.loss.YOLOV3Loss\<close>) returns the tuple
  \<^verbatim>\<open>(obj_loss, center_loss, scale_loss, cls_loss)\<close>.
\<close>

record ('x, 'p, 'g, 'l) yolov3 =
  stages :: "('x \<Rightarrow> 'x) list"
  yolo_blocks :: "('x \<Rightarrow> 'x \<times> 'x) list"
  yolo_outputs :: "('x, 'p) output_layer list"
  transitions :: "('x \<Rightarrow> 'x) list"
  nms_thresh :: real
  nms_topk :: int
  post_nms :: int
  target_generator :: "array3 \<Rightarrow> 'g \<Rightarrow> array3 list"
  loss :: "array3 list \<Rightarrow> 'l \<times> 'l \<times> 'l \<times> 'l"

text \<open>
  The operators on feature maps and \<^verbatim>\<open>F.contrib.box_nms\<close>, which the method
  takes from MXNet and from \<^verbatim>\<open>models.definitions.layers\<close>: \<^verbatim>\<open>_upsample(x, stride=2)\<close>,
  \<^verbatim>\<open>F.concat(F.slice_like(upsample, route_now * 0, axes=(2, 3)), route_now, dim=1)\<close>,
  \<^verbatim>\<open>F.zeros_like\<close> of the two slices of \<^verbatim>\<open>tip\<close>, and \<^verbatim>\<open>box_nms\<close> with its
  arguments \<^verbatim>\<open>overlap_thresh\<close>, \<^verbatim>\<open>valid_thresh\<close> and \<^verbatim>\<open>topk\<close>. They are the same
  for \<^verbatim>\<open>F = mxnet.nd\<close> and \<^verbatim>\<open>F = mxnet.sym\<close>, where the arrays are symbols and
  the model gives the outcome of running the graph.
\<close>

record 'x mx_ops =
  upsample :: "'x \<Rightarrow> 'x"
  concat_route :: "'x \<Rightarrow> 'x \<Rightarrow> 'x"
  fake_featmap :: "'x \<Rightarrow> 'x"
  box_nms :: "real \<Rightarrow> real \<Rightarrow> int \<Rightarrow> array3 \<Rightarrow> array3"

text \<open>
  \<^verbatim>\<open>F.concat(*arrays, dim=1)\<close>: the rows of the arrays are joined image by
  image. MXNet rejects an empty list of arrays, arrays of different batch
  sizes and rows of different widths.
\<close>

definition concat_dim1 :: "array3 list \<Rightarrow> py_error + array3" where
  "concat_dim1 arrays =
     (case arrays of
        [] \<Rightarrow> Inl MXNetError
      | a # rest \<Rightarrow>
          if list_all (\<lambda>b. length b = length a) rest
             \<and> list_all (\<lambda>row. length row = length (hd (concat (concat arrays))))
                   (concat (concat arrays))
          then Inr (map (\<lambda>i. concat (map (\<lambda>arr. arr ! i) arrays)) [0..<length a])
          else Inl MXNetError)"

text \<open>\<^verbatim>\<open>reshape((0, -3, -1))\<close>: the second and the third dimension are merged.\<close>

definition reshape_0_m3_m1 :: "array4 \<Rightarrow> array3" where
  "reshape_0_m3_m1 a = map concat a"

text \<open>
  \<^verbatim>\<open>slice_axis(axis=1, begin=0, end=e)\<close> for \<open>e > 0\<close>: the first \<open>e\<close> rows of
  every image. MXNet rejects an \<^verbatim>\<open>end\<close> beyond the number of rows (of an array
  that has rows).
\<close>

definition slice_axis1 :: "int \<Rightarrow> array3 \<Rightarrow> py_error + array3" where
  "slice_axis1 e a =
     (if list_all (\<lambda>img. img = [] \<or> e \<le> int (length img)) a
      then Inr (map (take (nat e)) a)
      else Inl MXNetError)"

text \<open>
  \<^verbatim>\<open>slice_axis(axis=-1, begin=b, end=e)\<close> with \<^verbatim>\<open>end=None\<close> for the last column:
  the columns from \<open>b\<close> up to \<open>e\<close> of every row. MXNet rejects an \<^verbatim>\<open>end\<close> beyond
  the number of columns and an empty range of columns.
\<close>

definition slice_row_ok :: "nat \<Rightarrow> nat option \<Rightarrow> real list \<Rightarrow> bool" where
  "slice_row_ok b e row =
     (let stop = (case e of None \<Rightarrow> length row | Some e \<Rightarrow> e)
      in row = [] \<or> (stop \<le> length row \<and> b < stop))"

definition slice_row :: "nat \<Rightarrow> nat option \<Rightarrow> real list \<Rightarrow> real list" where
  "slice_row b e row =
     (let stop = (case e of None \<Rightarrow> length row | Some e \<Rightarrow> e)
      in take (stop - b) (drop b row))"

definition slice_axis_last :: "nat \<Rightarrow> nat option \<Rightarrow> array3 \<Rightarrow> py_error + array3" where
  "slice_axis_last b e a =
     (if list_all (list_all (slice_row_ok b e)) a
      then Inr (map (map (slice_row b e)) a)
      else Inl MXNetError)"

text \<open>The lists that the loop over the output layers fills.\<close>

record ('x, 'p) collected =
  all_box_centers :: "array3 list"
  all_box_scales :: "array3 list"
  all_objectness :: "array3 list"
  all_class_pred :: "array3 list"
  all_anchors :: "'p list"
  all_offsets :: "'p list"
  all_feat_maps :: "'x list"
  all_detections :: "array3 list"

text \<open>
  \<^verbatim>\<open>for stage, block, output in zip(self.stages, self.yolo_blocks, self.yolo_outputs)\<close>:
  the stages that the shortest of the three lists reaches, with the route of
  each.
\<close>

fun stage_loop :: "('x \<Rightarrow> 'x) list \<Rightarrow> 'x \<Rightarrow> 'x list \<Rightarrow> 'x \<times> 'x list" where
  "stage_loop [] x routes = (x, routes)"
| "stage_loop (stage # rest) x routes = stage_loop rest (stage x) (routes @ [stage x])"

text \<open>
  The body of the second loop up to \<^verbatim>\<open>all_detections.append(dets)\<close>, for the
  \<^verbatim>\<open>tip\<close> that the block returned.
\<close>

definition collect_output ::
  "'x mx_ops \<Rightarrow> bool \<Rightarrow> ('x, 'p) output_layer \<Rightarrow> 'x \<Rightarrow> ('x, 'p) collected \<Rightarrow> ('x, 'p) collected"
where
  "collect_output ops is_training output tip acc =
     (if is_training then
        (case train_output output tip of
           (dets, box_centers, box_scales, objness, class_pred, anchors, offsets) \<Rightarrow>
             acc\<lparr>all_box_centers := all_box_centers acc @ [reshape_0_m3_m1 box_centers],
                 all_box_scales := all_box_scales acc @ [reshape_0_m3_m1 box_scales],
                 all_objectness := all_objectness acc @ [reshape_0_m3_m1 objness],
                 all_class_pred := all_class_pred acc @ [reshape_0_m3_m1 class_pred],
                 all_anchors := all_anchors acc @ [anchors],
                 all_offsets := all_offsets acc @ [offsets],
                 all_feat_maps := all_feat_maps acc @ [fake_featmap ops tip],
                 all_detections := all_detections acc @ [dets]\<rparr>)
      else acc\<lparr>all_detections := all_detections acc @ [infer_output output tip]\<rparr>)"

text \<open>
  \<^verbatim>\<open>for i, block, output in zip(range(len(routes)), self.yolo_blocks, self.yolo_outputs)\<close>
  over the triples still to come, with the \<^verbatim>\<open>break\<close> at the last route. An
  index past the end of \<^verbatim>\<open>self.transitions\<close> raises \<^verbatim>\<open>IndexError\<close>.
\<close>

fun output_loop ::
  "('x, 'p, 'g, 'l) yolov3 \<Rightarrow> 'x mx_ops \<Rightarrow> bool \<Rightarrow> 'x list
     \<Rightarrow> (int \<times> ('x \<Rightarrow> 'x \<times> 'x) \<times> ('x, 'p) output_layer) list \<Rightarrow> 'x \<Rightarrow> ('x, 'p) collected
     \<Rightarrow> py_error + ('x, 'p) collected" where
  "output_loop net ops is_training routes [] x acc = Inr acc"
| "output_loop net ops is_training routes ((i, block, output) # rest) x acc =
     (case block x of
        (x1, tip) \<Rightarrow>
          let acc1 = collect_output ops is_training output tip acc
          in if i \<ge> int (length routes) - 1 then Inr acc1
             else case py_index (transitions net) i of
               Inl e \<Rightarrow> Inl e
             | Inr transition \<Rightarrow>
                 (case py_index (rev routes) (i + 1) of
                    Inl e \<Rightarrow> Inl e
                  | Inr route_now \<Rightarrow>
                      output_loop net ops is_training routes rest
                        (concat_route ops (upsample ops (transition x1)) route_now) acc1))"

text \<open>The two loops, from the empty lists.\<close>

definition collect ::
  "('x, 'p, 'g, 'l) yolov3 \<Rightarrow> 'x mx_ops \<Rightarrow> bool \<Rightarrow> 'x \<Rightarrow> py_error + ('x, 'p) collected" where
  "collect net ops is_training x =
     (case stage_loop (map fst (zip (stages net) (zip (yolo_blocks net) (yolo_outputs net)))) x []
      of (x1, routes) \<Rightarrow>
        output_loop net ops is_training routes
          (zip (map int [0..<length routes]) (zip (yolo_blocks net) (yolo_outputs net))) x1
          \<lparr>all_box_centers = [], all_box_scales = [], all_objectness = [],
           all_class_pred = [], all_anchors = [], all_offsets = [], all_feat_maps = [],
           all_detections = []\<rparr>)"

text \<open>
  The lines from \<^verbatim>\<open>if self.nms_thresh > 0 and self.nms_thresh < 1\<close> to the
  truncation to \<^verbatim>\<open>post_nms\<close> rows, on the concatenated detections.
\<close>

definition nms_stage :: "('x, 'p, 'g, 'l) yolov3 \<Rightarrow> 'x mx_ops \<Rightarrow> array3 \<Rightarrow> py_error + array3" where
  "nms_stage net ops result =
     (if nms_thresh net > 0 \<and> nms_thresh net < 1 then
        let result1 = box_nms ops (nms_thresh net) (1 / 100) (nms_topk net) result
        in if post_nms net > 0 then slice_axis1 (post_nms net) result1
           else Inr result1
      else Inr result)"

text \<open>
  What \<^verbatim>\<open>YOLOV3.hybrid_forward\<close> returns: the losses, the tuple of raw
  predictions, or \<^verbatim>\<open>(ids, scores, bboxes)\<close>.
\<close>

datatype ('x, 'p, 'l) forward_result =
    Losses "'l \<times> 'l \<times> 'l \<times> 'l"
  | RawPredictions array3 "'p list" "'p list" "'x list" array3 array3 array3 array3
  | Inference array3 array3 array3

text \<open>
  The three ways in which \<^verbatim>\<open>hybrid_forward\<close> ends, for the lists \<^verbatim>\<open>acc\<close> that
  the loops filled: the losses (training and recording), the raw predictions
  (training, not recording), and the detections (inference).
\<close>

definition forward_losses ::
  "('x, 'p, 'g, 'l) yolov3 \<Rightarrow> ('x, 'p) collected \<Rightarrow> 'g \<Rightarrow> py_error + ('x, 'p, 'l) forward_result"
where
  "forward_losses net acc args =
     (case concat_dim1 (all_detections acc) of Inl e \<Rightarrow> Inl e | Inr box_preds \<Rightarrow>
     (case concat_dim1 (all_objectness acc) of Inl e \<Rightarrow> Inl e | Inr objness \<Rightarrow>
     (case concat_dim1 (all_box_centers acc) of Inl e \<Rightarrow> Inl e | Inr centers \<Rightarrow>
     (case concat_dim1 (all_box_scales acc) of Inl e \<Rightarrow> Inl e | Inr scales \<Rightarrow>
     (case concat_dim1 (all_class_pred acc) of Inl e \<Rightarrow> Inl e | Inr class_pred \<Rightarrow>
        Inr (Losses (loss net ([objness, centers, scales, class_pred]
                               @ target_generator net box_preds args))))))))"

definition forward_raw ::
  "('x, 'p) collected \<Rightarrow> py_error + ('x, 'p, 'l) forward_result" where
  "forward_raw acc =
     (case concat_dim1 (all_detections acc) of Inl e \<Rightarrow> Inl e | Inr dets \<Rightarrow>
     (case concat_dim1 (all_box_centers acc) of Inl e \<Rightarrow> Inl e | Inr centers \<Rightarrow>
     (case concat_dim1 (all_box_scales acc) of Inl e \<Rightarrow> Inl e | Inr scales \<Rightarrow>
     (case concat_dim1 (all_objectness acc) of Inl e \<Rightarrow> Inl e | Inr objness \<Rightarrow>
     (case concat_dim1 (all_class_pred acc) of Inl e \<Rightarrow> Inl e | Inr class_pred \<Rightarrow>
        Inr (RawPredictions dets (all_anchors acc) (all_offsets acc) (all_feat_maps acc)
               centers scales objness class_pred))))))"

definition forward_detections ::
  "('x, 'p, 'g, 'l) yolov3 \<Rightarrow> 'x mx_ops \<Rightarrow> ('x, 'p) collected
     \<Rightarrow> py_error + ('x, 'p, 'l) forward_result" where
  "forward_detections net ops acc =
     (case concat_dim1 (all_detections acc) of Inl e \<Rightarrow> Inl e | Inr dets \<Rightarrow>
     (case nms_stage net ops dets of Inl e \<Rightarrow> Inl e | Inr result \<Rightarrow>
     (case slice_axis_last 0 (Some 1) result of Inl e \<Rightarrow> Inl e | Inr ids \<Rightarrow>
     (case slice_axis_last 1 (Some 2) result of Inl e \<Rightarrow> Inl e | Inr scores \<Rightarrow>
     (case slice_axis_last 2 None result of Inl e \<Rightarrow> Inl e | Inr bboxes \<Rightarrow>
        Inr (Inference ids scores bboxes))))))"

text \<open>
  \<^verbatim>\<open>YOLOV3.hybrid_forward(F, x, *args)\<close> for the two flags of \<^verbatim>\<open>autograd\<close>,
  \<^verbatim>\<open>is_training()\<close> and \<^verbatim>\<open>is_recording()\<close>.
\<close>

definition YOLOV3_forward ::
  "('x, 'p, 'g, 'l) yolov3 \<Rightarrow> 'x mx_ops \<Rightarrow> bool \<Rightarrow> bool \<Rightarrow> 'x \<Rightarrow> 'g
     \<Rightarrow> py_error + ('x, 'p, 'l) forward_result" where
  "YOLOV3_forward net ops is_training is_recording x args =
     (case collect net ops is_training x of
        Inl e \<Rightarrow> Inl e
      | Inr acc \<Rightarrow>
          if is_training then
            (if is_recording then forward_losses net acc args else forward_raw acc)
          else forward_detections net ops acc)"

section \<open>Properties of \<^verbatim>\<open>iou\<close>\<close>

lemma np_min2_commute: "np_min2 x y = np_min2 y x"
  by (cases x; cases y) (simp_all add: min.commute)

lemma np_max2_commute: "np_max2 x y = np_max2 y x"
  by (cases x; cases y) (simp_all add: max.commute)

text \<open>The two boxes can be exchanged, whatever their entries are.\<close>

lemma iou_commute: "iou a b = iou b a"
proof -
  have 1: "np_min2 (a ! i) (b ! i) = np_min2 (b ! i) (a ! i)" for i
    by (rule np_min2_commute)
  have 2: "np_max2 (a ! i) (b ! i) = np_max2 (b ! i) (a ! i)" for i
    by (rule np_max2_commute)
  show ?thesis
    unfolding iou_def 1 [of 2] 1 [of 3] 2 [of 0] 2 [of 1]
    by (simp add: Let_def add.commute disj_commute)
qed

lemma iou_overlap_bounds:
  fixes iw ih wa ha wb hb :: real
  assumes "0 < iw" "0 < ih" "iw \<le> wa" "ih \<le> ha" "iw \<le> wb" "ih \<le> hb"
  shows "0 < wa * ha + wb * hb - iw * ih"
    and "0 \<le> iw * ih / (wa * ha + wb * hb - iw * ih)"
    and "iw * ih / (wa * ha + wb * hb - iw * ih) \<le> 1"
proof -
  have pos: "0 < iw * ih" using assms by simp
  have a: "iw * ih \<le> wa * ha" using assms by (intro mult_mono) auto
  have b: "iw * ih \<le> wb * hb" using assms by (intro mult_mono) auto
  have ua: "iw * ih \<le> wa * ha + wb * hb - iw * ih" using a b by linarith
  then show uapos: "0 < wa * ha + wb * hb - iw * ih" using pos by linarith
  show "0 \<le> iw * ih / (wa * ha + wb * hb - iw * ih)"
    using pos uapos by simp
  show "iw * ih / (wa * ha + wb * hb - iw * ih) \<le> 1"
    using ua uapos by simp
qed

text \<open>
  On boxes of floats (the rows of a \<^verbatim>\<open>float64\<close> label array, as real numbers)
  the overlap is a number between 0 and 1.
\<close>

lemma iou_float_range:
  assumes "iou (map Float64 a) (map Float64 b) = Inr ov"
  shows "\<exists>r. ov = Finite r \<and> 0 \<le> r \<and> r \<le> 1"
proof -
  define iw where "iw = min (a ! 2) (b ! 2) - max (a ! 0) (b ! 0) + 1"
  define ih where "ih = min (a ! 3) (b ! 3) - max (a ! 1) (b ! 1) + 1"
  define wa where "wa = a ! 2 - a ! 0 + 1"
  define ha where "ha = a ! 3 - a ! 1 + 1"
  define wb where "wb = b ! 2 - b ! 0 + 1"
  define hb where "hb = b ! 3 - b ! 1 + 1"
  have len: "4 \<le> length a" "4 \<le> length b"
    using assms by (auto simp: iou_def split: if_splits)
  have nth: "map Float64 a ! i = Float64 (a ! i)" "map Float64 b ! i = Float64 (b ! i)"
    if "i < 4" for i
    using that len by simp_all
  have run: "iou (map Float64 a) (map Float64 b)
      = (if iw > 0 \<and> ih > 0
         then if wa * ha + wb * hb - iw * ih = 0 then Inr NonFinite
              else Inr (Finite (iw * ih / (wa * ha + wb * hb - iw * ih)))
         else Inr (Finite 0))"
    using len
    by (simp add: iou_def Let_def nth np_add_1f_def iw_def ih_def wa_def ha_def wb_def hb_def)
  show ?thesis
  proof (cases "iw > 0 \<and> ih > 0")
    case True
    have le: "iw \<le> wa" "ih \<le> ha" "iw \<le> wb" "ih \<le> hb"
      by (simp_all add: iw_def ih_def wa_def ha_def wb_def hb_def)
    note bounds = iou_overlap_bounds [of iw ih wa ha wb hb]
    have ua: "wa * ha + wb * hb - iw * ih \<noteq> 0" using bounds(1) True le by simp
    have "ov = Finite (iw * ih / (wa * ha + wb * hb - iw * ih))"
      using assms run True ua by simp
    then show ?thesis
      using bounds(2,3) True le by simp
  next
    case False
    then have "ov = Finite 0" using assms run by auto
    then show ?thesis by simp
  qed
qed


section \<open>Properties of label validation\<close>

lemma validate_label_post:
  assumes "validate_label xmin ymin xmax ymax = Inr (a, b, c, d)"
  shows "0 \<le> a \<and> a < 1 \<and> 0 \<le> b \<and> b < 1 \<and> a < c \<and> c \<le> 1 \<and> b < d \<and> d \<le> 1"
  using assms unfolding validate_label_def Let_def
  by (auto simp: min_def max_def split: if_splits prod.splits)

lemma validate_label_raises:
  assumes "min (max 0 xmin) 1 = 1 \<or> min (max 0 ymin) 1 = 1"
  shows "validate_label xmin ymin xmax ymax = Inl AssertionError"
proof -
  have big: "1 \<le> xmin \<or> 1 \<le> ymin"
    using assms by (auto simp: min_def max_def split: if_splits)
  then show ?thesis
    unfolding validate_label_def Let_def
    by (auto simp: min_def max_def)
qed

lemma validate_label_error_iff:
  "validate_label xmin ymin xmax ymax = Inl e \<longleftrightarrow>
     e = AssertionError
     \<and> (\<not> (0 \<le> xmin \<and> xmin < 1) \<or> \<not> (0 \<le> ymin \<and> ymin < 1)
        \<or> \<not> (xmin < xmax \<and> xmax \<le> 1) \<or> \<not> (ymin < ymax \<and> ymax \<le> 1))
     \<and> (1 \<le> xmin \<or> 1 \<le> ymin)"
  unfolding validate_label_def Let_def
  by (auto simp: min_def max_def split: if_splits)

lemma load_label_loop_skips:
  assumes "validate_label (obj_xmin obj) (obj_ymin obj) (obj_xmax obj) (obj_ymax obj)
             = Inl AssertionError"
    and "obj_class obj \<in> set class_ids \<longrightarrow> index_map (obj_class obj) \<noteq> None"
  shows "load_label_loop class_ids index_map (obj # objs) label
           = load_label_loop class_ids index_map objs label"
  using assms by auto

text \<open>
  Claim C8. If \<^verbatim>\<open>_validate_label\<close> returns, the returned box satisfies
  \<open>0 \<le> xmin < 1\<close>, \<open>0 \<le> ymin < 1\<close>, \<open>xmin < xmax \<le> 1\<close> and
  \<open>ymin < ymax \<le> 1\<close>. It raises nothing but \<^verbatim>\<open>AssertionError\<close>, and does so
  exactly for the inputs that fail the first test and have \<open>xmin \<ge> 1\<close> or
  \<open>ymin \<ge> 1\<close>, which are the inputs whose clamped \<open>xmin\<close> or \<open>ymin\<close> equals 1:
  every other input is clamped into the ranges. The loop of \<^verbatim>\<open>_load_label\<close>
  skips an object on which the validation raises (for an \<^verbatim>\<open>index_map\<close> that
  covers the class ids in use): the result is that of the remaining objects.
\<close>

theorem validate_label_postcondition:
  "(validate_label xmin ymin xmax ymax = Inr (a, b, c, d) \<longrightarrow>
      0 \<le> a \<and> a < 1 \<and> 0 \<le> b \<and> b < 1 \<and> a < c \<and> c \<le> 1 \<and> b < d \<and> d \<le> 1)
   \<and> (min (max 0 xmin) 1 = 1 \<or> min (max 0 ymin) 1 = 1 \<longrightarrow>
        validate_label xmin ymin xmax ymax = Inl AssertionError)
   \<and> (validate_label xmin ymin xmax ymax = Inl e \<longrightarrow>
        e = AssertionError \<and> (min (max 0 xmin) 1 = 1 \<or> min (max 0 ymin) 1 = 1))
   \<and> (validate_label (obj_xmin obj) (obj_ymin obj) (obj_xmax obj) (obj_ymax obj)
          = Inl AssertionError
        \<and> (obj_class obj \<in> set class_ids \<longrightarrow> index_map (obj_class obj) \<noteq> None) \<longrightarrow>
        load_label_loop class_ids index_map (obj # objs) label
          = load_label_loop class_ids index_map objs label)"
proof -
  have p1: "validate_label xmin ymin xmax ymax = Inr (a, b, c, d) \<longrightarrow>
      0 \<le> a \<and> a < 1 \<and> 0 \<le> b \<and> b < 1 \<and> a < c \<and> c \<le> 1 \<and> b < d \<and> d \<le> 1"
    using validate_label_post by blast
  have p2: "min (max 0 xmin) 1 = 1 \<or> min (max 0 ymin) 1 = 1 \<longrightarrow>
        validate_label xmin ymin xmax ymax = Inl AssertionError"
    using validate_label_raises by blast
  have p3: "validate_label xmin ymin xmax ymax = Inl e \<longrightarrow>
        e = AssertionError \<and> (min (max 0 xmin) 1 = 1 \<or> min (max 0 ymin) 1 = 1)"
  proof
    assume e: "validate_label xmin ymin xmax ymax = Inl e"
    then have "1 \<le> xmin \<or> 1 \<le> ymin" by (simp add: validate_label_error_iff)
    then have "min (max 0 xmin) 1 = 1 \<or> min (max 0 ymin) 1 = 1" by auto
    moreover from e have "e = AssertionError" by (simp add: validate_label_error_iff)
    ultimately show "e = AssertionError \<and> (min (max 0 xmin) 1 = 1 \<or> min (max 0 ymin) 1 = 1)"
      by simp
  qed
  have p4: "validate_label (obj_xmin obj) (obj_ymin obj) (obj_xmax obj) (obj_ymax obj)
          = Inl AssertionError
        \<and> (obj_class obj \<in> set class_ids \<longrightarrow> index_map (obj_class obj) \<noteq> None) \<longrightarrow>
        load_label_loop class_ids index_map (obj # objs) label
          = load_label_loop class_ids index_map objs label"
    using load_label_loop_skips by blast
  from p1 p2 p3 p4 show ?thesis by blast
qed

theorem validate_label_postcondition_witness:
  "validate_label (1/5) (3/10) (1/2) (3/5) = Inr (1/5, 3/10, 1/2, 3/5)
   \<and> (0::real) \<le> 1/5 \<and> (1::real)/5 < 1/2 \<and> (1::real)/2 \<le> 1
   \<and> min (max 0 (3/2)) 1 = (1::real)
   \<and> validate_label (3/2) (3/10) 2 (3/5) = Inl AssertionError
   \<and> load_label_loop [1] [1 \<mapsto> 0]
        [\<lparr>obj_class = 1, obj_name = ''person'', obj_track = 7, obj_presence = ''present'',
          obj_xmin = 3/2, obj_xmax = 2, obj_ymin = 3/10, obj_ymax = 3/5\<rparr>,
         \<lparr>obj_class = 1, obj_name = ''person'', obj_track = 7, obj_presence = ''present'',
          obj_xmin = 1/5, obj_xmax = 1/2, obj_ymin = 3/10, obj_ymax = 3/5\<rparr>] []
       = Inr [[1/5, 3/10, 1/2, 3/5, 0, 7]]"
proof -
  define bad where "bad = \<lparr>obj_class = 1, obj_name = ''person'', obj_track = 7,
      obj_presence = ''present'', obj_xmin = 3/2, obj_xmax = 2, obj_ymin = 3/10, obj_ymax = 3/5\<rparr>"
  define good where "good = \<lparr>obj_class = 1, obj_name = ''person'', obj_track = 7,
      obj_presence = ''present'', obj_xmin = 1/5, obj_xmax = 1/2, obj_ymin = 3/10, obj_ymax = 3/5\<rparr>"
  have ok: "validate_label (1/5) (3/10) (1/2) (3/5) = Inr (1/5, 3/10, 1/2, 3/5)"
    by (simp add: validate_label_def)
  have clamp: "min (max 0 (3/2)) 1 = (1::real)" by simp
  note t1 = validate_label_postcondition [where xmin = "1/5" and ymin = "3/10" and xmax = "1/2"
          and ymax = "3/5" and a = "1/5" and b = "3/10" and c = "1/2" and d = "3/5"
          and e = AssertionError and class_ids = "[1]" and index_map = "[1 \<mapsto> 0]"
          and obj = bad and objs = "[good]" and label = "[]"]
  note t2 = validate_label_postcondition [where xmin = "3/2" and ymin = "3/10" and xmax = 2
          and ymax = "3/5" and a = 0 and b = 0 and c = 0 and d = 0
          and e = AssertionError and class_ids = "[1]" and index_map = "[1 \<mapsto> 0]"
          and obj = bad and objs = "[good]" and label = "[]"]
  from t1 ok have bounds: "(0::real) \<le> 1/5 \<and> (1::real)/5 < 1/2 \<and> (1::real)/2 \<le> 1" by blast
  from t2 clamp have raises: "validate_label (3/2) (3/10) 2 (3/5) = Inl AssertionError" by blast
  then have raises': "validate_label (obj_xmin bad) (obj_ymin bad) (obj_xmax bad) (obj_ymax bad)
      = Inl AssertionError" by (simp add: bad_def)
  have cov: "obj_class bad \<in> set [1] \<longrightarrow> [1 \<mapsto> (0::int)] (obj_class bad) \<noteq> None"
    by (simp add: bad_def)
  from t2 raises' cov have skip: "load_label_loop [1] [1 \<mapsto> 0] [bad, good] []
      = load_label_loop [1] [1 \<mapsto> 0] [good] []" by blast
  have rest: "load_label_loop [1] [1 \<mapsto> 0] [good] [] = Inr [[1/5, 3/10, 1/2, 3/5, 0, 7]]"
    by (simp add: good_def ok)
  show ?thesis
    using ok bounds clamp raises skip rest unfolding bad_def good_def by simp
qed

section \<open>The training driver's window check\<close>

text \<open>
  Claim C7. With \<^verbatim>\<open>window[0] > 1\<close>, \<^verbatim>\<open>main\<close> raises \<^verbatim>\<open>AssertionError\<close>
  unless \<^verbatim>\<open>'vid'\<close> is among the training datasets (and then leaves the flags
  as they are); with \<^verbatim>\<open>window[0] <= 1\<close> it sets \<^verbatim>\<open>k_join_type\<close> and
  \<^verbatim>\<open>k_join_pos\<close> to \<^verbatim>\<open>None\<close> and changes nothing else, so the network of a
  single-frame training is built without a joining configuration.
\<close>

theorem main_window_requires_vid:
  "(FLAGS_window F = w # ws \<and> w > 1 \<and> ''vid'' \<notin> set (FLAGS_dataset F) \<longrightarrow>
      main_window_flags F = Inl AssertionError)
   \<and> (FLAGS_window F = w # ws \<and> w > 1 \<and> ''vid'' \<in> set (FLAGS_dataset F) \<longrightarrow>
      main_window_flags F = Inr F)
   \<and> (FLAGS_window F = w # ws \<and> w \<le> 1 \<longrightarrow>
      (\<exists>F'. main_window_flags F = Inr F'
            \<and> FLAGS_k_join_type F' = None \<and> FLAGS_k_join_pos F' = None
            \<and> FLAGS_window F' = FLAGS_window F \<and> FLAGS_dataset F' = FLAGS_dataset F))"
  by (auto simp: main_window_flags_def)

theorem main_window_requires_vid_witness:
  "main_window_flags \<lparr>FLAGS_window = [3, 1], FLAGS_dataset = [''voc''],
       FLAGS_k_join_type = Some ''max'', FLAGS_k_join_pos = Some ''late''\<rparr>
     = Inl AssertionError
   \<and> main_window_flags \<lparr>FLAGS_window = [3, 1], FLAGS_dataset = [''voc'', ''vid''],
       FLAGS_k_join_type = Some ''max'', FLAGS_k_join_pos = Some ''late''\<rparr>
     = Inr \<lparr>FLAGS_window = [3, 1], FLAGS_dataset = [''voc'', ''vid''],
       FLAGS_k_join_type = Some ''max'', FLAGS_k_join_pos = Some ''late''\<rparr>
   \<and> main_window_flags \<lparr>FLAGS_window = [1, 1], FLAGS_dataset = [''voc''],
       FLAGS_k_join_type = Some ''max'', FLAGS_k_join_pos = Some ''late''\<rparr>
     = Inr \<lparr>FLAGS_window = [1, 1], FLAGS_dataset = [''voc''],
       FLAGS_k_join_type = None, FLAGS_k_join_pos = None\<rparr>"
proof -
  note a = main_window_requires_vid [where w = 3 and ws = "[1]" and
      F = "\<lparr>FLAGS_window = [3, 1], FLAGS_dataset = [''voc''],
       FLAGS_k_join_type = Some ''max'', FLAGS_k_join_pos = Some ''late''\<rparr>"]
  note b = main_window_requires_vid [where w = 3 and ws = "[1]" and
      F = "\<lparr>FLAGS_window = [3, 1], FLAGS_dataset = [''voc'', ''vid''],
       FLAGS_k_join_type = Some ''max'', FLAGS_k_join_pos = Some ''late''\<rparr>"]
  note c = main_window_requires_vid [where w = 1 and ws = "[1]" and
      F = "\<lparr>FLAGS_window = [1, 1], FLAGS_dataset = [''voc''],
       FLAGS_k_join_type = Some ''max'', FLAGS_k_join_pos = Some ''late''\<rparr>"]
  from a have 1: "main_window_flags \<lparr>FLAGS_window = [3, 1], FLAGS_dataset = [''voc''],
       FLAGS_k_join_type = Some ''max'', FLAGS_k_join_pos = Some ''late''\<rparr>
     = Inl AssertionError" by simp
  from b have 2: "main_window_flags \<lparr>FLAGS_window = [3, 1], FLAGS_dataset = [''voc'', ''vid''],
       FLAGS_k_join_type = Some ''max'', FLAGS_k_join_pos = Some ''late''\<rparr>
     = Inr \<lparr>FLAGS_window = [3, 1], FLAGS_dataset = [''voc'', ''vid''],
       FLAGS_k_join_type = Some ''max'', FLAGS_k_join_pos = Some ''late''\<rparr>" by simp
  from c obtain F' where 3: "main_window_flags \<lparr>FLAGS_window = [1, 1], FLAGS_dataset = [''voc''],
       FLAGS_k_join_type = Some ''max'', FLAGS_k_join_pos = Some ''late''\<rparr> = Inr F'"
     and f: "FLAGS_k_join_type F' = None" "FLAGS_k_join_pos F' = None"
       "FLAGS_window F' = [1, 1]" "FLAGS_dataset F' = [''voc'']"
    by auto
  from f have "F' = \<lparr>FLAGS_window = [1, 1], FLAGS_dataset = [''voc''],
       FLAGS_k_join_type = None, FLAGS_k_join_pos = None\<rparr>" by (cases F') simp
  with 1 2 3 show ?thesis by simp
qed

section \<open>The constructor checks of \<^verbatim>\<open>YOLOV3T\<close>\<close>

lemma conv_type_checks_None:
  "conv_type_checks a = Inl TypeError \<longleftrightarrow>
     block_conv_type a \<in> set [''3'', ''21''] \<and> k a = None"
  by (simp add: conv_type_checks_def split: option.splits)

lemma conv_type_checks_Inr:
  "conv_type_checks a = Inr u \<longleftrightarrow>
     (block_conv_type a \<in> set [''3'', ''21''] \<longrightarrow>
        (\<exists>kv. k a = Some kv \<and> kv > 1) \<and> k_join_pos a = Some ''late'' \<and> k_join_type a \<noteq> None)"
  by (auto simp: conv_type_checks_def split: option.splits)

lemma conv_type_checks_cases:
  "conv_type_checks a = Inl TypeError \<or> conv_type_checks a = Inl AssertionError
   \<or> conv_type_checks a = Inr ()"
  by (simp add: conv_type_checks_def split: option.splits)

lemma conv_type_checks_fails:
  assumes "k a = Some kv" "block_conv_type a \<in> set [''3'', ''21'']"
    and "\<not> (kv > 1 \<and> k_join_pos a = Some ''late'' \<and> k_join_type a \<noteq> None)"
  shows "conv_type_checks a = Inl AssertionError"
  using assms by (auto simp: conv_type_checks_def)

text \<open>The chain of checks with the tests named, so that they stay folded in the proofs.\<close>

lemma YOLOV3T_init_chain:
  assumes "R = (rnn_pos a \<in> set [None, Some ''late'', Some ''out''])"
    and "J = (k_join_type a \<in> set [None, Some ''max'', Some ''mean'', Some ''cat''])"
    and "P = (k_join_pos a \<in> set [None, Some ''early'', Some ''late''])"
    and "C = (corr_pos a \<in> set [None, Some ''early'', Some ''late''])"
    and "L = (rnn_pos a = Some ''late'')"
    and "Q = (k_join_pos a = Some ''late'')"
  shows "YOLOV3T_init a =
     (if \<not> R then Inl AssertionError
      else case conv_type_checks a of
        Inl e \<Rightarrow> Inl e
      | Inr _ \<Rightarrow>
          if \<not> J then Inl AssertionError
          else if \<not> P then Inl AssertionError
          else if \<not> C then Inl AssertionError
          else if L \<and> \<not> Q then Inl AssertionError
          else if L \<and> \<not> J then Inl AssertionError
          else if pos_iou_thresh a \<ge> 1 then Inr ()
          else Inl NotImplementedError)"
  unfolding assms YOLOV3T_init_def by (rule refl)

lemma YOLOV3T_init_conv_type:
  assumes "k a = Some kv" "block_conv_type a \<in> set [''3'', ''21'']"
    and "\<not> (kv > 1 \<and> k_join_pos a = Some ''late'' \<and> k_join_type a \<noteq> None)"
  shows "YOLOV3T_init a = Inl AssertionError"
proof -
  have c: "conv_type_checks a = Inl AssertionError"
    using assms by (rule conv_type_checks_fails)
  show ?thesis
    by (subst YOLOV3T_init_chain [OF refl refl refl refl refl refl], subst c) simp
qed

lemma YOLOV3T_init_membership:
  assumes "k a \<noteq> None \<or> block_conv_type a \<notin> set [''3'', ''21'']"
    and "rnn_pos a \<notin> set [None, Some ''late'', Some ''out'']
         \<or> k_join_type a \<notin> set [None, Some ''max'', Some ''mean'', Some ''cat'']
         \<or> k_join_pos a \<notin> set [None, Some ''early'', Some ''late'']
         \<or> corr_pos a \<notin> set [None, Some ''early'', Some ''late'']"
  shows "YOLOV3T_init a = Inl AssertionError"
proof -
  define R where "R = (rnn_pos a \<in> set [None, Some ''late'', Some ''out''])"
  define J where "J = (k_join_type a \<in> set [None, Some ''max'', Some ''mean'', Some ''cat''])"
  define P where "P = (k_join_pos a \<in> set [None, Some ''early'', Some ''late''])"
  define C where "C = (corr_pos a \<in> set [None, Some ''early'', Some ''late''])"
  define L where "L = (rnn_pos a = Some ''late'')"
  define Q where "Q = (k_join_pos a = Some ''late'')"
  note chain = YOLOV3T_init_chain [OF R_def J_def P_def C_def L_def Q_def]
  have "conv_type_checks a \<noteq> Inl TypeError"
    using assms(1) unfolding conv_type_checks_None by blast
  then have c: "conv_type_checks a = Inl AssertionError \<or> conv_type_checks a = Inr ()"
    using conv_type_checks_cases [of a] by blast
  have bad: "\<not> R \<or> \<not> J \<or> \<not> P \<or> \<not> C"
    using assms(2) unfolding R_def J_def P_def C_def by blast
  from c show ?thesis
  proof
    assume "conv_type_checks a = Inl AssertionError"
    then show ?thesis unfolding chain by simp
  next
    assume "conv_type_checks a = Inr ()"
    then show ?thesis unfolding chain using bad by auto
  qed
qed

lemma YOLOV3T_init_listed:
  assumes "listed_checks_hold a"
  shows "YOLOV3T_init a \<noteq> Inl TypeError"
    and "YOLOV3T_init a = Inl AssertionError \<longleftrightarrow>
           rnn_pos a = Some ''late'' \<and> k_join_pos a \<noteq> Some ''late''"
proof -
  define R where "R = (rnn_pos a \<in> set [None, Some ''late'', Some ''out''])"
  define J where "J = (k_join_type a \<in> set [None, Some ''max'', Some ''mean'', Some ''cat''])"
  define P where "P = (k_join_pos a \<in> set [None, Some ''early'', Some ''late''])"
  define C where "C = (corr_pos a \<in> set [None, Some ''early'', Some ''late''])"
  define L where "L = (rnn_pos a = Some ''late'')"
  define Q where "Q = (k_join_pos a = Some ''late'')"
  note chain = YOLOV3T_init_chain [OF R_def J_def P_def C_def L_def Q_def]
  have cond: "block_conv_type a \<in> set [''3'', ''21''] \<longrightarrow>
        (\<exists>kv. k a = Some kv \<and> kv > 1) \<and> k_join_pos a = Some ''late'' \<and> k_join_type a \<noteq> None"
  proof
    assume b: "block_conv_type a \<in> set [''3'', ''21'']"
    from assms have i: "if block_conv_type a \<in> set [''3'', ''21'']
         then (case k a of None \<Rightarrow> False | Some kv \<Rightarrow> kv > 1)
              \<and> k_join_pos a = Some ''late'' \<and> k_join_type a \<noteq> None
         else True"
      unfolding listed_checks_hold_def by blast
    have "(case k a of None \<Rightarrow> False | Some kv \<Rightarrow> kv > 1)
              \<and> k_join_pos a = Some ''late'' \<and> k_join_type a \<noteq> None"
      using i unfolding if_P [OF b] .
    then show "(\<exists>kv. k a = Some kv \<and> kv > 1) \<and> k_join_pos a = Some ''late''
         \<and> k_join_type a \<noteq> None"
      by (cases "k a") auto
  qed
  then have c: "conv_type_checks a = Inr ()"
    unfolding conv_type_checks_Inr .
  have m: "R" "J" "P" "C"
    using assms unfolding listed_checks_hold_def R_def J_def P_def C_def by blast+
  show "YOLOV3T_init a \<noteq> Inl TypeError"
    unfolding chain using c m by simp
  have "YOLOV3T_init a = Inl AssertionError \<longleftrightarrow> L \<and> \<not> Q"
    unfolding chain using c m by simp
  then show "YOLOV3T_init a = Inl AssertionError \<longleftrightarrow>
           rnn_pos a = Some ''late'' \<and> k_join_pos a \<noteq> Some ''late''"
    unfolding L_def Q_def .
qed

lemma YOLOV3T_init_rnn_pos:
  assumes "rnn_pos a \<notin> set [None, Some ''late'', Some ''out'']"
  shows "YOLOV3T_init a = Inl AssertionError"
proof -
  define R where "R = (rnn_pos a \<in> set [None, Some ''late'', Some ''out''])"
  have "\<not> R" using assms unfolding R_def .
  then show ?thesis
    unfolding YOLOV3T_init_chain [OF R_def refl refl refl refl refl] by simp
qed

text \<open>
  What the checks do. An \<^verbatim>\<open>rnn_pos\<close> outside its list raises
  \<^verbatim>\<open>AssertionError\<close>, whatever the other arguments are. With \<^verbatim>\<open>k\<close> given
  as an integer, \<^verbatim>\<open>block_conv_type\<close> \<^verbatim>\<open>'3'\<close> or \<^verbatim>\<open>'21'\<close> raises
  \<^verbatim>\<open>AssertionError\<close> unless \<open>k > 1\<close>, \<^verbatim>\<open>k_join_pos == 'late'\<close> and
  \<^verbatim>\<open>k_join_type\<close> is not \<^verbatim>\<open>None\<close>. When \<^verbatim>\<open>k\<close> is an integer or the
  convolution type is neither \<^verbatim>\<open>'3'\<close> nor \<^verbatim>\<open>'21'\<close>, a \<^verbatim>\<open>k_join_type\<close>,
  \<^verbatim>\<open>k_join_pos\<close> or \<^verbatim>\<open>corr_pos\<close> outside its list raises \<^verbatim>\<open>AssertionError\<close>.
  When all the listed conditions hold, there is no \<^verbatim>\<open>TypeError\<close>, and an
  \<^verbatim>\<open>AssertionError\<close> only from the further requirement that
  \<^verbatim>\<open>rnn_pos == 'late'\<close> comes with \<^verbatim>\<open>k_join_pos == 'late'\<close>.
\<close>

lemma YOLOV3T_init_validation:
  "(rnn_pos a \<notin> set [None, Some ''late'', Some ''out''] \<longrightarrow>
      YOLOV3T_init a = Inl AssertionError)
   \<and> (k a = Some kv \<and> block_conv_type a \<in> set [''3'', ''21'']
      \<and> \<not> (kv > 1 \<and> k_join_pos a = Some ''late'' \<and> k_join_type a \<noteq> None) \<longrightarrow>
      YOLOV3T_init a = Inl AssertionError)
   \<and> ((k a \<noteq> None \<or> block_conv_type a \<notin> set [''3'', ''21''])
      \<and> (k_join_type a \<notin> set [None, Some ''max'', Some ''mean'', Some ''cat'']
         \<or> k_join_pos a \<notin> set [None, Some ''early'', Some ''late'']
         \<or> corr_pos a \<notin> set [None, Some ''early'', Some ''late'']) \<longrightarrow>
      YOLOV3T_init a = Inl AssertionError)
   \<and> (listed_checks_hold a \<longrightarrow>
      YOLOV3T_init a \<noteq> Inl TypeError
      \<and> (YOLOV3T_init a = Inl AssertionError \<longleftrightarrow>
           rnn_pos a = Some ''late'' \<and> k_join_pos a \<noteq> Some ''late''))"
proof -
  have p0: "rnn_pos a \<notin> set [None, Some ''late'', Some ''out''] \<longrightarrow>
      YOLOV3T_init a = Inl AssertionError"
    using YOLOV3T_init_rnn_pos [of a] by blast
  have p1: "k a = Some kv \<and> block_conv_type a \<in> set [''3'', ''21'']
      \<and> \<not> (kv > 1 \<and> k_join_pos a = Some ''late'' \<and> k_join_type a \<noteq> None) \<longrightarrow>
      YOLOV3T_init a = Inl AssertionError"
    using YOLOV3T_init_conv_type [of a kv] by blast
  have p2: "(k a \<noteq> None \<or> block_conv_type a \<notin> set [''3'', ''21''])
      \<and> (k_join_type a \<notin> set [None, Some ''max'', Some ''mean'', Some ''cat'']
         \<or> k_join_pos a \<notin> set [None, Some ''early'', Some ''late'']
         \<or> corr_pos a \<notin> set [None, Some ''early'', Some ''late'']) \<longrightarrow>
      YOLOV3T_init a = Inl AssertionError"
    using YOLOV3T_init_membership [of a] by blast
  have p3: "listed_checks_hold a \<longrightarrow>
      YOLOV3T_init a \<noteq> Inl TypeError
      \<and> (YOLOV3T_init a = Inl AssertionError \<longleftrightarrow>
           rnn_pos a = Some ''late'' \<and> k_join_pos a \<noteq> Some ''late'')"
    using YOLOV3T_init_listed [of a] by blast
  from p0 p1 p2 p3 show ?thesis by (intro conjI)
qed

text \<open>
  Claim C5. Constructing \<^verbatim>\<open>YOLOV3T\<close> with \<^verbatim>\<open>block_conv_type='3'\<close> and \<^verbatim>\<open>k\<close>
  left at its default \<^verbatim>\<open>None\<close> does not raise \<^verbatim>\<open>AssertionError\<close>: the first
  check of the block, \<^verbatim>\<open>assert k > 1\<close>, compares \<^verbatim>\<open>None\<close> with 1 and raises
  \<^verbatim>\<open>TypeError\<close>.
\<close>

theorem YOLOV3T_init_default_k_TypeError:
  "YOLOV3T_init \<lparr>k = None, k_join_type = Some ''max'', k_join_pos = Some ''late'',
       block_conv_type = ''3'', rnn_pos = None, corr_pos = None, pos_iou_thresh = 1\<rparr>
     = Inl TypeError"
  by (simp add: YOLOV3T_init_def conv_type_checks_def)

section \<open>The temporal windows\<close>















text \<open>
  \<^verbatim>\<open>sorted\<close> orders the frame ids as strings, which is not the order of the
  frame numbers: \<^verbatim>\<open>'9000'\<close> comes after \<^verbatim>\<open>'11000'\<close>.
\<close>

lemma frame_ids_of_string_order:
  "frame_ids_of ''v'' [(''9000'', ()), (''10000'', ()), (''11000'', ())]
     = [''v,10000'', ''v,11000'', ''v,9000'']"
  by (simp add: frame_ids_of_def)




section \<open>Padding of label arrays\<close>

lemma float64_round_binade:
  assumes "2 powi e \<le> \<bar>x\<bar>" "\<bar>x\<bar> < 2 powi (e + 1)"
  shows "float64_round x = of_int (round_half_even (x * 2 powi (52 - e))) * 2 powi (e - 52)"
proof -
  have pos: "0 < \<bar>x\<bar>" using assms(1) by (smt (verit) zero_less_power_int)
  have a: "2 powr real_of_int e = (2::real) powi e"
    by (rule powr_real_of_int') simp_all
  have b: "2 powr real_of_int (e + 1) = (2::real) powi (e + 1)"
    by (rule powr_real_of_int') simp_all
  have two: "(1::real) < 2" by simp
  have "(\<lfloor>log 2 \<bar>x\<bar>\<rfloor> = e)
      = (2 powr real_of_int e \<le> \<bar>x\<bar> \<and> \<bar>x\<bar> < 2 powr real_of_int (e + 1))"
    by (rule floor_log_eq_powr_iff [OF pos two])
  then have "\<lfloor>log 2 \<bar>x\<bar>\<rfloor> = e"
    unfolding a b using assms by blast
  moreover have "x \<noteq> 0" using pos by simp
  ultimately show ?thesis by (simp add: float64_round_def)
qed

lemma round_half_even_int: "round_half_even (of_int n) = n"
  by (simp add: round_half_even_def)

lemma float64_round_exact:
  assumes "2 powi e \<le> \<bar>x\<bar>" "\<bar>x\<bar> < 2 powi (e + 1)" "x * 2 powi (52 - e) = of_int n"
  shows "float64_round x = x"
proof -
  have "float64_round x = of_int n * 2 powi (e - 52)"
    using float64_round_binade [OF assms(1,2)] assms(3) by (simp add: round_half_even_int)
  also have "\<dots> = x * (2 powi (52 - e) * 2 powi (e - 52))"
    using assms(3) by simp
  also have "(2::real) powi (52 - e) * 2 powi (e - 52) = 2 powi ((52 - e) + (e - 52))"
    by (rule power_int_add [symmetric]) simp
  finally show ?thesis by simp
qed

lemma add_row_6:
  assumes "length xrow = 6" "length row = 6"
  shows "add_row xrow row = Inr (map2 (\<lambda>a v. float64_add a (float64_add v 1)) xrow row)"
  using assms by (simp add: add_row_def)

lemma pad_loop_result:
  assumes "\<forall>row \<in> set labels. length row = 6" "\<forall>r \<in> set x. length r = 6"
    and "enu + length labels \<le> length x"
  shows "\<exists>x'. pad_loop enu labels x = Inr x' \<and> length x' = length x
     \<and> (\<forall>i < length x. x' ! i =
           (if enu \<le> i \<and> i < enu + length labels
            then map2 (\<lambda>a v. float64_add a (float64_add v 1)) (x ! i) (labels ! (i - enu))
            else x ! i))"
  using assms
proof (induction labels arbitrary: enu x)
  case Nil
  then show ?case by auto
next
  case (Cons row labels)
  define r where "r = map2 (\<lambda>a v. float64_add a (float64_add v 1)) (x ! enu) row"
  have enu: "enu < length x" using Cons.prems(3) by simp
  then have "length (x ! enu) = 6" using Cons.prems(2) by simp
  moreover have "length row = 6" using Cons.prems(1) by simp
  ultimately have ar: "add_row (x ! enu) row = Inr r" and lr: "length r = 6"
    by (simp_all add: add_row_6 r_def)
  have p1: "\<forall>row \<in> set labels. length row = 6" using Cons.prems(1) by simp
  have p2: "\<forall>r \<in> set (x[enu := r]). length r = 6"
    using Cons.prems(2) lr by (auto dest: set_update_subset_insert [THEN subsetD])
  have p3: "Suc enu + length labels \<le> length (x[enu := r])" using Cons.prems(3) by simp
  from Cons.IH [OF p1 p2 p3]
  obtain x' where 1: "pad_loop (Suc enu) labels (x[enu := r]) = Inr x'"
    and 2: "length x' = length (x[enu := r])"
    and 3: "\<forall>i < length (x[enu := r]). x' ! i =
           (if Suc enu \<le> i \<and> i < Suc enu + length labels
            then map2 (\<lambda>a v. float64_add a (float64_add v 1)) ((x[enu := r]) ! i)
                   (labels ! (i - Suc enu))
            else (x[enu := r]) ! i)"
    by (elim exE conjE)
  have a: "pad_loop enu (row # labels) x = Inr x'" using enu ar 1 by simp
  have b: "length x' = length x" using 2 by simp
  have c: "\<forall>i < length x. x' ! i =
           (if enu \<le> i \<and> i < enu + length (row # labels)
            then map2 (\<lambda>a v. float64_add a (float64_add v 1)) (x ! i) ((row # labels) ! (i - enu))
            else x ! i)"
  proof (intro allI impI)
    fix i assume i: "i < length x"
    then have xi: "x' ! i =
           (if Suc enu \<le> i \<and> i < Suc enu + length labels
            then map2 (\<lambda>a v. float64_add a (float64_add v 1)) ((x[enu := r]) ! i)
                   (labels ! (i - Suc enu))
            else (x[enu := r]) ! i)"
      using 3 by simp
    consider "i < enu" | "i = enu" | "enu < i" by linarith
    then show "x' ! i =
           (if enu \<le> i \<and> i < enu + length (row # labels)
            then map2 (\<lambda>a v. float64_add a (float64_add v 1)) (x ! i) ((row # labels) ! (i - enu))
            else x ! i)"
    proof cases
      case 1
      then show ?thesis using xi by simp
    next
      case 2
      then show ?thesis using xi enu by (simp add: r_def)
    next
      case 3
      then have "(row # labels) ! (i - enu) = labels ! (i - Suc enu)"
        by (simp add: nth_Cons')
      then show ?thesis using xi 3 by simp
    qed
  qed
  from a b c show ?case by (intro exI [of _ x'] conjI)
qed

lemma map2_replicate_6:
  assumes "length row = 6"
  shows "map2 f (replicate 6 c) row = map (f c) row"
proof -
  from assms have "map2 f (replicate (length row) c) row = map (f c) row"
    by (simp add: map2_map_map [symmetric] zip_replicate1 del: map2_map_map) 
  then show ?thesis using assms by simp
qed

text \<open>
  What \<^verbatim>\<open>_pad_to_dense\<close> computes for a label array of at most \<^verbatim>\<open>maxlen\<close>
  rows of width 6: a dense array of \<^verbatim>\<open>maxlen\<close> rows of width 6, whose first
  \<^verbatim>\<open>len(labels)\<close> rows hold, entry by entry, the \<^verbatim>\<open>float64\<close> result of
  \<open>-1 + (v + 1)\<close> for the input entry \<open>v\<close>. Such a row equals the input row
  when each \<open>v\<close> and \<open>v + 1\<close> are \<^verbatim>\<open>float64\<close> values, so that no addition
  rounds. The remaining rows are all \<open>-1\<close>.
\<close>

lemma pad_to_dense_rows:
  assumes "length labels \<le> maxlen" and "\<forall>row \<in> set labels. length row = 6"
  shows "\<exists>x. pad_to_dense labels maxlen = Inr x
     \<and> length x = maxlen \<and> (\<forall>r \<in> set x. length r = 6)
     \<and> (\<forall>i < length labels.
           x ! i = map (\<lambda>v. float64_add (- 1) (float64_add v 1)) (labels ! i))
     \<and> (\<forall>i < length labels.
           (\<forall>v \<in> set (labels ! i). float64_round v = v \<and> float64_round (v + 1) = v + 1)
           \<longrightarrow> x ! i = labels ! i)
     \<and> (\<forall>i. length labels \<le> i \<and> i < maxlen \<longrightarrow> x ! i = replicate 6 (- 1))"
proof -
  define x0 :: "real list list" where "x0 = replicate maxlen (replicate 6 (- 1))"
  have w0: "\<forall>r \<in> set x0. length r = 6" by (auto simp: x0_def)
  have l0: "0 + length labels \<le> length x0" using assms(1) by (simp add: x0_def)
  from pad_loop_result [OF assms(2) w0 l0]
  obtain x where 1: "pad_loop 0 labels x0 = Inr x"
    and 2: "length x = length x0"
    and 3: "\<forall>i < length x0. x ! i =
           (if 0 \<le> i \<and> i < 0 + length labels
            then map2 (\<lambda>a v. float64_add a (float64_add v 1)) (x0 ! i) (labels ! (i - 0))
            else x0 ! i)"
    by (elim exE conjE)
  have a: "pad_to_dense labels maxlen = Inr x" using 1 by (simp add: pad_to_dense_def x0_def)
  have b: "length x = maxlen" using 2 by (simp add: x0_def)
  have first: "x ! i = map (\<lambda>v. float64_add (- 1) (float64_add v 1)) (labels ! i)"
    if i: "i < length labels" for i
  proof -
    have "i < length x0" using i l0 by simp
    moreover have "length (labels ! i) = 6" using i assms(2) by simp
    ultimately show ?thesis using 3 i by (simp add: x0_def map2_replicate_6)
  qed
  have rest: "x ! i = replicate 6 (- 1)" if i: "length labels \<le> i \<and> i < maxlen" for i
    using 3 i by (simp add: x0_def)
  have c: "\<forall>r \<in> set x. length r = 6"
  proof
    fix r assume "r \<in> set x"
    then obtain i where i: "i < length x" "r = x ! i" by (auto simp: in_set_conv_nth)
    show "length r = 6"
    proof (cases "i < length labels")
      case True
      then have "length (labels ! i) = 6" using assms(2) by simp
      then show ?thesis using first [OF True] i by simp
    next
      case False
      then show ?thesis using rest [of i] i b by simp
    qed
  qed
  have d: "\<forall>i < length labels.
           x ! i = map (\<lambda>v. float64_add (- 1) (float64_add v 1)) (labels ! i)"
    using first by blast
  have e: "\<forall>i < length labels.
           (\<forall>v \<in> set (labels ! i). float64_round v = v \<and> float64_round (v + 1) = v + 1)
           \<longrightarrow> x ! i = labels ! i"
  proof (intro allI impI)
    fix i assume i: "i < length labels"
      and ex: "\<forall>v \<in> set (labels ! i). float64_round v = v \<and> float64_round (v + 1) = v + 1"
    have "map (\<lambda>v. float64_add (- 1) (float64_add v 1)) (labels ! i) = map (\<lambda>v. v) (labels ! i)"
      using ex by (intro map_cong refl) (simp add: float64_add_def)
    then show "x ! i = labels ! i" using first [OF i] by simp
  qed
  have f: "\<forall>i. length labels \<le> i \<and> i < maxlen \<longrightarrow> x ! i = replicate 6 (- 1)"
    using rest by blast
  from a b c d e f show ?thesis by (intro exI [of _ x] conjI)
qed

lemma float64_round_values:
  "float64_round 0 = 0" "float64_round 1 = 1" "float64_round 2 = 2"
  "float64_round (3602879701896397 / 36028797018963968) = 3602879701896397 / 36028797018963968"
  "float64_round (3602879701896397 / 36028797018963968 + 1)
     = 4953959590107546 / 4503599627370496"
  "float64_round (- 1 + 4953959590107546 / 4503599627370496)
     = 450359962737050 / 4503599627370496"
proof -
  show "float64_round 0 = 0" by (simp add: float64_round_def)
  show "float64_round 1 = 1"
    by (rule float64_round_exact [of 0 _ 4503599627370496]) simp_all
  show "float64_round 2 = 2"
    by (rule float64_round_exact [of 1 _ 4503599627370496]) simp_all
  show "float64_round (3602879701896397 / 36028797018963968)
      = 3602879701896397 / 36028797018963968"
    by (rule float64_round_exact [of "- 4" _ 7205759403792794]) (simp_all add: power_int_minus)
  show "float64_round (3602879701896397 / 36028797018963968 + 1)
     = 4953959590107546 / 4503599627370496"
    using float64_round_binade [of 0 "3602879701896397 / 36028797018963968 + 1"]
    by (simp add: power_int_minus round_half_even_def)
  show "float64_round (- 1 + 4953959590107546 / 4503599627370496)
     = 450359962737050 / 4503599627370496"
    using float64_round_exact [of "- 4" "- 1 + 4953959590107546 / 4503599627370496"
        7205759403792800]
    by (simp add: power_int_minus)
qed

lemma pad_to_dense_rows_example:
  "length [[0, 0, 1, 1, 0, 0 :: real]] \<le> 2
   \<and> pad_to_dense [[0, 0, 1, 1, 0, 0]] 2
       = Inr [[0, 0, 1, 1, 0, 0], [- 1, - 1, - 1, - 1, - 1, - 1]]"
proof -
  define labels :: "real list list" where "labels = [[0, 0, 1, 1, 0, 0]]"
  have h1: "length labels \<le> 2" by (simp add: labels_def)
  have h2: "\<forall>row \<in> set labels. length row = 6" by (simp add: labels_def)
  from pad_to_dense_rows [OF h1 h2]
  obtain x where 1: "pad_to_dense labels 2 = Inr x"
    and 2: "length x = 2"
    and 3: "\<forall>i < length labels.
           (\<forall>v \<in> set (labels ! i). float64_round v = v \<and> float64_round (v + 1) = v + 1)
           \<longrightarrow> x ! i = labels ! i"
    and 4: "\<forall>i. length labels \<le> i \<and> i < 2 \<longrightarrow> x ! i = replicate 6 (- 1)"
    by (elim exE conjE)
  have "\<forall>v \<in> set (labels ! 0). float64_round v = v \<and> float64_round (v + 1) = v + 1"
    by (simp add: labels_def float64_round_values)
  then have x0: "x ! 0 = [0, 0, 1, 1, 0, 0]" using 3 by (simp add: labels_def)
  have x1: "x ! 1 = [- 1, - 1, - 1, - 1, - 1, - 1]"
    using 4 by (simp add: labels_def numeral_eq_Suc)
  have "x = [x ! 0, x ! 1]"
    using 2 by (cases x; cases "tl x") (auto simp: numeral_eq_Suc)
  then have "x = [[0, 0, 1, 1, 0, 0], [- 1, - 1, - 1, - 1, - 1, - 1]]"
    using x0 x1 by simp
  with 1 h1 show ?thesis by (simp add: labels_def)
qed

text \<open>
  Claim C9. The rows that \<^verbatim>\<open>_pad_to_dense\<close> stores are not always equal to the
  input rows. For the row \<^verbatim>\<open>[0.1, 0, 1, 1, 0, 0]\<close>, where \<^verbatim>\<open>0.1\<close> is the
  \<^verbatim>\<open>float64\<close> 3602879701896397 / 36028797018963968, the sum \<^verbatim>\<open>row + 1\<close> rounds
  to 4953959590107546 / 4503599627370496 and \<^verbatim>\<open>x[enu, :] += row + 1\<close> on the
  row of \<open>-1\<close> leaves 450359962737050 / 4503599627370496 (printed
  \<^verbatim>\<open>0.10000000000000009\<close>) in the first column: the stored entry differs from
  the input entry, which is itself a \<^verbatim>\<open>float64\<close>.
\<close>

theorem pad_to_dense_rounding:
  "pad_to_dense [[3602879701896397 / 36028797018963968, 0, 1, 1, 0, 0]] 2
     = Inr [[450359962737050 / 4503599627370496, 0, 1, 1, 0, 0], [- 1, - 1, - 1, - 1, - 1, - 1]]
   \<and> float64_round (3602879701896397 / 36028797018963968)
     = 3602879701896397 / 36028797018963968
   \<and> (450359962737050 / 4503599627370496 :: real) \<noteq> 3602879701896397 / 36028797018963968"
proof -
  define d :: real where "d = 3602879701896397 / 36028797018963968"
  define d1 :: real where "d1 = 4953959590107546 / 4503599627370496"
  define d2 :: real where "d2 = 450359962737050 / 4503599627370496"
  have "float64_add d 1 = d1"
    unfolding float64_add_def d_def d1_def by (rule float64_round_values(5))
  moreover have "float64_add (- 1) d1 = d2"
    unfolding float64_add_def d1_def d2_def by (rule float64_round_values(6))
  ultimately have e: "float64_add (- 1) (float64_add d 1) = d2" by simp
  have z: "float64_add (- 1) (float64_add 0 1) = 0"
    by (simp add: float64_add_def float64_round_values)
  have o: "float64_add (- 1) (float64_add 1 1) = 1"
    by (simp add: float64_add_def float64_round_values)
  have "pad_to_dense [[d, 0, 1, 1, 0, 0]] 2
     = Inr [[float64_add (- 1) (float64_add d 1), float64_add (- 1) (float64_add 0 1),
             float64_add (- 1) (float64_add 1 1), float64_add (- 1) (float64_add 1 1),
             float64_add (- 1) (float64_add 0 1), float64_add (- 1) (float64_add 0 1)],
            [- 1, - 1, - 1, - 1, - 1, - 1]]"
    by (simp add: pad_to_dense_def add_row_def numeral_eq_Suc)
  then have 1: "pad_to_dense [[d, 0, 1, 1, 0, 0]] 2
     = Inr [[d2, 0, 1, 1, 0, 0], [- 1, - 1, - 1, - 1, - 1, - 1]]"
    unfolding e z o .
  have 2: "float64_round d = d" unfolding d_def by (rule float64_round_values(4))
  have 3: "d2 \<noteq> d" unfolding d_def d2_def by simp
  from 1 2 3 show ?thesis unfolding d_def d2_def by (intro conjI)
qed

section \<open>The detections that \<^verbatim>\<open>detect\<close> records\<close>

lemma zip_maps:
  "zip (map f xs) (zip (map g xs) (map h xs)) = map (\<lambda>x. (f x, g x, h x)) xs"
  by (induction xs) simp_all

lemma astype_int_nonneg: "0 \<le> v \<Longrightarrow> 0 \<le> astype_int v"
  by (simp add: astype_int_def)

lemma boxes_inv_empty: "boxes_inv P Map.empty"
  by (simp add: boxes_inv_def)

lemma boxes_inv_append:
  assumes "boxes_inv P boxes" "P file d"
  shows "boxes_inv P (boxes(file \<mapsto> (case boxes file of Some ds \<Rightarrow> ds @ [d] | None \<Rightarrow> [d])))"
  using assms unfolding boxes_inv_def by (auto split: option.splits)

lemma record_loop_inv:
  assumes "boxes_inv P boxes"
    and "\<forall>(i, b, s) \<in> set items. s > thr \<longrightarrow> P file ([PyInt i, PyFloat s] @ map PyFloat b)"
  shows "boxes_inv P (record_loop thr file items boxes)"
  using assms
proof (induction items arbitrary: boxes)
  case Nil
  then show ?case by simp
next
  case (Cons item items)
  obtain i b s where item: "item = (i, b, s)" by (cases item)
  have rest: "\<forall>(i, b, s) \<in> set items. s > thr \<longrightarrow> P file ([PyInt i, PyFloat s] @ map PyFloat b)"
    using Cons.prems(2) by simp
  define B where "B = boxes(file \<mapsto> (case boxes file of
        Some ds \<Rightarrow> ds @ [[PyInt i, PyFloat s] @ map PyFloat b]
      | None \<Rightarrow> [[PyInt i, PyFloat s] @ map PyFloat b]))"
  show ?case
  proof (cases "s > thr")
    case True
    then have "P file ([PyInt i, PyFloat s] @ map PyFloat b)"
      using Cons.prems(2) by (simp add: item)
    from boxes_inv_append [OF Cons.prems(1) this]
    have inv: "boxes_inv P B" unfolding B_def .
    have eq: "record_loop thr file (item # items) boxes = record_loop thr file items B"
      using True by (simp add: item B_def split: option.splits)
    show ?thesis unfolding eq by (rule Cons.IH [OF inv rest])
  next
    case False
    then show ?thesis using Cons.IH [OF Cons.prems(1) rest] by (simp add: item)
  qed
qed

lemma detect_sample_inv:
  assumes "detect_sample thr sample_path shape out boxes = Inr boxes'"
    and "boxes_inv P boxes"
    and "\<forall>j < length (det_ids out).
           j < length (det_bboxes out) \<and> det_ids out ! j \<ge> 0 \<and> det_scores out ! j > thr \<longrightarrow>
           P (sample_path (sidx out))
             ([PyInt (astype_int (det_ids out ! j)), PyFloat (det_scores out ! j)]
              @ map (\<lambda>v. PyFloat (clip 0 shape v / shape)) (det_bboxes out ! j))"
  shows "boxes_inv P boxes'"
proof -
  define vp where "vp = valid_pred (det_ids out)"
  define items where "items = map (\<lambda>j. (astype_int (det_ids out ! j),
      map (\<lambda>v. clip 0 shape v / shape) (det_bboxes out ! j), det_scores out ! j)) vp"
  have noerr: "\<not> (\<exists>j \<in> set vp. length (det_bboxes out) \<le> j \<or> length (det_scores out) \<le> j)"
    using assms(1) unfolding detect_sample_def Let_def vp_def by (auto split: if_splits)
  then have res: "boxes' = record_loop thr (sample_path (sidx out)) items boxes"
    using assms(1) unfolding detect_sample_def Let_def vp_def [symmetric] items_def
    by (simp add: zip_maps)
  have "\<forall>(i, b, s) \<in> set items. s > thr \<longrightarrow>
      P (sample_path (sidx out)) ([PyInt i, PyFloat s] @ map PyFloat b)"
  proof (clarify)
    fix i b s assume m: "(i, b, s) \<in> set items" and s: "thr < s"
    then obtain j where j: "j \<in> set vp" and i: "i = astype_int (det_ids out ! j)"
      and b: "b = map (\<lambda>v. clip 0 shape v / shape) (det_bboxes out ! j)"
      and sj: "s = det_scores out ! j"
      unfolding items_def by auto
    have jl: "j < length (det_ids out)" and jv: "det_ids out ! j \<ge> 0"
      using j unfolding vp_def valid_pred_def by auto
    have jb: "j < length (det_bboxes out)" using noerr j by auto
    have "P (sample_path (sidx out))
             ([PyInt (astype_int (det_ids out ! j)), PyFloat (det_scores out ! j)]
              @ map (\<lambda>v. PyFloat (clip 0 shape v / shape)) (det_bboxes out ! j))"
      using assms(3) jl jb jv s sj by simp
    then show "P (sample_path (sidx out)) ([PyInt i, PyFloat s] @ map PyFloat b)"
      by (simp add: i b sj comp_def)
  qed
  from record_loop_inv [OF assms(2) this] show ?thesis unfolding res .
qed

lemma samples_loop_inv:
  assumes "samples_loop thr sample_path shape outs boxes = Inr boxes'"
    and "boxes_inv P boxes"
    and "\<forall>out \<in> set outs. \<forall>j < length (det_ids out).
           j < length (det_bboxes out) \<and> det_ids out ! j \<ge> 0 \<and> det_scores out ! j > thr \<longrightarrow>
           P (sample_path (sidx out))
             ([PyInt (astype_int (det_ids out ! j)), PyFloat (det_scores out ! j)]
              @ map (\<lambda>v. PyFloat (clip 0 shape v / shape)) (det_bboxes out ! j))"
  shows "boxes_inv P boxes'"
  using assms
proof (induction outs arbitrary: boxes)
  case Nil
  then show ?case by simp
next
  case (Cons out outs)
  from Cons.prems(1) obtain boxes1 where 1: "detect_sample thr sample_path shape out boxes = Inr boxes1"
    and 2: "samples_loop thr sample_path shape outs boxes1 = Inr boxes'"
    by (auto split: sum.splits)
  have "boxes_inv P boxes1"
    using detect_sample_inv [OF 1 Cons.prems(2)] Cons.prems(3) by simp
  then show ?case using Cons.IH [OF 2] Cons.prems(3) by simp
qed

lemma batches_loop_inv:
  assumes "batches_loop thr sample_path max_do bs c boxes = Inr boxes'"
    and "boxes_inv (stems_from sample_path loader thr) boxes"
    and "set bs \<subseteq> set loader"
  shows "boxes_inv (stems_from sample_path loader thr) boxes'"
  using assms
proof (induction bs arbitrary: c boxes)
  case Nil
  then show ?case by simp
next
  case (Cons b bs)
  from Cons.prems(1) obtain boxes1
    where 1: "samples_loop thr sample_path (shape2 b) (outputs b) boxes = Inr boxes1"
    by (auto split: sum.splits)
  have b: "b \<in> set loader" using Cons.prems(3) by simp
  have "\<forall>out \<in> set (outputs b). \<forall>j < length (det_ids out).
           j < length (det_bboxes out) \<and> det_ids out ! j \<ge> 0 \<and> det_scores out ! j > thr \<longrightarrow>
           stems_from sample_path loader thr (sample_path (sidx out))
             ([PyInt (astype_int (det_ids out ! j)), PyFloat (det_scores out ! j)]
              @ map (\<lambda>v. PyFloat (clip 0 (shape2 b) v / shape2 b)) (det_bboxes out ! j))"
    unfolding stems_from_def using b by blast
  from samples_loop_inv [OF 1 Cons.prems(2) this]
  have inv1: "boxes_inv (stems_from sample_path loader thr) boxes1" .
  show ?case
  proof (cases "c + shape0 b > max_do")
    case True
    then have "boxes' = boxes1" using Cons.prems(1) 1 by simp
    then show ?thesis using inv1 by simp
  next
    case False
    then have "batches_loop thr sample_path max_do bs (c + shape0 b) boxes1 = Inr boxes'"
      using Cons.prems(1) 1 by simp
    from Cons.IH [OF this inv1] Cons.prems(3) show ?thesis by simp
  qed
qed

lemma stems_from_shape:
  assumes "stems_from sample_path loader thr file d"
  shows "\<exists>c s box. d = PyInt c # PyFloat s # map PyFloat box \<and> 0 \<le> c \<and> thr < s"
proof -
  from assms obtain b :: batch and out :: net_output and j
    where "det_ids out ! j \<ge> 0" "det_scores out ! j > thr"
    and d: "d = [PyInt (astype_int (det_ids out ! j)), PyFloat (det_scores out ! j)]
               @ map (\<lambda>v. PyFloat (clip 0 (shape2 b) v / shape2 b)) (det_bboxes out ! j)"
    unfolding stems_from_def by blast
  then have "d = PyInt (astype_int (det_ids out ! j)) # PyFloat (det_scores out ! j)
       # map PyFloat (map (\<lambda>v. clip 0 (shape2 b) v / shape2 b) (det_bboxes out ! j))
     \<and> 0 \<le> astype_int (det_ids out ! j) \<and> thr < det_scores out ! j"
    by (simp add: astype_int_nonneg comp_def)
  then show ?thesis by blast
qed

lemma stems_from_length:
  assumes "stems_from sample_path loader thr file d"
    and "\<forall>b \<in> set loader. \<forall>out \<in> set (outputs b). \<forall>row \<in> set (det_bboxes out). length row = 4"
  shows "length d = 6"
proof -
  from assms(1) obtain b :: batch and out :: net_output and j
    where "b \<in> set loader" "out \<in> set (outputs b)"
    "j < length (det_bboxes out)"
    and d: "d = [PyInt (astype_int (det_ids out ! j)), PyFloat (det_scores out ! j)]
               @ map (\<lambda>v. PyFloat (clip 0 (shape2 b) v / shape2 b)) (det_bboxes out ! j)"
    unfolding stems_from_def by blast
  then have "length (det_bboxes out ! j) = 4" using assms(2) by simp
  then show ?thesis by (simp add: d)
qed

text \<open>
  Claim C6. In the dict that \<^verbatim>\<open>detect\<close> returns, a file path is a key only
  with at least one detection, and every detection recorded for it stems from
  a box of the network's output for a sample with that file path: it starts
  with the class id, an integer that is not negative, and the score, which is
  strictly greater than \<^verbatim>\<open>detection_threshold\<close>, followed by the box
  coordinates clipped to the input data shape and divided by it. With four
  coordinates for each box of the network's output a detection has six
  entries.
\<close>

theorem detect_records_valid_detections:
  assumes "detect sample_path len_dataset loader detection_threshold max_do = Inr boxes"
    and "boxes file = Some ds"
  shows "ds \<noteq> []
     \<and> (\<forall>d \<in> set ds.
          stems_from sample_path loader detection_threshold file d
          \<and> (\<exists>c s box. d = PyInt c # PyFloat s # map PyFloat box
                \<and> 0 \<le> c \<and> detection_threshold < s)
          \<and> ((\<forall>b \<in> set loader. \<forall>out \<in> set (outputs b). \<forall>row \<in> set (det_bboxes out).
                 length row = 4) \<longrightarrow> length d = 6))"
proof -
  have "boxes_inv (stems_from sample_path loader detection_threshold) boxes"
    using assms(1) unfolding detect_def Let_def
    by (rule batches_loop_inv) (simp_all add: boxes_inv_empty)
  then have ne: "ds \<noteq> []"
    and st: "\<forall>d \<in> set ds. stems_from sample_path loader detection_threshold file d"
    using assms(2) unfolding boxes_inv_def by blast+
  show ?thesis
  proof (intro conjI ballI impI)
    show "ds \<noteq> []" by (rule ne)
  next
    fix d assume "d \<in> set ds"
    then show "stems_from sample_path loader detection_threshold file d" using st by blast
  next
    fix d assume "d \<in> set ds"
    then have "stems_from sample_path loader detection_threshold file d" using st by blast
    then show "\<exists>c s box. d = PyInt c # PyFloat s # map PyFloat box
                \<and> 0 \<le> c \<and> detection_threshold < s"
      by (rule stems_from_shape)
  next
    fix d assume "d \<in> set ds"
      and w: "\<forall>b \<in> set loader. \<forall>out \<in> set (outputs b). \<forall>row \<in> set (det_bboxes out).
                 length row = 4"
    then have "stems_from sample_path loader detection_threshold file d" using st by blast
    then show "length d = 6" using w by (rule stems_from_length)
  qed
qed
theorem detect_records_valid_detections_witness:
  "detect (\<lambda>i. if i = 0 then ''a.jpg'' else ''b.jpg'') 1
      [\<lparr>shape0 = 1, shape2 = 416, outputs =
          [\<lparr>det_ids = [0, - 1], det_scores = [9 / 10, - 1],
            det_bboxes = [[10, 20, 500, 208], [- 1, - 1, - 1, - 1]], sidx = 0\<rparr>]\<rparr>]
      (1 / 2) (- 1)
     = Inr [''a.jpg'' \<mapsto>
         [[PyInt 0, PyFloat (9 / 10), PyFloat (5 / 208), PyFloat (5 / 104), PyFloat 1,
           PyFloat (1 / 2)]]]
   \<and> stems_from (\<lambda>i. if i = 0 then ''a.jpg'' else ''b.jpg'')
        [\<lparr>shape0 = 1, shape2 = 416, outputs =
          [\<lparr>det_ids = [0, - 1], det_scores = [9 / 10, - 1],
            det_bboxes = [[10, 20, 500, 208], [- 1, - 1, - 1, - 1]], sidx = 0\<rparr>]\<rparr>]
        (1 / 2) ''a.jpg''
        [PyInt 0, PyFloat (9 / 10), PyFloat (5 / 208), PyFloat (5 / 104), PyFloat 1,
         PyFloat (1 / 2)]
   \<and> length [PyInt 0, PyFloat (9 / 10), PyFloat (5 / 208), PyFloat (5 / 104), PyFloat 1,
         PyFloat (1 / 2)] = 6"
proof -
  define sp :: "int \<Rightarrow> string" where "sp = (\<lambda>i. if i = 0 then ''a.jpg'' else ''b.jpg'')"
  define L where "L = [\<lparr>shape0 = 1, shape2 = 416, outputs =
          [\<lparr>det_ids = [0, - 1], det_scores = [9 / 10, - 1],
            det_bboxes = [[10, 20, 500, 208], [- 1, - 1, - 1, - 1]], sidx = 0\<rparr>]\<rparr>]"
  define D where "D = [PyInt 0, PyFloat (9 / 10), PyFloat (5 / 208), PyFloat (5 / 104), PyFloat 1,
         PyFloat (1 / 2)]"
  have run: "detect sp 1 L (1 / 2) (- 1) = Inr [''a.jpg'' \<mapsto> [D]]"
    by (simp add: detect_def detect_sample_def valid_pred_def clip_def astype_int_def
          sp_def L_def D_def upt_conv_Cons)
  have key: "[''a.jpg'' \<mapsto> [D]] ''a.jpg'' = Some [D]" by simp
  have width: "\<forall>b \<in> set L. \<forall>out \<in> set (outputs b). \<forall>row \<in> set (det_bboxes out).
      length row = 4"
    by (simp add: L_def)
  from detect_records_valid_detections [OF run key] width
  have "stems_from sp L (1 / 2) ''a.jpg'' D \<and> length D = 6"
    by simp
  with run show ?thesis unfolding sp_def L_def D_def by (intro conjI) simp_all
qed

section \<open>Hierarchical class masking\<close>

lemma fold_max_in: "fold max ys (y::real) \<in> set (y # ys)"
proof (induction ys arbitrary: y)
  case Nil
  then show ?case by simp
next
  case (Cons a ys)
  have m: "max a y = a \<or> max a y = y" by (simp add: max_def)
  have "fold max ys (max a y) \<in> set (max a y # ys)" by (rule Cons.IH)
  then have "fold max (a # ys) y \<in> insert (max a y) (set ys)" by simp
  then show ?case using m by auto
qed

lemma np_max_in: "xs \<noteq> [] \<Longrightarrow> np_max xs \<in> set xs"
  using fold_max_in [of "tl xs" "hd xs"] by (cases xs) (simp_all add: np_max_def)

lemma np_argmax_less:
  assumes "xs \<noteq> []"
  shows "np_argmax xs < length xs"
proof (rule ccontr)
  assume "\<not> np_argmax xs < length xs"
  then have "length (takeWhile (\<lambda>x. x \<noteq> np_max xs) xs) = length xs"
    using length_takeWhile_le [of "\<lambda>x. x \<noteq> np_max xs" xs] by (simp add: np_argmax_def)
  then have "takeWhile (\<lambda>x. x \<noteq> np_max xs) xs = xs"
    by (metis append_eq_conv_conj takeWhile_dropWhile_id take_all_iff order_refl)
  then have "\<forall>x \<in> set xs. x \<noteq> np_max xs" by (simp add: takeWhile_eq_all_conv)
  then show False using np_max_in [OF assms] by blast
qed

lemma np_broadcast_same:
  assumes "length xs = n \<or> length xs = 1" and "length ys = n \<or> length ys = 1" and "0 < n"
  shows "\<exists>zs. np_broadcast f xs ys = Inr zs \<and> (length zs = n \<or> length zs = 1)
           \<and> (length xs = n \<or> length ys = n \<longrightarrow> length zs = n)"
proof (cases "length xs = length ys")
  case True
  then have "np_broadcast f xs ys = Inr (map2 f xs ys)" by (simp add: np_broadcast_def)
  moreover have "length (map2 f xs ys) = length xs" using True by simp
  ultimately show ?thesis using assms True by metis
next
  case False
  show ?thesis
  proof (cases "length xs = 1")
    case True
    then have "np_broadcast f xs ys = Inr (map (f (hd xs)) ys)"
      using False by (simp add: np_broadcast_def)
    moreover have "length (map (f (hd xs)) ys) = length ys" by simp
    ultimately show ?thesis using assms True False by metis
  next
    case n1: False
    then have y1: "length ys = 1" and xn: "length xs = n" using assms False by auto
    then have "np_broadcast f xs ys = Inr (map (\<lambda>x. f x (hd ys)) xs)"
      using False n1 by (simp add: np_broadcast_def)
    moreover have "length (map (\<lambda>x. f x (hd ys)) xs) = length xs" by simp
    ultimately show ?thesis using xn by metis
  qed
qed

lemma masked_scores_defined:
  assumes lv: "length levels = n \<or> length levels = 1"
    and lf: "length leafs = n \<or> length leafs = 1"
    and s: "length s = n" and n: "0 < n"
  shows "\<exists>ms. masked_scores levels leafs s L = Inr ms \<and> length ms = n"
proof -
  define ind where "ind = map (\<lambda>l. if l < L then 1 else (0::int)) levels"
  define lm where "lm = map (\<lambda>l. if l = L then 1 else (0::int)) levels"
  have li: "length ind = n \<or> length ind = 1" using lv by (simp add: ind_def)
  have ll: "length lm = n \<or> length lm = 1" using lv by (simp add: lm_def)
  from np_broadcast_same [OF li lf n, of "\<lambda>w f. w * f"]
  obtain leaf_mask where 1: "np_broadcast (\<lambda>w f. w * f) ind leafs = Inr leaf_mask"
    and l1: "length leaf_mask = n \<or> length leaf_mask = 1" by blast
  from np_broadcast_same [OF l1 ll n, of max]
  obtain msk where 2: "np_broadcast max leaf_mask lm = Inr msk"
    and l2: "length msk = n \<or> length msk = 1" by blast
  have sn: "length s = n \<or> length s = 1" using s by simp
  from np_broadcast_same [OF l2 sn n, of "\<lambda>m s. of_int m * s"]
  obtain ms where 3: "np_broadcast (\<lambda>m s. real_of_int m * s) msk s = Inr ms"
    and l3: "length ms = n" using s by blast
  have "masked_scores levels leafs s L = Inr ms"
    unfolding masked_scores_def ind_def [symmetric] lm_def [symmetric] by (simp add: 1 2 3)
  with l3 show ?thesis by blast
qed

lemma py_range_down:
  "py_range m 0 (- 1) = Inr (map (\<lambda>n. m - int n) [0..<nat m])"
  by (simp add: py_range_def)

lemma levels_down_set: "L \<in> set (map (\<lambda>n. m - int n) [0..<nat m]) \<longleftrightarrow> 1 \<le> L \<and> L \<le> m"
proof
  assume "L \<in> set (map (\<lambda>n. m - int n) [0..<nat m])"
  then show "1 \<le> L \<and> L \<le> m" by auto
next
  assume a: "1 \<le> L \<and> L \<le> m"
  then have "nat (m - L) < nat m" "L = m - int (nat (m - L))" by auto
  then show "L \<in> set (map (\<lambda>n. m - int n) [0..<nat m])"
    by (metis (mono_tags, lifting) atLeastLessThan_iff image_eqI set_map set_upt zero_le)
qed

lemma levels_down_sorted: "sorted_wrt (\<lambda>a b. a > b) (map (\<lambda>n. m - int n) [0..<nat m])"
proof -
  have "sorted_wrt (\<lambda>a b. a < b) [0..<nat m]" by simp
  then have "sorted_wrt (\<lambda>a b. m - int a > m - int b) [0..<nat m]"
    by (rule sorted_wrt_mono_rel [rotated]) simp
  then show ?thesis by (simp add: sorted_wrt_map)
qed

lemma level_loop_cases:
  assumes sc: "\<And>L. masked_scores lv lf s L = Inr (sc L)"
    and len: "\<And>L. length (sc L) = length s" and ne: "s \<noteq> []"
  shows "(level_loop lv lf s ls = Inr None
      \<and> (\<forall>L \<in> set ls. \<not> np_max (sc L) > thresh))
   \<or> (\<exists>pre L post. ls = pre @ L # post
        \<and> (\<forall>L' \<in> set pre. \<not> np_max (sc L') > thresh)
        \<and> np_max (sc L) > thresh
        \<and> level_loop lv lf s ls = Inr (Some (np_argmax (sc L))))"
proof (induction ls)
  case Nil
  then show ?case by simp
next
  case (Cons a ls)
  have nea: "sc a \<noteq> []" using len [of a] ne by auto
  have arg: "np_argmax (sc a) < length s"
    using np_argmax_less [OF nea] len [of a] by simp
  show ?case
  proof (cases "np_max (sc a) > thresh")
    case True
    then have "a # ls = [] @ a # ls
        \<and> (\<forall>L' \<in> set []. \<not> np_max (sc L') > thresh)
        \<and> np_max (sc a) > thresh
        \<and> level_loop lv lf s (a # ls) = Inr (Some (np_argmax (sc a)))"
      using nea arg by (simp add: sc)
    then show ?thesis by blast
  next
    case False
    then have step: "level_loop lv lf s (a # ls) = level_loop lv lf s ls"
      using nea by (simp add: sc)
    from Cons.IH show ?thesis
    proof
      assume "level_loop lv lf s ls = Inr None
        \<and> (\<forall>L \<in> set ls. \<not> np_max (sc L) > thresh)"
      then show ?thesis using False step by simp
    next
      assume "\<exists>pre L post. ls = pre @ L # post
        \<and> (\<forall>L' \<in> set pre. \<not> np_max (sc L') > thresh)
        \<and> np_max (sc L) > thresh
        \<and> level_loop lv lf s ls = Inr (Some (np_argmax (sc L)))"
      then obtain pre L post where p: "ls = pre @ L # post"
        "\<forall>L' \<in> set pre. \<not> np_max (sc L') > thresh"
        "np_max (sc L) > thresh"
        "level_loop lv lf s ls = Inr (Some (np_argmax (sc L)))"
        by blast
      then have "a # ls = (a # pre) @ L # post
        \<and> (\<forall>L' \<in> set (a # pre). \<not> np_max (sc L') > thresh)
        \<and> np_max (sc L) > thresh
        \<and> level_loop lv lf s (a # ls) = Inr (Some (np_argmax (sc L)))"
        using False step by simp
      then show ?thesis by blast
    qed
  qed
qed

lemma mask_zero_row:
  "length s = n \<Longrightarrow> map2 (\<lambda>m s. m * s) (replicate n (0::real)) s = replicate n 0"
  by (induction s arbitrary: n) auto

lemma fold_max_Max: "levels \<noteq> [] \<Longrightarrow> fold max (tl levels) (hd levels) = Max (set (levels :: int list))"
  by (cases levels) (simp_all add: Max.set_eq_fold [symmetric])

lemma hier_mask_box_masked:
  assumes lv: "length levels = length s \<or> length levels = 1"
    and lf: "length leafs = length s \<or> length leafs = 1"
    and nes: "s \<noteq> []"
  shows "\<exists>ms. hier_mask_box levels leafs s = Inr ms \<and> length ms = length s
           \<and> hier_masked levels leafs s ms
           \<and> (\<forall>L. \<exists>sc. masked_scores levels leafs s L = Inr sc)"
proof -
  define m where "m = Max (set levels)"
  define lvs where "lvs = map (\<lambda>n. m - int n) [0..<nat m]"
  define n where "n = length s"
  define sc where "sc = (\<lambda>L. projr (masked_scores levels leafs s L))"
  have npos: "0 < length s" using nes by simp
  have sc: "masked_scores levels leafs s L = Inr (sc L)" for L
    using masked_scores_defined [OF lv lf refl npos, of L] by (auto simp: sc_def)
  have len: "length (sc L) = length s" for L
    using masked_scores_defined [OF lv lf refl npos, of L] by (auto simp: sc_def)
  have ne: "levels \<noteq> []" using lv nes by auto
  define ok where "ok = (\<lambda>L. np_max (sc L) > thresh)"
  have ok_iff: "ok L = (np_max (sc L) > thresh)" for L
    by (simp add: ok_def)
  define found where "found = level_loop levels leafs s lvs"
  define mx where "mx = (case projr found of
                     None \<Rightarrow> replicate n (0::real)
                   | Some ind \<Rightarrow> (replicate n 0)[ind := 1])"
  define ms where "ms = map2 (\<lambda>m s. m * s) mx s"
  have rng: "py_range (fold max (tl levels) (hd levels)) 0 (- 1) = Inr lvs"
    unfolding fold_max_Max [OF ne] m_def [symmetric] lvs_def by (rule py_range_down)
  have isr: "\<exists>r. found = Inr r"
    using level_loop_cases [of levels leafs s sc lvs, OF sc len nes]
    unfolding found_def by auto
  from isr obtain r where r: "level_loop levels leafs s lvs = Inr r"
    unfolding found_def by blast
  have run: "hier_mask_box levels leafs s = Inr ms"
    unfolding hier_mask_box_def Let_def rng ms_def mx_def n_def found_def
    using ne by (simp add: r)
  have lmx: "length mx = n" by (simp add: mx_def split: option.splits)
  have lms: "length ms = length s" by (simp add: ms_def lmx n_def)
  have inls: "L \<in> set lvs \<longleftrightarrow> 1 \<le> L \<and> L \<le> m" for L
    unfolding lvs_def by (rule levels_down_set)
  have spec2: "(\<forall>L ms'. 1 \<le> L \<and> L \<le> m \<and> masked_scores levels leafs s L = Inr ms'
            \<and> np_max ms' > thresh
            \<and> (\<forall>L' ms''. L < L' \<and> L' \<le> m \<and> masked_scores levels leafs s L' = Inr ms'' \<longrightarrow>
                  \<not> np_max ms'' > thresh) \<longrightarrow>
            ms = map2 (\<lambda>m s. m * s) ((replicate (length s) 0)[np_argmax ms' := 1]) s)
       \<longleftrightarrow> (\<forall>L. 1 \<le> L \<and> L \<le> m \<and> ok L \<and> (\<forall>L'. L < L' \<and> L' \<le> m \<longrightarrow> \<not> ok L') \<longrightarrow>
            ms = map2 (\<lambda>m s. m * s) ((replicate (length s) 0)[np_argmax (sc L) := 1]) s)"
    unfolding ok_iff by (simp add: sc)
  have spec3: "((\<forall>L ms'. 1 \<le> L \<and> L \<le> m \<and> masked_scores levels leafs s L = Inr ms' \<longrightarrow>
              \<not> np_max ms' > thresh) \<longrightarrow> ms = replicate (length s) 0)
       \<longleftrightarrow> ((\<forall>L. 1 \<le> L \<and> L \<le> m \<longrightarrow> \<not> ok L) \<longrightarrow> ms = replicate (length s) 0)"
    unfolding ok_iff by (simp add: sc)
  from level_loop_cases [of levels leafs s sc lvs, OF sc len nes]
  have "hier_masked levels leafs s ms"
  proof
    assume a: "level_loop levels leafs s lvs = Inr None
      \<and> (\<forall>L \<in> set lvs. \<not> np_max (sc L) > thresh)"
    then have mx0: "mx = replicate n 0" by (simp add: mx_def found_def)
    then have ms0: "ms = replicate n 0" by (simp add: ms_def mask_zero_row n_def)
    have none: "\<not> ok L" if "1 \<le> L \<and> L \<le> m" for L
      using a that inls unfolding ok_iff by blast
    have 1: "\<exists>mask. length mask = length s
          \<and> (\<forall>i < length s. mask ! i = 0 \<or> mask ! i = 1)
          \<and> (\<forall>i j. i < length s \<and> j < length s \<and> mask ! i = 1 \<and> mask ! j = 1 \<longrightarrow> i = j)
          \<and> ms = map2 (\<lambda>m s. m * s) mask s"
      by (rule exI [of _ mx]) (auto simp: mx0 ms_def n_def)
    have 2: "\<forall>L. 1 \<le> L \<and> L \<le> m \<and> ok L \<and> (\<forall>L'. L < L' \<and> L' \<le> m \<longrightarrow> \<not> ok L') \<longrightarrow>
            ms = map2 (\<lambda>m s. m * s) ((replicate (length s) 0)[np_argmax (sc L) := 1]) s"
      using none by blast
    have 3: "(\<forall>L. 1 \<le> L \<and> L \<le> m \<longrightarrow> \<not> ok L) \<longrightarrow> ms = replicate (length s) 0"
      using ms0 by (simp add: n_def)
    show ?thesis
      unfolding hier_masked_def m_def [symmetric] spec2 spec3
      by (intro conjI 1 2 3)
  next
    assume "\<exists>pre L post. lvs = pre @ L # post
        \<and> (\<forall>L' \<in> set pre. \<not> np_max (sc L') > thresh)
        \<and> np_max (sc L) > thresh
        \<and> level_loop levels leafs s lvs = Inr (Some (np_argmax (sc L)))"
    then obtain pre L post where split: "lvs = pre @ L # post"
      and pre: "\<forall>L' \<in> set pre. \<not> ok L'"
      and okL: "ok L"
      and res: "level_loop levels leafs s lvs = Inr (Some (np_argmax (sc L)))"
      unfolding ok_iff by blast
    define ind where "ind = np_argmax (sc L)"
    have "sc L \<noteq> []" using len [of L] nes by auto
    then have ind: "ind < n"
      using np_argmax_less [of "sc L"] len [of L] by (simp add: ind_def n_def)
    have mx1: "mx = (replicate n 0)[ind := 1]" by (simp add: mx_def found_def res ind_def)
    have Lin: "1 \<le> L \<and> L \<le> m" using inls [of L] split by simp
    have srt: "sorted_wrt (\<lambda>a b. a > b) (pre @ L # post)"
      using levels_down_sorted [of m] unfolding lvs_def [symmetric] split .
    have above: "L' \<in> set pre" if "L < L'" "L' \<le> m" for L'
    proof -
      have "L' \<in> set lvs" using inls [of L'] that Lin by simp
      then have "L' \<in> set pre \<or> L' = L \<or> L' \<in> set post" by (auto simp: split)
      moreover have "\<forall>x \<in> set post. L > x" using srt by (simp add: sorted_wrt_append)
      ultimately show ?thesis using that by auto
    qed
    have uniq: "L2 = L" if "1 \<le> L2 \<and> L2 \<le> m" "ok L2"
      "\<forall>L'. L2 < L' \<and> L' \<le> m \<longrightarrow> \<not> ok L'" for L2
    proof (rule ccontr)
      assume "L2 \<noteq> L"
      then consider "L < L2" | "L2 < L" by linarith
      then show False
      proof cases
        case 1
        then have "L2 \<in> set pre" using above that(1) by simp
        then show False using pre that(2) by blast
      next
        case 2
        then show False using that(3) Lin okL by blast
      qed
    qed
    have 1: "\<exists>mask. length mask = length s
          \<and> (\<forall>i < length s. mask ! i = 0 \<or> mask ! i = 1)
          \<and> (\<forall>i j. i < length s \<and> j < length s \<and> mask ! i = 1 \<and> mask ! j = 1 \<longrightarrow> i = j)
          \<and> ms = map2 (\<lambda>m s. m * s) mask s"
    proof (rule exI [of _ mx], intro conjI allI impI)
      show "length mx = length s" by (simp add: lmx n_def)
      show "mx ! i = 0 \<or> mx ! i = 1" if "i < length s" for i
        using that ind by (simp add: mx1 nth_list_update n_def)
      show "i = j" if "i < length s \<and> j < length s \<and> mx ! i = 1 \<and> mx ! j = 1" for i j
        using that ind by (auto simp: mx1 nth_list_update n_def split: if_splits)
      show "ms = map2 (\<lambda>m s. m * s) mx s" by (simp add: ms_def)
    qed
    have 2: "\<forall>L2. 1 \<le> L2 \<and> L2 \<le> m \<and> ok L2 \<and> (\<forall>L'. L2 < L' \<and> L' \<le> m \<longrightarrow> \<not> ok L') \<longrightarrow>
            ms = map2 (\<lambda>m s. m * s) ((replicate (length s) 0)[np_argmax (sc L2) := 1]) s"
    proof (intro allI impI)
      fix L2 assume h: "1 \<le> L2 \<and> L2 \<le> m \<and> ok L2 \<and> (\<forall>L'. L2 < L' \<and> L' \<le> m \<longrightarrow> \<not> ok L')"
      have "L2 = L" using uniq [of L2] h by blast
      then show "ms = map2 (\<lambda>m s. m * s)
          ((replicate (length s) 0)[np_argmax (sc L2) := 1]) s"
        by (simp add: ms_def mx1 ind_def n_def)
    qed
    have 3: "(\<forall>L. 1 \<le> L \<and> L \<le> m \<longrightarrow> \<not> ok L) \<longrightarrow> ms = replicate (length s) 0"
      using Lin okL by blast
    show ?thesis
      unfolding hier_masked_def m_def [symmetric] spec2 spec3
      by (intro conjI 1 2 3)
  qed
  moreover have "\<forall>L. \<exists>sc. masked_scores levels leafs s L = Inr sc" using sc by blast
  ultimately show ?thesis using run lms by blast
qed

lemma hier_mask_boxes_lift:
  assumes "\<forall>s \<in> set img. \<exists>ms. hier_mask_box levels leafs s = Inr ms \<and> P s ms"
  shows "\<exists>rows. hier_mask_boxes levels leafs img = Inr rows \<and> length rows = length img
     \<and> (\<forall>n < length img. P (img ! n) (rows ! n))"
  using assms
proof (induction img)
  case Nil
  then show ?case by simp
next
  case (Cons s img)
  from Cons.prems obtain ms where ms: "hier_mask_box levels leafs s = Inr ms" "P s ms"
    by auto
  from Cons obtain rows where rows: "hier_mask_boxes levels leafs img = Inr rows"
    "length rows = length img" "\<forall>n < length img. P (img ! n) (rows ! n)"
    by auto
  have "hier_mask_boxes levels leafs (s # img) = Inr (ms # rows)" using ms rows by simp
  moreover have "length (ms # rows) = length (s # img)" using rows by simp
  moreover have "\<forall>n < length (s # img). P ((s # img) ! n) ((ms # rows) ! n)"
    using ms rows by (auto simp: nth_Cons')
  ultimately show ?case by blast
qed

lemma hier_mask_images_lift:
  assumes "\<forall>img \<in> set imgs. \<forall>s \<in> set img.
      \<exists>ms. hier_mask_box levels leafs s = Inr ms \<and> P s ms"
  shows "\<exists>masked. hier_mask_images levels leafs imgs = Inr masked \<and> length masked = length imgs
     \<and> (\<forall>b < length imgs. length (masked ! b) = length (imgs ! b)
          \<and> (\<forall>n < length (imgs ! b). P (imgs ! b ! n) (masked ! b ! n)))"
  using assms
proof (induction imgs)
  case Nil
  then show ?case by simp
next
  case (Cons img imgs)
  have "\<forall>s \<in> set img. \<exists>ms. hier_mask_box levels leafs s = Inr ms \<and> P s ms"
    using Cons.prems by simp
  from hier_mask_boxes_lift [OF this]
  obtain rows where r: "hier_mask_boxes levels leafs img = Inr rows" "length rows = length img"
    "\<forall>n < length img. P (img ! n) (rows ! n)" by blast
  from Cons obtain masked where m: "hier_mask_images levels leafs imgs = Inr masked"
    "length masked = length imgs"
    "\<forall>b < length imgs. length (masked ! b) = length (imgs ! b)
          \<and> (\<forall>n < length (imgs ! b). P (imgs ! b ! n) (masked ! b ! n))"
    by auto
  have "hier_mask_images levels leafs (img # imgs) = Inr (rows # masked)" using r m by simp
  moreover have "length (rows # masked) = length (img # imgs)" using m by simp
  moreover have "\<forall>b < length (img # imgs).
      length ((rows # masked) ! b) = length ((img # imgs) ! b)
          \<and> (\<forall>n < length ((img # imgs) ! b). P ((img # imgs) ! b ! n) ((rows # masked) ! b ! n))"
    using r m by (auto simp: nth_Cons')
  ultimately show ?case by blast
qed

text \<open>
  One-entry arrays \<^verbatim>\<open>levels\<close> and \<^verbatim>\<open>leafs\<close> are broadcast over the scores of
  the box.
\<close>

lemma hier_mask_box_broadcast_example:
  "hier_mask_box [1] [1] [1/2, 1/5] = Inr [1/2, 0]"
proof -
  have ms: "masked_scores [1] [1] [1/2, 1/5] 1 = Inr [1/2, 1/5]"
    by (simp add: masked_scores_def np_broadcast_def)
  have mx: "np_max [1/2, 1/5] = 1/2" by (simp add: np_max_def)
  have am: "np_argmax [1/2, 1/5] = 0" by (simp add: np_argmax_def mx)
  have rng: "py_range (fold max (tl [1]) (hd [1])) 0 (- 1) = Inr [1]"
    by (simp add: py_range_down)
  show ?thesis
    unfolding hier_mask_box_def rng by (simp add: ms mx am thresh_def)
qed

text \<open>
  Claim C3, as amended. At inference, for a layer that is not hybridized
  (\<^verbatim>\<open>F\<close> is \<^verbatim>\<open>mxnet.nd\<close>) and not class-agnostic, and whose \<^verbatim>\<open>hier_info\<close> holds
  arrays \<^verbatim>\<open>levels\<close> and \<^verbatim>\<open>leafs\<close> with one entry for each of the \<^verbatim>\<open>classes\<close>
  classes (at least one) or with a single entry,
  \<^verbatim>\<open>YOLOOutputV3.hybrid_forward\<close> raises nothing and returns the pair
  \<^verbatim>\<open>(detections, detections_masked)\<close>: the detections of the class scores and
  the detections of the masked class scores, which have the shape of the
  class scores. For every box of every image, the masked scores of every
  level are defined and the masked score vector is the score vector times a
  mask of zeros and ones with at most one 1; the deepest level between
  \<^verbatim>\<open>max(levels)\<close> and 1 whose masked maximum exceeds 0.3 puts the 1 at the index
  of that maximum, and when no level's maximum exceeds 0.3 all masked scores
  of the box are zero.
\<close>

theorem YOLOOutputV3_forward_hier_masking:
  assumes "\<not> is_training" and "\<not> agnostic"
    and "hier_info = Some (levels, leafs)"
    and "0 < classes"
    and "length levels = classes \<or> length levels = 1"
    and "length leafs = classes \<or> length leafs = 1"
    and "\<forall>img \<in> set class_score. \<forall>s \<in> set img. length s = classes"
  shows "\<exists>masked.
      hier_mask_images levels leafs class_score = Inr masked
    \<and> YOLOOutputV3_forward Nd is_training agnostic hier_info classes raw class_score
          confidence bbox
        = Inr (DetectionsPair (make_detections classes class_score bbox)
                              (make_detections classes masked bbox))
    \<and> length masked = length class_score
    \<and> (\<forall>b < length class_score. length (masked ! b) = length (class_score ! b)
         \<and> (\<forall>n < length (class_score ! b).
               length (masked ! b ! n) = length (class_score ! b ! n)
             \<and> hier_masked levels leafs (class_score ! b ! n) (masked ! b ! n)
             \<and> (\<forall>L. \<exists>sc. masked_scores levels leafs (class_score ! b ! n) L = Inr sc)))"
proof -
  define P where "P = (\<lambda>s ms. length ms = length s \<and> hier_masked levels leafs s ms
      \<and> (\<forall>L. \<exists>sc. masked_scores levels leafs s L = Inr sc))"
  have box: "\<exists>ms. hier_mask_box levels leafs s = Inr ms \<and> P s ms"
    if "length s = classes" for s
  proof -
    have lv: "length levels = length s \<or> length levels = 1" using assms(5) that by simp
    have lf: "length leafs = length s \<or> length leafs = 1" using assms(6) that by simp
    have ne: "s \<noteq> []" using assms(4) that by auto
    show ?thesis unfolding P_def by (rule hier_mask_box_masked [OF lv lf ne])
  qed
  have all: "\<forall>img \<in> set class_score. \<forall>s \<in> set img.
      \<exists>ms. hier_mask_box levels leafs s = Inr ms \<and> P s ms"
    using assms(7) box by blast
  from hier_mask_images_lift [OF all]
  obtain masked where m: "hier_mask_images levels leafs class_score = Inr masked"
    and l: "length masked = length class_score"
    and p: "\<forall>b < length class_score. length (masked ! b) = length (class_score ! b)
          \<and> (\<forall>n < length (class_score ! b). P (class_score ! b ! n) (masked ! b ! n))"
    by (elim exE conjE)
  have p': "\<forall>b < length class_score. length (masked ! b) = length (class_score ! b)
         \<and> (\<forall>n < length (class_score ! b).
               length (masked ! b ! n) = length (class_score ! b ! n)
             \<and> hier_masked levels leafs (class_score ! b ! n) (masked ! b ! n)
             \<and> (\<forall>L. \<exists>sc. masked_scores levels leafs (class_score ! b ! n) L = Inr sc))"
    using p unfolding P_def .
  have run: "YOLOOutputV3_forward Nd is_training agnostic hier_info classes raw class_score
        confidence bbox
      = Inr (DetectionsPair (make_detections classes class_score bbox)
                            (make_detections classes masked bbox))"
    unfolding YOLOOutputV3_forward_def Let_def using assms(1,2,3) m by simp
  show ?thesis
    by (rule exI [of _ masked]) (intro conjI m run l p')
qed

theorem YOLOOutputV3_forward_hier_masking_witness:
  "(\<not> False \<and> (0::nat) < 4 \<and> length [1, 1, 2, 2 :: int] = 4 \<and> length [0, 1, 1, 1 :: int] = 4
     \<and> length [1/2, 1/5, 2/5, 1/10 :: real] = 4)
   \<and> YOLOOutputV3_forward Nd False False (Some ([1, 1, 2, 2], [0, 1, 1, 1])) 4 ()
        [[[1/2, 1/5, 2/5, 1/10]]] [[9/10]] [[[0, 0, 1, 1]]]
      = Inr (DetectionsPair
          [[[0, 1/2, 0, 0, 1, 1], [1, 1/5, 0, 0, 1, 1], [2, 2/5, 0, 0, 1, 1], [3, 1/10, 0, 0, 1, 1]]]
          [[[0, 0, 0, 0, 1, 1], [1, 0, 0, 0, 1, 1], [2, 2/5, 0, 0, 1, 1], [3, 0, 0, 0, 1, 1]]])
   \<and> hier_masked [1, 1, 2, 2] [0, 1, 1, 1] [1/2, 1/5, 2/5, 1/10] [0, 0, 2/5, 0]"
proof -
  define lv :: "int list" where "lv = [1, 1, 2, 2]"
  define lf :: "int list" where "lf = [0, 1, 1, 1]"
  define cs :: "real list list list" where "cs = [[[1/2, 1/5, 2/5, 1/10]]]"
  define bb :: "real list list list" where "bb = [[[0, 0, 1, 1]]]"
  have h1: "\<not> False" by simp
  have h4: "(0::nat) < 4" by simp
  have h5: "length lv = 4 \<or> length lv = 1" by (simp add: lv_def)
  have h6: "length lf = 4 \<or> length lf = 1" by (simp add: lf_def)
  have h7: "\<forall>img \<in> set cs. \<forall>s \<in> set img. length s = 4" by (simp add: cs_def)
  have ms2: "masked_scores lv lf [1/2, 1/5, 2/5, 1/10] 2 = Inr [0, 1/5, 2/5, 1/10]"
    by (simp add: masked_scores_def np_broadcast_def lv_def lf_def)
  have mx2: "np_max [0, 1/5, 2/5, 1/10] = 2/5" by (simp add: np_max_def)
  have am2: "np_argmax [0, 1/5, 2/5, 1/10] = 2" by (simp add: np_argmax_def mx2)
  have mxl: "fold max (tl lv) (hd lv) = 2" by (simp add: lv_def)
  have rng: "py_range (fold max (tl lv) (hd lv)) 0 (- 1) = Inr [2, 1]"
    unfolding mxl by (simp add: py_range_down upt_conv_Cons)
  have box: "hier_mask_box lv lf [1/2, 1/5, 2/5, 1/10] = Inr [0, 0, 2/5, 0]"
    unfolding hier_mask_box_def rng
    by (simp add: ms2 mx2 am2 thresh_def) (simp add: lv_def)
  have imgs: "hier_mask_images lv lf cs = Inr [[[0, 0, 2/5, 0]]]"
    by (simp add: cs_def box)
  from YOLOOutputV3_forward_hier_masking [OF h1 h1 refl h4 h5 h6 h7, of "()" "[[9/10]]" bb]
  obtain masked where m: "hier_mask_images lv lf cs = Inr masked"
    and run: "YOLOOutputV3_forward Nd False False (Some (lv, lf)) 4 () cs [[9/10]] bb
        = Inr (DetectionsPair (make_detections 4 cs bb) (make_detections 4 masked bb))"
    and p: "\<forall>b < length cs. length (masked ! b) = length (cs ! b)
         \<and> (\<forall>n < length (cs ! b).
               length (masked ! b ! n) = length (cs ! b ! n)
             \<and> hier_masked lv lf (cs ! b ! n) (masked ! b ! n)
             \<and> (\<forall>L. \<exists>sc. masked_scores lv lf (cs ! b ! n) L = Inr sc))"
    by (elim exE conjE)
  have meq: "masked = [[[0, 0, 2/5, 0]]]" using m imgs by simp
  have d1: "make_detections 4 cs bb
      = [[[0, 1/2, 0, 0, 1, 1], [1, 1/5, 0, 0, 1, 1], [2, 2/5, 0, 0, 1, 1], [3, 1/10, 0, 0, 1, 1]]]"
    by (simp add: make_detections_def image_detections_def cs_def bb_def upt_conv_Cons)
  have d2: "make_detections 4 [[[0, 0, 2/5, 0]]] bb
      = [[[0, 0, 0, 0, 1, 1], [1, 0, 0, 0, 1, 1], [2, 2/5, 0, 0, 1, 1], [3, 0, 0, 0, 1, 1]]]"
    by (simp add: make_detections_def image_detections_def bb_def upt_conv_Cons)
  have hm: "hier_masked lv lf [1/2, 1/5, 2/5, 1/10] [0, 0, 2/5, 0]"
    using p unfolding meq by (simp add: cs_def)
  have r: "YOLOOutputV3_forward Nd False False (Some (lv, lf)) 4 () cs [[9/10]] bb
      = Inr (DetectionsPair
          [[[0, 1/2, 0, 0, 1, 1], [1, 1/5, 0, 0, 1, 1], [2, 2/5, 0, 0, 1, 1], [3, 1/10, 0, 0, 1, 1]]]
          [[[0, 0, 0, 0, 1, 1], [1, 0, 0, 0, 1, 1], [2, 2/5, 0, 0, 1, 1], [3, 0, 0, 0, 1, 1]]])"
    using run unfolding meq d1 d2 .
  have l5: "length lv = 4" and l6: "length lf = 4" by (simp_all add: lv_def lf_def)
  show ?thesis
    using h4 l5 l6 r hm unfolding lv_def lf_def cs_def bb_def by (intro conjI) simp_all
qed

theorem YOLOOutputV3_forward_no_pair_counterexample:
  "YOLOOutputV3_forward Nd False True (Some ([1, 1, 2, 2], [0, 1, 1, 1])) 4 ()
     [[[1/2, 1/5, 2/5, 1/10]]] [[9/10]] [[[0, 0, 1, 1]]]
   = Inr (Detections [[[0, 9/10, 0, 0, 1, 1]]])
   \<and> YOLOOutputV3_forward Sym False False (Some ([1, 1, 2, 2], [0, 1, 1, 1])) 4 ()
     [[[1/2, 1/5, 2/5, 1/10]]] [[9/10]] [[[0, 0, 1, 1]]]
   = Inl NotImplementedForSymbol"
  by (simp add: YOLOOutputV3_forward_def agnostic_detections_def)

section \<open>The modes of \<^verbatim>\<open>YOLOV3.hybrid_forward\<close>\<close>

lemma case_sum_Inr:
  assumes "(case m of Inl e \<Rightarrow> Inl e | Inr v \<Rightarrow> f v) = Inr r"
  obtains v where "m = Inr v" and "f v = Inr r"
  using assms by (cases m) simp_all

lemma forward_losses_Inr:
  assumes "forward_losses net acc args = Inr r"
  shows "\<exists>box_preds objness centers scales class_pred.
      concat_dim1 (all_detections acc) = Inr box_preds
    \<and> concat_dim1 (all_objectness acc) = Inr objness
    \<and> concat_dim1 (all_box_centers acc) = Inr centers
    \<and> concat_dim1 (all_box_scales acc) = Inr scales
    \<and> concat_dim1 (all_class_pred acc) = Inr class_pred
    \<and> r = Losses (loss net ([objness, centers, scales, class_pred]
                            @ target_generator net box_preds args))"
proof -
  from assms [unfolded forward_losses_def]
  obtain box_preds where 1: "concat_dim1 (all_detections acc) = Inr box_preds"
    and b: "(case concat_dim1 (all_objectness acc) of Inl e \<Rightarrow> Inl e | Inr objness \<Rightarrow>
     (case concat_dim1 (all_box_centers acc) of Inl e \<Rightarrow> Inl e | Inr centers \<Rightarrow>
     (case concat_dim1 (all_box_scales acc) of Inl e \<Rightarrow> Inl e | Inr scales \<Rightarrow>
     (case concat_dim1 (all_class_pred acc) of Inl e \<Rightarrow> Inl e | Inr class_pred \<Rightarrow>
        Inr (Losses (loss net ([objness, centers, scales, class_pred]
                               @ target_generator net box_preds args))))))) = Inr r"
    by (rule case_sum_Inr)
  from b obtain objness where 2: "concat_dim1 (all_objectness acc) = Inr objness"
    and c: "(case concat_dim1 (all_box_centers acc) of Inl e \<Rightarrow> Inl e | Inr centers \<Rightarrow>
     (case concat_dim1 (all_box_scales acc) of Inl e \<Rightarrow> Inl e | Inr scales \<Rightarrow>
     (case concat_dim1 (all_class_pred acc) of Inl e \<Rightarrow> Inl e | Inr class_pred \<Rightarrow>
        Inr (Losses (loss net ([objness, centers, scales, class_pred]
                               @ target_generator net box_preds args)))))) = Inr r"
    by (rule case_sum_Inr)
  from c obtain centers where 3: "concat_dim1 (all_box_centers acc) = Inr centers"
    and d: "(case concat_dim1 (all_box_scales acc) of Inl e \<Rightarrow> Inl e | Inr scales \<Rightarrow>
     (case concat_dim1 (all_class_pred acc) of Inl e \<Rightarrow> Inl e | Inr class_pred \<Rightarrow>
        Inr (Losses (loss net ([objness, centers, scales, class_pred]
                               @ target_generator net box_preds args))))) = Inr r"
    by (rule case_sum_Inr)
  from d obtain scales where 4: "concat_dim1 (all_box_scales acc) = Inr scales"
    and e: "(case concat_dim1 (all_class_pred acc) of Inl e \<Rightarrow> Inl e | Inr class_pred \<Rightarrow>
        Inr (Losses (loss net ([objness, centers, scales, class_pred]
                               @ target_generator net box_preds args)))) = Inr r"
    by (rule case_sum_Inr)
  from e obtain class_pred where 5: "concat_dim1 (all_class_pred acc) = Inr class_pred"
    and f: "Inr (Losses (loss net ([objness, centers, scales, class_pred]
                               @ target_generator net box_preds args))) = Inr r"
    by (rule case_sum_Inr) blast
  from f have 6: "r = Losses (loss net ([objness, centers, scales, class_pred]
                            @ target_generator net box_preds args))" by simp
  show ?thesis
    by (intro exI conjI) (rule 1 2 3 4 5 6)+
qed

lemma forward_raw_Inr:
  assumes "forward_raw acc = Inr r"
  shows "\<exists>dets centers scales objness class_pred.
      concat_dim1 (all_detections acc) = Inr dets
    \<and> concat_dim1 (all_box_centers acc) = Inr centers
    \<and> concat_dim1 (all_box_scales acc) = Inr scales
    \<and> concat_dim1 (all_objectness acc) = Inr objness
    \<and> concat_dim1 (all_class_pred acc) = Inr class_pred
    \<and> r = RawPredictions dets (all_anchors acc) (all_offsets acc) (all_feat_maps acc)
            centers scales objness class_pred"
proof -
  from assms [unfolded forward_raw_def]
  obtain dets where 1: "concat_dim1 (all_detections acc) = Inr dets"
    and b: "(case concat_dim1 (all_box_centers acc) of Inl e \<Rightarrow> Inl e | Inr centers \<Rightarrow>
     (case concat_dim1 (all_box_scales acc) of Inl e \<Rightarrow> Inl e | Inr scales \<Rightarrow>
     (case concat_dim1 (all_objectness acc) of Inl e \<Rightarrow> Inl e | Inr objness \<Rightarrow>
     (case concat_dim1 (all_class_pred acc) of Inl e \<Rightarrow> Inl e | Inr class_pred \<Rightarrow>
        Inr (RawPredictions dets (all_anchors acc) (all_offsets acc) (all_feat_maps acc)
               centers scales objness class_pred))))) = Inr r"
    by (rule case_sum_Inr)
  from b obtain centers where 2: "concat_dim1 (all_box_centers acc) = Inr centers"
    and c: "(case concat_dim1 (all_box_scales acc) of Inl e \<Rightarrow> Inl e | Inr scales \<Rightarrow>
     (case concat_dim1 (all_objectness acc) of Inl e \<Rightarrow> Inl e | Inr objness \<Rightarrow>
     (case concat_dim1 (all_class_pred acc) of Inl e \<Rightarrow> Inl e | Inr class_pred \<Rightarrow>
        Inr (RawPredictions dets (all_anchors acc) (all_offsets acc) (all_feat_maps acc)
               centers scales objness class_pred)))) = Inr r"
    by (rule case_sum_Inr)
  from c obtain scales where 3: "concat_dim1 (all_box_scales acc) = Inr scales"
    and d: "(case concat_dim1 (all_objectness acc) of Inl e \<Rightarrow> Inl e | Inr objness \<Rightarrow>
     (case concat_dim1 (all_class_pred acc) of Inl e \<Rightarrow> Inl e | Inr class_pred \<Rightarrow>
        Inr (RawPredictions dets (all_anchors acc) (all_offsets acc) (all_feat_maps acc)
               centers scales objness class_pred))) = Inr r"
    by (rule case_sum_Inr)
  from d obtain objness where 4: "concat_dim1 (all_objectness acc) = Inr objness"
    and e: "(case concat_dim1 (all_class_pred acc) of Inl e \<Rightarrow> Inl e | Inr class_pred \<Rightarrow>
        Inr (RawPredictions dets (all_anchors acc) (all_offsets acc) (all_feat_maps acc)
               centers scales objness class_pred)) = Inr r"
    by (rule case_sum_Inr)
  from e obtain class_pred where 5: "concat_dim1 (all_class_pred acc) = Inr class_pred"
    and f: "Inr (RawPredictions dets (all_anchors acc) (all_offsets acc) (all_feat_maps acc)
               centers scales objness class_pred) = Inr r"
    by (rule case_sum_Inr) blast
  from f have 6: "r = RawPredictions dets (all_anchors acc) (all_offsets acc)
      (all_feat_maps acc) centers scales objness class_pred" by simp
  show ?thesis
    by (intro exI conjI) (rule 1 2 3 4 5 6)+
qed

lemma forward_detections_Inr:
  assumes "forward_detections net ops acc = Inr r"
  shows "\<exists>dets result ids scores bboxes.
      concat_dim1 (all_detections acc) = Inr dets
    \<and> nms_stage net ops dets = Inr result
    \<and> slice_axis_last 0 (Some 1) result = Inr ids
    \<and> slice_axis_last 1 (Some 2) result = Inr scores
    \<and> slice_axis_last 2 None result = Inr bboxes
    \<and> r = Inference ids scores bboxes"
proof -
  from assms [unfolded forward_detections_def]
  obtain dets where 1: "concat_dim1 (all_detections acc) = Inr dets"
    and b: "(case nms_stage net ops dets of Inl e \<Rightarrow> Inl e | Inr result \<Rightarrow>
     (case slice_axis_last 0 (Some 1) result of Inl e \<Rightarrow> Inl e | Inr ids \<Rightarrow>
     (case slice_axis_last 1 (Some 2) result of Inl e \<Rightarrow> Inl e | Inr scores \<Rightarrow>
     (case slice_axis_last 2 None result of Inl e \<Rightarrow> Inl e | Inr bboxes \<Rightarrow>
        Inr (Inference ids scores bboxes))))) = Inr r"
    by (rule case_sum_Inr)
  from b obtain result where 2: "nms_stage net ops dets = Inr result"
    and c: "(case slice_axis_last 0 (Some 1) result of Inl e \<Rightarrow> Inl e | Inr ids \<Rightarrow>
     (case slice_axis_last 1 (Some 2) result of Inl e \<Rightarrow> Inl e | Inr scores \<Rightarrow>
     (case slice_axis_last 2 None result of Inl e \<Rightarrow> Inl e | Inr bboxes \<Rightarrow>
        Inr (Inference ids scores bboxes)))) = Inr r"
    by (rule case_sum_Inr)
  from c obtain ids where 3: "slice_axis_last 0 (Some 1) result = Inr ids"
    and d: "(case slice_axis_last 1 (Some 2) result of Inl e \<Rightarrow> Inl e | Inr scores \<Rightarrow>
     (case slice_axis_last 2 None result of Inl e \<Rightarrow> Inl e | Inr bboxes \<Rightarrow>
        Inr (Inference ids scores bboxes))) = Inr r"
    by (rule case_sum_Inr)
  from d obtain scores where 4: "slice_axis_last 1 (Some 2) result = Inr scores"
    and e: "(case slice_axis_last 2 None result of Inl e \<Rightarrow> Inl e | Inr bboxes \<Rightarrow>
        Inr (Inference ids scores bboxes)) = Inr r"
    by (rule case_sum_Inr)
  from e obtain bboxes where 5: "slice_axis_last 2 None result = Inr bboxes"
    and f: "Inr (Inference ids scores bboxes) = Inr r"
    by (rule case_sum_Inr) blast
  from f have 6: "r = Inference ids scores bboxes" by simp
  show ?thesis
    by (intro exI conjI) (rule 1 2 3 4 5 6)+
qed

lemma YOLOV3_forward_Inr:
  assumes "YOLOV3_forward net ops is_training is_recording x args = Inr r"
  obtains acc where "collect net ops is_training x = Inr acc"
    and "is_training \<and> is_recording \<Longrightarrow> forward_losses net acc args = Inr r"
    and "is_training \<and> \<not> is_recording \<Longrightarrow> forward_raw acc = Inr r"
    and "\<not> is_training \<Longrightarrow> forward_detections net ops acc = Inr r"
proof -
  from assms [unfolded YOLOV3_forward_def]
  obtain acc where 0: "collect net ops is_training x = Inr acc"
    and a: "(if is_training then
            (if is_recording then forward_losses net acc args else forward_raw acc)
          else forward_detections net ops acc) = Inr r"
    by (rule case_sum_Inr)
  show ?thesis
    by (rule that [OF 0]) (use a in simp_all)
qed

lemma slice_axis_last_rows:
  assumes "slice_axis_last b e a = Inr s"
  shows "length s = length a
    \<and> (\<forall>i < length a. length (s ! i) = length (a ! i)
         \<and> (\<forall>n < length (a ! i). s ! i ! n = slice_row b e (a ! i ! n)))"
proof -
  have "s = map (map (slice_row b e)) a"
    using assms by (simp add: slice_axis_last_def split: if_splits)
  then show ?thesis by simp
qed

lemma slice_row_columns:
  "slice_row 0 (Some 1) row = take 1 row"
  "slice_row 1 (Some 2) row = take 1 (drop 1 row)"
  "slice_row 2 None row = drop 2 row"
  by (simp_all add: slice_row_def)

lemma slice_axis1_Inr:
  "slice_axis1 e a = Inr r \<longleftrightarrow>
     list_all (\<lambda>img. img = [] \<or> e \<le> int (length img)) a \<and> r = map (take (nat e)) a"
  by (auto simp: slice_axis1_def)

lemma slice_axis1_rows:
  assumes "slice_axis1 e a = Inr r" and "0 < e"
  shows "list_all (\<lambda>img. int (length img) \<le> e) r"
proof -
  have "r = map (take (nat e)) a" using assms(1) by (simp add: slice_axis1_Inr)
  then show ?thesis using assms(2) by (auto simp: list_all_iff)
qed

lemma slice_axis_last_row_counts:
  assumes "slice_axis_last b e a = Inr s" and "list_all (\<lambda>img. int (length img) \<le> bound) a"
  shows "list_all (\<lambda>img. int (length img) \<le> bound) s"
proof -
  have "s = map (map (slice_row b e)) a"
    using assms(1) by (simp add: slice_axis_last_def split: if_splits)
  then show ?thesis using assms(2) by (simp add: list_all_iff)
qed

lemma collect_output_detections:
  "all_detections (collect_output ops is_training output tip acc)
     = all_detections acc
       @ [if is_training then fst (train_output output tip) else infer_output output tip]"
  by (simp add: collect_output_def split: prod.splits)

lemma output_loop_returns:
  assumes "\<forall>(i, b, out) \<in> set items.
      0 \<le> i \<and> (i < int (length routes) - 1 \<longrightarrow> i < int (length (transitions net)))"
  shows "\<exists>acc'. output_loop net ops is_training routes items x acc = Inr acc'
       \<and> (items \<noteq> [] \<or> all_detections acc \<noteq> [] \<longrightarrow> all_detections acc' \<noteq> [])"
  using assms
proof (induction items arbitrary: x acc)
  case Nil
  then show ?case by simp
next
  case (Cons item items)
  obtain i block out where item: "item = (i, block, out)" by (cases item) auto
  obtain x1 tip where blk: "block x = (x1, tip)" by (cases "block x") auto
  define acc1 where "acc1 = collect_output ops is_training out tip acc"
  have ne1: "all_detections acc1 \<noteq> []"
    by (simp add: acc1_def collect_output_detections)
  have i0: "0 \<le> i" and tr: "i < int (length routes) - 1 \<longrightarrow> i < int (length (transitions net))"
    using Cons.prems by (auto simp: item)
  show ?case
  proof (cases "i \<ge> int (length routes) - 1")
    case True
    then have "output_loop net ops is_training routes (item # items) x acc = Inr acc1"
      by (simp add: item blk acc1_def)
    then show ?thesis using ne1 by simp
  next
    case False
    then have lt: "i < int (length (transitions net))" and lr: "i + 1 < int (length routes)"
      using tr by auto
    have p1: "py_index (transitions net) i = Inr (transitions net ! nat i)"
      using i0 lt by (simp add: py_index_def)
    have p2: "py_index (rev routes) (i + 1) = Inr (rev routes ! nat (i + 1))"
      using i0 lr by (simp add: py_index_def)
    define x2 where "x2 = concat_route ops (upsample ops ((transitions net ! nat i) x1))
        (rev routes ! nat (i + 1))"
    have step: "output_loop net ops is_training routes (item # items) x acc
        = output_loop net ops is_training routes items x2 acc1"
      using False by (simp add: item blk acc1_def p1 p2 x2_def)
    have "\<forall>(i, b, out) \<in> set items.
      0 \<le> i \<and> (i < int (length routes) - 1 \<longrightarrow> i < int (length (transitions net)))"
      using Cons.prems by simp
    from Cons.IH [OF this, of x2 acc1]
    obtain acc' where "output_loop net ops is_training routes items x2 acc1 = Inr acc'"
      and "all_detections acc' \<noteq> []" using ne1 by blast
    then show ?thesis unfolding step by simp
  qed
qed

lemma stage_loop_routes:
  "length (snd (stage_loop ss x routes)) = length routes + length ss"
  by (induction ss arbitrary: x routes) simp_all

lemma collect_returns:
  fixes net :: "('x, 'p, 'g, 'l) yolov3"
  assumes "length (yolo_blocks net) = length (stages net)"
    and "length (yolo_outputs net) = length (stages net)"
    and "length (transitions net) + 1 = length (stages net)"
  shows "\<exists>acc. collect net ops is_training x = Inr acc \<and> all_detections acc \<noteq> []"
proof -
  define ss where "ss = map fst (zip (stages net) (zip (yolo_blocks net) (yolo_outputs net)))"
  obtain x1 routes where sl: "stage_loop ss x [] = (x1, routes)"
    by (cases "stage_loop ss x []") auto
  have "length ss = length (stages net)" using assms by (simp add: ss_def)
  then have n: "length routes = length (stages net)"
    using stage_loop_routes [of ss x "[]"] sl by simp
  define items where "items = zip (map int [0..<length routes])
      (zip (yolo_blocks net) (yolo_outputs net))"
  have ne: "items \<noteq> []" using assms n by (auto simp: items_def)
  have ok: "\<forall>(i, b, out) \<in> set items.
      0 \<le> i \<and> (i < int (length routes) - 1 \<longrightarrow> i < int (length (transitions net)))"
  proof (intro ballI, clarify)
    fix i b out assume "(i, b, out) \<in> set items"
    then have "i \<in> set (map int [0..<length routes])"
      unfolding items_def by (rule set_zip_leftD)
    then show "0 \<le> i \<and> (i < int (length routes) - 1 \<longrightarrow> i < int (length (transitions net)))"
      using assms(3) n by auto
  qed
  define acc0 :: "('x, 'p) collected" where
    "acc0 = \<lparr>all_box_centers = [], all_box_scales = [], all_objectness = [],
           all_class_pred = [], all_anchors = [], all_offsets = [], all_feat_maps = [],
           all_detections = []\<rparr>"
  from output_loop_returns [OF ok, of ops is_training x1 acc0]
  obtain acc where "output_loop net ops is_training routes items x1 acc0 = Inr acc"
    and "all_detections acc \<noteq> []" using ne by blast
  then show ?thesis
    unfolding collect_def ss_def [symmetric] sl items_def acc0_def by simp
qed

text \<open>
  Claim C1. \<^verbatim>\<open>YOLOV3.hybrid_forward\<close> has three ways to return, chosen by the two
  flags of \<^verbatim>\<open>autograd\<close>. In training mode while recording it returns \<open>r\<close>
  exactly when the loops and the five concatenations along dimension 1
  succeed and \<open>r\<close> is what \<^verbatim>\<open>YOLOV3Loss\<close> returns, the four losses, for the
  concatenated objectness, centers, scales and class predictions followed by
  the targets of the target generator for the concatenated box predictions.
  In training mode without recording it returns exactly the tuple of the
  concatenated detections, the lists of anchors, offsets and feature maps, and
  the concatenated box centers, box scales, objectness and class predictions.
  Otherwise it returns exactly \<^verbatim>\<open>(ids, scores, bboxes)\<close>, the three column
  slices of the result that follows the concatenation and the
  non-maximum-suppression stage: every row of \<^verbatim>\<open>ids\<close> is column 0, every row
  of \<^verbatim>\<open>scores\<close> is column 1 and every row of \<^verbatim>\<open>bboxes\<close> holds the columns from
  2 on of the same row of the result. For a network with the lists of layers
  that \<^verbatim>\<open>__init__\<close> builds the loops raise nothing and collect at least one
  array of detections, so that only an MXNet operator can raise.
\<close>

theorem YOLOV3_forward_modes:
  fixes net :: "('x, 'p, 'g, 'l) yolov3"
  shows
  "(YOLOV3_forward net ops True True x args = Inr r \<longleftrightarrow>
      (\<exists>acc box_preds objness centers scales class_pred.
          collect net ops True x = Inr acc
        \<and> concat_dim1 (all_detections acc) = Inr box_preds
        \<and> concat_dim1 (all_objectness acc) = Inr objness
        \<and> concat_dim1 (all_box_centers acc) = Inr centers
        \<and> concat_dim1 (all_box_scales acc) = Inr scales
        \<and> concat_dim1 (all_class_pred acc) = Inr class_pred
        \<and> r = Losses (loss net ([objness, centers, scales, class_pred]
                                @ target_generator net box_preds args))))
   \<and> (YOLOV3_forward net ops True False x args = Inr r \<longleftrightarrow>
      (\<exists>acc dets centers scales objness class_pred.
          collect net ops True x = Inr acc
        \<and> concat_dim1 (all_detections acc) = Inr dets
        \<and> concat_dim1 (all_box_centers acc) = Inr centers
        \<and> concat_dim1 (all_box_scales acc) = Inr scales
        \<and> concat_dim1 (all_objectness acc) = Inr objness
        \<and> concat_dim1 (all_class_pred acc) = Inr class_pred
        \<and> r = RawPredictions dets (all_anchors acc) (all_offsets acc) (all_feat_maps acc)
                centers scales objness class_pred))
   \<and> (YOLOV3_forward net ops False is_recording x args = Inr r \<longleftrightarrow>
      (\<exists>acc dets result ids scores bboxes.
          collect net ops False x = Inr acc
        \<and> concat_dim1 (all_detections acc) = Inr dets
        \<and> nms_stage net ops dets = Inr result
        \<and> slice_axis_last 0 (Some 1) result = Inr ids
        \<and> slice_axis_last 1 (Some 2) result = Inr scores
        \<and> slice_axis_last 2 None result = Inr bboxes
        \<and> r = Inference ids scores bboxes))
   \<and> (slice_axis_last 0 (Some 1) result = Inr ids
        \<and> slice_axis_last 1 (Some 2) result = Inr scores
        \<and> slice_axis_last 2 None result = Inr bboxes \<longrightarrow>
        length ids = length result \<and> length scores = length result
        \<and> length bboxes = length result
        \<and> (\<forall>i < length result.
              length (ids ! i) = length (result ! i)
            \<and> length (scores ! i) = length (result ! i)
            \<and> length (bboxes ! i) = length (result ! i)
            \<and> (\<forall>n < length (result ! i).
                  ids ! i ! n = take 1 (result ! i ! n)
                \<and> scores ! i ! n = take 1 (drop 1 (result ! i ! n))
                \<and> bboxes ! i ! n = drop 2 (result ! i ! n))))
   \<and> (length (yolo_blocks net) = length (stages net)
        \<and> length (yolo_outputs net) = length (stages net)
        \<and> length (transitions net) + 1 = length (stages net) \<longrightarrow>
        (\<exists>acc. collect net ops is_training x = Inr acc \<and> all_detections acc \<noteq> []))"
proof -
  have 1: "YOLOV3_forward net ops True True x args = Inr r \<longleftrightarrow>
      (\<exists>acc box_preds objness centers scales class_pred.
          collect net ops True x = Inr acc
        \<and> concat_dim1 (all_detections acc) = Inr box_preds
        \<and> concat_dim1 (all_objectness acc) = Inr objness
        \<and> concat_dim1 (all_box_centers acc) = Inr centers
        \<and> concat_dim1 (all_box_scales acc) = Inr scales
        \<and> concat_dim1 (all_class_pred acc) = Inr class_pred
        \<and> r = Losses (loss net ([objness, centers, scales, class_pred]
                                @ target_generator net box_preds args)))"
  proof
    assume a: "YOLOV3_forward net ops True True x args = Inr r"
    then obtain acc where c: "collect net ops True x = Inr acc"
      and f: "forward_losses net acc args = Inr r"
      by (rule YOLOV3_forward_Inr) simp
    from forward_losses_Inr [OF f] c show "\<exists>acc box_preds objness centers scales class_pred.
          collect net ops True x = Inr acc
        \<and> concat_dim1 (all_detections acc) = Inr box_preds
        \<and> concat_dim1 (all_objectness acc) = Inr objness
        \<and> concat_dim1 (all_box_centers acc) = Inr centers
        \<and> concat_dim1 (all_box_scales acc) = Inr scales
        \<and> concat_dim1 (all_class_pred acc) = Inr class_pred
        \<and> r = Losses (loss net ([objness, centers, scales, class_pred]
                                @ target_generator net box_preds args))"
      by blast
  next
    assume "\<exists>acc box_preds objness centers scales class_pred.
          collect net ops True x = Inr acc
        \<and> concat_dim1 (all_detections acc) = Inr box_preds
        \<and> concat_dim1 (all_objectness acc) = Inr objness
        \<and> concat_dim1 (all_box_centers acc) = Inr centers
        \<and> concat_dim1 (all_box_scales acc) = Inr scales
        \<and> concat_dim1 (all_class_pred acc) = Inr class_pred
        \<and> r = Losses (loss net ([objness, centers, scales, class_pred]
                                @ target_generator net box_preds args))"
    then show "YOLOV3_forward net ops True True x args = Inr r"
      unfolding YOLOV3_forward_def forward_losses_def by (elim exE conjE) simp
  qed
  have 2: "YOLOV3_forward net ops True False x args = Inr r \<longleftrightarrow>
      (\<exists>acc dets centers scales objness class_pred.
          collect net ops True x = Inr acc
        \<and> concat_dim1 (all_detections acc) = Inr dets
        \<and> concat_dim1 (all_box_centers acc) = Inr centers
        \<and> concat_dim1 (all_box_scales acc) = Inr scales
        \<and> concat_dim1 (all_objectness acc) = Inr objness
        \<and> concat_dim1 (all_class_pred acc) = Inr class_pred
        \<and> r = RawPredictions dets (all_anchors acc) (all_offsets acc) (all_feat_maps acc)
                centers scales objness class_pred)"
  proof
    assume a: "YOLOV3_forward net ops True False x args = Inr r"
    then obtain acc where c: "collect net ops True x = Inr acc"
      and f: "forward_raw acc = Inr r"
      by (rule YOLOV3_forward_Inr) simp
    from forward_raw_Inr [OF f] c show "\<exists>acc dets centers scales objness class_pred.
          collect net ops True x = Inr acc
        \<and> concat_dim1 (all_detections acc) = Inr dets
        \<and> concat_dim1 (all_box_centers acc) = Inr centers
        \<and> concat_dim1 (all_box_scales acc) = Inr scales
        \<and> concat_dim1 (all_objectness acc) = Inr objness
        \<and> concat_dim1 (all_class_pred acc) = Inr class_pred
        \<and> r = RawPredictions dets (all_anchors acc) (all_offsets acc) (all_feat_maps acc)
                centers scales objness class_pred"
      by blast
  next
    assume "\<exists>acc dets centers scales objness class_pred.
          collect net ops True x = Inr acc
        \<and> concat_dim1 (all_detections acc) = Inr dets
        \<and> concat_dim1 (all_box_centers acc) = Inr centers
        \<and> concat_dim1 (all_box_scales acc) = Inr scales
        \<and> concat_dim1 (all_objectness acc) = Inr objness
        \<and> concat_dim1 (all_class_pred acc) = Inr class_pred
        \<and> r = RawPredictions dets (all_anchors acc) (all_offsets acc) (all_feat_maps acc)
                centers scales objness class_pred"
    then show "YOLOV3_forward net ops True False x args = Inr r"
      unfolding YOLOV3_forward_def forward_raw_def by (elim exE conjE) simp
  qed
  have 3: "YOLOV3_forward net ops False is_recording x args = Inr r \<longleftrightarrow>
      (\<exists>acc dets result ids scores bboxes.
          collect net ops False x = Inr acc
        \<and> concat_dim1 (all_detections acc) = Inr dets
        \<and> nms_stage net ops dets = Inr result
        \<and> slice_axis_last 0 (Some 1) result = Inr ids
        \<and> slice_axis_last 1 (Some 2) result = Inr scores
        \<and> slice_axis_last 2 None result = Inr bboxes
        \<and> r = Inference ids scores bboxes)"
  proof
    assume a: "YOLOV3_forward net ops False is_recording x args = Inr r"
    then obtain acc where c: "collect net ops False x = Inr acc"
      and f: "forward_detections net ops acc = Inr r"
      by (rule YOLOV3_forward_Inr) simp
    from forward_detections_Inr [OF f] c show "\<exists>acc dets result ids scores bboxes.
          collect net ops False x = Inr acc
        \<and> concat_dim1 (all_detections acc) = Inr dets
        \<and> nms_stage net ops dets = Inr result
        \<and> slice_axis_last 0 (Some 1) result = Inr ids
        \<and> slice_axis_last 1 (Some 2) result = Inr scores
        \<and> slice_axis_last 2 None result = Inr bboxes
        \<and> r = Inference ids scores bboxes"
      by blast
  next
    assume "\<exists>acc dets result ids scores bboxes.
          collect net ops False x = Inr acc
        \<and> concat_dim1 (all_detections acc) = Inr dets
        \<and> nms_stage net ops dets = Inr result
        \<and> slice_axis_last 0 (Some 1) result = Inr ids
        \<and> slice_axis_last 1 (Some 2) result = Inr scores
        \<and> slice_axis_last 2 None result = Inr bboxes
        \<and> r = Inference ids scores bboxes"
    then show "YOLOV3_forward net ops False is_recording x args = Inr r"
      unfolding YOLOV3_forward_def forward_detections_def by (elim exE conjE) simp
  qed
  have 4: "slice_axis_last 0 (Some 1) result = Inr ids
        \<and> slice_axis_last 1 (Some 2) result = Inr scores
        \<and> slice_axis_last 2 None result = Inr bboxes \<longrightarrow>
        length ids = length result \<and> length scores = length result
        \<and> length bboxes = length result
        \<and> (\<forall>i < length result.
              length (ids ! i) = length (result ! i)
            \<and> length (scores ! i) = length (result ! i)
            \<and> length (bboxes ! i) = length (result ! i)
            \<and> (\<forall>n < length (result ! i).
                  ids ! i ! n = take 1 (result ! i ! n)
                \<and> scores ! i ! n = take 1 (drop 1 (result ! i ! n))
                \<and> bboxes ! i ! n = drop 2 (result ! i ! n)))"
  proof
    assume a: "slice_axis_last 0 (Some 1) result = Inr ids
        \<and> slice_axis_last 1 (Some 2) result = Inr scores
        \<and> slice_axis_last 2 None result = Inr bboxes"
    note i = slice_axis_last_rows [OF a [THEN conjunct1], unfolded slice_row_columns]
    note s = slice_axis_last_rows [OF a [THEN conjunct2, THEN conjunct1],
        unfolded slice_row_columns]
    note b = slice_axis_last_rows [OF a [THEN conjunct2, THEN conjunct2],
        unfolded slice_row_columns]
    from i s b show "length ids = length result \<and> length scores = length result
        \<and> length bboxes = length result
        \<and> (\<forall>i < length result.
              length (ids ! i) = length (result ! i)
            \<and> length (scores ! i) = length (result ! i)
            \<and> length (bboxes ! i) = length (result ! i)
            \<and> (\<forall>n < length (result ! i).
                  ids ! i ! n = take 1 (result ! i ! n)
                \<and> scores ! i ! n = take 1 (drop 1 (result ! i ! n))
                \<and> bboxes ! i ! n = drop 2 (result ! i ! n)))"
      by simp
  qed
  have 5: "length (yolo_blocks net) = length (stages net)
        \<and> length (yolo_outputs net) = length (stages net)
        \<and> length (transitions net) + 1 = length (stages net) \<longrightarrow>
        (\<exists>acc. collect net ops is_training x = Inr acc \<and> all_detections acc \<noteq> [])"
    using collect_returns [of net ops is_training x] by blast
  show ?thesis by (intro conjI 1 2 3 4 5)
qed

theorem YOLOV3_forward_modes_witness:
  "YOLOV3_forward
     \<lparr>stages = [\<lambda>u :: real. u + 1], yolo_blocks = [\<lambda>u. (u, u)],
      yolo_outputs = [\<lparr>train_output = (\<lambda>tip. ([[[0, 0, 1, 1]]], [[[[1 / 2, 1 / 2]]]],
                          [[[[1, 1]]]], [[[[3]]]], [[[[2]]]], (), ())),
                       infer_output = (\<lambda>tip. [[[0, 9 / 10, 0, 0, 1, 1], [0, 4 / 5, 0, 0, 1, 1]]])\<rparr>],
      transitions = [], nms_thresh = 45 / 100, nms_topk = 400, post_nms = 1,
      target_generator = (\<lambda>b (g :: unit). [b]),
      loss = (\<lambda>p. (real (length p), 0 :: real, 0 :: real, 0 :: real))\<rparr>
     \<lparr>upsample = (\<lambda>u. u), concat_route = (\<lambda>u r. u), fake_featmap = (\<lambda>u. 0),
      box_nms = (\<lambda>overlap valid topk a. a)\<rparr>
     False False 0 ()
   = Inr (Inference [[[0]]] [[[9 / 10]]] [[[0, 0, 1, 1]]])
   \<and> YOLOV3_forward
     \<lparr>stages = [\<lambda>u :: real. u + 1], yolo_blocks = [\<lambda>u. (u, u)],
      yolo_outputs = [\<lparr>train_output = (\<lambda>tip. ([[[0, 0, 1, 1]]], [[[[1 / 2, 1 / 2]]]],
                          [[[[1, 1]]]], [[[[3]]]], [[[[2]]]], (), ())),
                       infer_output = (\<lambda>tip. [[[0, 9 / 10, 0, 0, 1, 1], [0, 4 / 5, 0, 0, 1, 1]]])\<rparr>],
      transitions = [], nms_thresh = 45 / 100, nms_topk = 400, post_nms = 1,
      target_generator = (\<lambda>b (g :: unit). [b]),
      loss = (\<lambda>p. (real (length p), 0 :: real, 0 :: real, 0 :: real))\<rparr>
     \<lparr>upsample = (\<lambda>u. u), concat_route = (\<lambda>u r. u), fake_featmap = (\<lambda>u. 0),
      box_nms = (\<lambda>overlap valid topk a. a)\<rparr>
     True True 0 ()
   = Inr (Losses (5, 0, 0, 0))
   \<and> YOLOV3_forward
     \<lparr>stages = [\<lambda>u :: real. u + 1], yolo_blocks = [\<lambda>u. (u, u)],
      yolo_outputs = [\<lparr>train_output = (\<lambda>tip. ([[[0, 0, 1, 1]]], [[[[1 / 2, 1 / 2]]]],
                          [[[[1, 1]]]], [[[[3]]]], [[[[2]]]], (), ())),
                       infer_output = (\<lambda>tip. [[[0, 9 / 10, 0, 0, 1, 1], [0, 4 / 5, 0, 0, 1, 1]]])\<rparr>],
      transitions = [], nms_thresh = 45 / 100, nms_topk = 400, post_nms = 1,
      target_generator = (\<lambda>b (g :: unit). [b]),
      loss = (\<lambda>p. (real (length p), 0 :: real, 0 :: real, 0 :: real))\<rparr>
     \<lparr>upsample = (\<lambda>u. u), concat_route = (\<lambda>u r. u), fake_featmap = (\<lambda>u. 0),
      box_nms = (\<lambda>overlap valid topk a. a)\<rparr>
     True False 0 ()
   = Inr (RawPredictions [[[0, 0, 1, 1]]] [()] [()] [0] [[[1 / 2, 1 / 2]]] [[[1, 1]]]
            [[[3]]] [[[2]]])"
proof -
  define out0 :: "(real, unit) output_layer" where
    "out0 = \<lparr>train_output = (\<lambda>tip. ([[[0, 0, 1, 1]]], [[[[1 / 2, 1 / 2]]]],
                          [[[[1, 1]]]], [[[[3]]]], [[[[2]]]], (), ())),
             infer_output = (\<lambda>tip. [[[0, 9 / 10, 0, 0, 1, 1], [0, 4 / 5, 0, 0, 1, 1]]])\<rparr>"
  define net0 :: "(real, unit, unit, real) yolov3" where
    "net0 = \<lparr>stages = [\<lambda>u. u + 1], yolo_blocks = [\<lambda>u. (u, u)], yolo_outputs = [out0],
      transitions = [], nms_thresh = 45 / 100, nms_topk = 400, post_nms = 1,
      target_generator = (\<lambda>b g. [b]), loss = (\<lambda>p. (real (length p), 0, 0, 0))\<rparr>"
  define ops0 :: "real mx_ops" where
    "ops0 = \<lparr>upsample = (\<lambda>u. u), concat_route = (\<lambda>u r. u), fake_featmap = (\<lambda>u. 0),
      box_nms = (\<lambda>overlap valid topk a. a)\<rparr>"
  have ci: "collect net0 ops0 False 0
      = Inr \<lparr>all_box_centers = [], all_box_scales = [], all_objectness = [],
           all_class_pred = [], all_anchors = [], all_offsets = [], all_feat_maps = [],
           all_detections = [[[[0, 9 / 10, 0, 0, 1, 1], [0, 4 / 5, 0, 0, 1, 1]]]]\<rparr>"
    by (simp add: collect_def net0_def out0_def collect_output_def)
  have ct: "collect net0 ops0 True 0
      = Inr \<lparr>all_box_centers = [[[[1 / 2, 1 / 2]]]], all_box_scales = [[[[1, 1]]]],
           all_objectness = [[[[3]]]], all_class_pred = [[[[2]]]], all_anchors = [()],
           all_offsets = [()], all_feat_maps = [0],
           all_detections = [[[[0, 0, 1, 1]]]]\<rparr>"
    by (simp add: collect_def net0_def out0_def ops0_def collect_output_def reshape_0_m3_m1_def)
  have cc: "concat_dim1 [[[[0, 9 / 10, 0, 0, 1, 1], [0, 4 / 5, 0, 0, 1, 1]]]]
        = Inr [[[0, 9 / 10, 0, 0, 1, 1], [0, 4 / 5, 0, 0, 1, 1]]]"
    "concat_dim1 [[[[0, 0, 1, 1]]]] = Inr [[[0, 0, 1, 1]]]"
    "concat_dim1 [[[[1 / 2, 1 / 2]]]] = Inr [[[1 / 2, 1 / 2]]]"
    "concat_dim1 [[[[1, 1]]]] = Inr [[[1, 1]]]"
    "concat_dim1 [[[[3]]]] = Inr [[[3]]]"
    "concat_dim1 [[[[2]]]] = Inr [[[2]]]"
    by (simp_all add: concat_dim1_def)
  have ns: "nms_stage net0 ops0 [[[0, 9 / 10, 0, 0, 1, 1], [0, 4 / 5, 0, 0, 1, 1]]]
      = Inr [[[0, 9 / 10, 0, 0, 1, 1]]]"
    by (simp add: nms_stage_def net0_def ops0_def slice_axis1_def)
  have sl: "slice_axis_last 0 (Some 1) [[[0, 9 / 10, 0, 0, 1, 1]]] = Inr [[[0]]]"
    "slice_axis_last 1 (Some 2) [[[0, 9 / 10, 0, 0, 1, 1]]] = Inr [[[9 / 10]]]"
    "slice_axis_last 2 None [[[0, 9 / 10, 0, 0, 1, 1]]] = Inr [[[0, 0, 1, 1]]]"
    by (simp_all add: slice_axis_last_def slice_row_ok_def slice_row_def)
  note t = YOLOV3_forward_modes [of net0 ops0 0 "()"]
  have 1: "YOLOV3_forward net0 ops0 False False 0 ()
      = Inr (Inference [[[0]]] [[[9 / 10]]] [[[0, 0, 1, 1]]])"
    unfolding t [of "Inference [[[0]]] [[[9 / 10]]] [[[0, 0, 1, 1]]]" False,
        THEN conjunct2, THEN conjunct2, THEN conjunct1]
    by (simp add: ci cc ns sl sl [unfolded One_nat_def])
  have 2: "YOLOV3_forward net0 ops0 True True 0 () = Inr (Losses (5, 0, 0, 0))"
    unfolding t [of "Losses (5, 0, 0, 0)", THEN conjunct1]
    by (simp add: ct cc, simp add: net0_def)
  have 3: "YOLOV3_forward net0 ops0 True False 0 ()
      = Inr (RawPredictions [[[0, 0, 1, 1]]] [()] [()] [0] [[[1 / 2, 1 / 2]]] [[[1, 1]]]
            [[[3]]] [[[2]]])"
    unfolding t [of "RawPredictions [[[0, 0, 1, 1]]] [()] [()] [0] [[[1 / 2, 1 / 2]]]
        [[[1, 1]]] [[[3]]] [[[2]]]", THEN conjunct2, THEN conjunct1]
    by (simp add: ct cc)
  from 1 2 3 show ?thesis
    unfolding net0_def out0_def ops0_def by (intro conjI)
qed

section \<open>The non-maximum-suppression stage of \<^verbatim>\<open>YOLOV3.hybrid_forward\<close>\<close>

lemma nms_stage_off:
  assumes "\<not> (0 < nms_thresh net \<and> nms_thresh net < 1)"
  shows "nms_stage net ops dets = Inr dets"
  using assms by (auto simp: nms_stage_def)

lemma nms_stage_on:
  assumes "0 < nms_thresh net \<and> nms_thresh net < 1"
  shows "nms_stage net ops dets =
     (if post_nms net > 0
      then slice_axis1 (post_nms net) (box_nms ops (nms_thresh net) (1 / 100) (nms_topk net) dets)
      else Inr (box_nms ops (nms_thresh net) (1 / 100) (nms_topk net) dets))"
  using assms by (simp add: nms_stage_def Let_def)

text \<open>
  Claim C2. At inference the stage after the concatenation leaves the
  concatenated detections as they are unless \<open>0 < nms_thresh < 1\<close>, and for
  \<open>0 < nms_thresh < 1\<close> its result is built from what \<^verbatim>\<open>box_nms\<close> returns for
  them (with \<^verbatim>\<open>overlap_thresh=nms_thresh\<close>, \<^verbatim>\<open>valid_thresh=0.01\<close> and
  \<^verbatim>\<open>topk=nms_topk\<close>): that array itself when \<^verbatim>\<open>post_nms\<close> is not positive, and
  for a positive \<^verbatim>\<open>post_nms\<close> its first \<^verbatim>\<open>post_nms\<close> rows of every image, which
  MXNet returns exactly when every image that has rows has at least
  \<^verbatim>\<open>post_nms\<close> of them. The result then has at most \<^verbatim>\<open>post_nms\<close> rows for every
  image, and so have the \<^verbatim>\<open>ids\<close>, \<^verbatim>\<open>scores\<close> and \<^verbatim>\<open>bboxes\<close> that
  \<^verbatim>\<open>hybrid_forward\<close> returns.
\<close>

theorem YOLOV3_nms_stage_applies:
  fixes net :: "('x, 'p, 'g, 'l) yolov3"
  shows
  "(\<not> (0 < nms_thresh net \<and> nms_thresh net < 1) \<longrightarrow> nms_stage net ops dets = Inr dets)
   \<and> (0 < nms_thresh net \<and> nms_thresh net < 1 \<longrightarrow>
        (\<not> 0 < post_nms net \<longrightarrow>
           nms_stage net ops dets
             = Inr (box_nms ops (nms_thresh net) (1 / 100) (nms_topk net) dets))
      \<and> (0 < post_nms net \<longrightarrow>
           (nms_stage net ops dets = Inr result \<longleftrightarrow>
              list_all (\<lambda>img. img = [] \<or> post_nms net \<le> int (length img))
                (box_nms ops (nms_thresh net) (1 / 100) (nms_topk net) dets)
              \<and> result = map (take (nat (post_nms net)))
                  (box_nms ops (nms_thresh net) (1 / 100) (nms_topk net) dets))
         \<and> (nms_stage net ops dets = Inr result \<longrightarrow>
              list_all (\<lambda>img. int (length img) \<le> post_nms net) result)
         \<and> (YOLOV3_forward net ops False is_recording x args = Inr (Inference ids scores bboxes)
              \<longrightarrow> list_all (\<lambda>img. int (length img) \<le> post_nms net) ids
                \<and> list_all (\<lambda>img. int (length img) \<le> post_nms net) scores
                \<and> list_all (\<lambda>img. int (length img) \<le> post_nms net) bboxes)))"
proof -
  define nms where "nms = box_nms ops (nms_thresh net) (1 / 100) (nms_topk net)"
  have 1: "\<not> (0 < nms_thresh net \<and> nms_thresh net < 1) \<longrightarrow> nms_stage net ops dets = Inr dets"
    using nms_stage_off [of net ops dets] by blast
  have 2: "(\<not> 0 < post_nms net \<longrightarrow> nms_stage net ops dets = Inr (nms dets))
      \<and> (0 < post_nms net \<longrightarrow>
           (nms_stage net ops dets = Inr result \<longleftrightarrow>
              list_all (\<lambda>img. img = [] \<or> post_nms net \<le> int (length img)) (nms dets)
              \<and> result = map (take (nat (post_nms net))) (nms dets))
         \<and> (nms_stage net ops dets = Inr result \<longrightarrow>
              list_all (\<lambda>img. int (length img) \<le> post_nms net) result)
         \<and> (YOLOV3_forward net ops False is_recording x args = Inr (Inference ids scores bboxes)
              \<longrightarrow> list_all (\<lambda>img. int (length img) \<le> post_nms net) ids
                \<and> list_all (\<lambda>img. int (length img) \<le> post_nms net) scores
                \<and> list_all (\<lambda>img. int (length img) \<le> post_nms net) bboxes))"
    if on: "0 < nms_thresh net \<and> nms_thresh net < 1"
  proof (intro conjI impI)
    assume "\<not> 0 < post_nms net"
    then show "nms_stage net ops dets = Inr (nms dets)"
      by (simp add: nms_stage_on [OF on] nms_def)
  next
    assume p: "0 < post_nms net"
    have st: "nms_stage net ops d = slice_axis1 (post_nms net) (nms d)" for d
      using p by (simp add: nms_stage_on [OF on] nms_def)
    show "nms_stage net ops dets = Inr result \<longleftrightarrow>
              list_all (\<lambda>img. img = [] \<or> post_nms net \<le> int (length img)) (nms dets)
              \<and> result = map (take (nat (post_nms net))) (nms dets)"
      unfolding st by (rule slice_axis1_Inr)
    show "list_all (\<lambda>img. int (length img) \<le> post_nms net) result"
      if "nms_stage net ops dets = Inr result"
      using that p unfolding st by (rule slice_axis1_rows)
    assume f: "YOLOV3_forward net ops False is_recording x args = Inr (Inference ids scores bboxes)"
    then obtain acc where "forward_detections net ops acc = Inr (Inference ids scores bboxes)"
      by (rule YOLOV3_forward_Inr) simp
    from forward_detections_Inr [OF this]
    obtain d res where r: "nms_stage net ops d = Inr res"
      and i: "slice_axis_last 0 (Some 1) res = Inr ids"
      and s: "slice_axis_last 1 (Some 2) res = Inr scores"
      and b: "slice_axis_last 2 None res = Inr bboxes"
      by auto
    have rows: "list_all (\<lambda>img. int (length img) \<le> post_nms net) res"
      using r p unfolding st by (rule slice_axis1_rows)
    show "list_all (\<lambda>img. int (length img) \<le> post_nms net) ids"
      using i rows by (rule slice_axis_last_row_counts)
    show "list_all (\<lambda>img. int (length img) \<le> post_nms net) scores"
      using s rows by (rule slice_axis_last_row_counts)
    show "list_all (\<lambda>img. int (length img) \<le> post_nms net) bboxes"
      using b rows by (rule slice_axis_last_row_counts)
  qed
  show ?thesis
    unfolding nms_def [symmetric] using 1 2 by blast
qed

theorem YOLOV3_nms_stage_applies_witness:
  "nms_stage
     \<lparr>stages = ([] :: (real \<Rightarrow> real) list), yolo_blocks = [],
      yolo_outputs = ([] :: (real, unit) output_layer list), transitions = [],
      nms_thresh = 45 / 100, nms_topk = 400, post_nms = 1,
      target_generator = (\<lambda>b (g :: unit). []), loss = (\<lambda>p. (0 :: real, 0 :: real, 0 :: real, 0 :: real))\<rparr>
     \<lparr>upsample = (\<lambda>u. u), concat_route = (\<lambda>u r. u), fake_featmap = (\<lambda>u. u),
      box_nms = (\<lambda>overlap valid topk a. a)\<rparr>
     [[[0, 9 / 10, 0, 0, 1, 1], [0, 4 / 5, 0, 0, 1, 1]]]
   = Inr [[[0, 9 / 10, 0, 0, 1, 1]]]
   \<and> nms_stage
     \<lparr>stages = ([] :: (real \<Rightarrow> real) list), yolo_blocks = [],
      yolo_outputs = ([] :: (real, unit) output_layer list), transitions = [],
      nms_thresh = 1, nms_topk = 400, post_nms = 1,
      target_generator = (\<lambda>b (g :: unit). []), loss = (\<lambda>p. (0 :: real, 0 :: real, 0 :: real, 0 :: real))\<rparr>
     \<lparr>upsample = (\<lambda>u. u), concat_route = (\<lambda>u r. u), fake_featmap = (\<lambda>u. u),
      box_nms = (\<lambda>overlap valid topk a. a)\<rparr>
     [[[0, 9 / 10, 0, 0, 1, 1], [0, 4 / 5, 0, 0, 1, 1]]]
   = Inr [[[0, 9 / 10, 0, 0, 1, 1], [0, 4 / 5, 0, 0, 1, 1]]]"
proof -
  define net1 :: "(real, unit, unit, real) yolov3" where
    "net1 = \<lparr>stages = [], yolo_blocks = [], yolo_outputs = [], transitions = [],
      nms_thresh = 45 / 100, nms_topk = 400, post_nms = 1,
      target_generator = (\<lambda>b g. []), loss = (\<lambda>p. (0, 0, 0, 0))\<rparr>"
  define net2 :: "(real, unit, unit, real) yolov3" where
    "net2 = \<lparr>stages = [], yolo_blocks = [], yolo_outputs = [], transitions = [],
      nms_thresh = 1, nms_topk = 400, post_nms = 1,
      target_generator = (\<lambda>b g. []), loss = (\<lambda>p. (0, 0, 0, 0))\<rparr>"
  define ops0 :: "real mx_ops" where
    "ops0 = \<lparr>upsample = (\<lambda>u. u), concat_route = (\<lambda>u r. u), fake_featmap = (\<lambda>u. u),
      box_nms = (\<lambda>overlap valid topk a. a)\<rparr>"
  define dets :: array3 where "dets = [[[0, 9 / 10, 0, 0, 1, 1], [0, 4 / 5, 0, 0, 1, 1]]]"
  have on: "0 < nms_thresh net1 \<and> nms_thresh net1 < 1" by (simp add: net1_def)
  have p: "0 < post_nms net1" by (simp add: net1_def)
  have off: "\<not> (0 < nms_thresh net2 \<and> nms_thresh net2 < 1)" by (simp add: net2_def)
  note t1 = YOLOV3_nms_stage_applies [of net1 ops0 dets "[[[0, 9 / 10, 0, 0, 1, 1]]]",
      THEN conjunct2, rule_format, OF on, THEN conjunct2, rule_format, OF p, THEN conjunct1]
  note t2 = YOLOV3_nms_stage_applies [of net2 ops0 dets, THEN conjunct1, rule_format, OF off]
  have a: "nms_stage net1 ops0 dets = Inr [[[0, 9 / 10, 0, 0, 1, 1]]]"
    unfolding t1 by (simp add: net1_def ops0_def dets_def)
  from a t2 show ?thesis
    unfolding net1_def net2_def ops0_def dets_def by (intro conjI)
qed

end
